(* ===== verification/Prelude.thy ===== *)
theory Prelude
  imports Main "HOL-Library.Word" "HOL-Library.Product_Lexorder"
begin

text \<open>
  Shared vocabulary of the Percas development: the machine integers and byte strings of the
  Rust sources, results (\<open>Result<T, E>\<close> is a sum, \<open>Err\<close> on the left), the iterator
  adaptors the sources use (\<open>find_map\<close>), the little-endian bytes of a \<open>u32\<close>, the
  collections of simplification rules the component theories extend, and the abstract
  specification of consistent hashing that both hash rings of the program are proved to
  implement: the \<open>successor\<close> of a digest among a finite set of points.
\<close>

section \<open>Machine integers, bytes and results\<close>

type_synonym u8 = "8 word"
type_synonym u32 = "32 word"
type_synonym u64 = "64 word"
type_synonym usize = "64 word"
type_synonym bytes = "u8 list"

abbreviation Ok :: "'a \<Rightarrow> 'e + 'a" where "Ok \<equiv> Inr"
abbreviation Err :: "'e \<Rightarrow> 'e + 'a" where "Err \<equiv> Inl"

text \<open>A Rust panic that unwinds the running task; the reason is kept for the reader.\<close>

datatype panic =
    PersistFailed
  | LoadFailed
  | EmptyRange
  | TimestampOverflow
  | IndexNotFound
  | UnwrapNone
  | UnreachableCode
  | SliceOutOfBounds
  | AssertFailed

text \<open>A computation that goes on unless the one before it has panicked, \<open>Option::unwrap\<close> and \<open>assert!\<close>.\<close>

fun panic_bind :: "panic + 'a \<Rightarrow> ('a \<Rightarrow> panic + 'b) \<Rightarrow> panic + 'b" where
  "panic_bind (Inl p) f = Err p"
| "panic_bind (Inr x) f = f x"

fun unwrap :: "'a option \<Rightarrow> panic + 'a" where
  "unwrap None = Err UnwrapNone"
| "unwrap (Some x) = Ok x"

definition rust_assert :: "bool \<Rightarrow> panic + unit" where
  "rust_assert b = (if b then Ok () else Err AssertFailed)"

text \<open>\<open>u32::to_le_bytes\<close>: the four bytes of a word, least significant first.\<close>

definition to_le_bytes :: "u32 \<Rightarrow> bytes" where
  "to_le_bytes w = map (\<lambda>i. ucast (drop_bit (8 * i) w)) [0, 1, 2, 3]"

text \<open>\<open>Iterator::find_map\<close>: the first \<open>Some\<close> the function returns.\<close>

fun find_map :: "('a \<Rightarrow> 'b option) \<Rightarrow> 'a list \<Rightarrow> 'b option" where
  "find_map f [] = None"
| "find_map f (x # xs) = (case f x of Some y \<Rightarrow> Some y | None \<Rightarrow> find_map f xs)"

text \<open>\<open>Iterator::next\<close> on a fresh iterator, \<open>Option::or_else\<close>, \<open>Iterator::filter_map\<close>.\<close>

fun next_item :: "'a list \<Rightarrow> 'a option" where
  "next_item [] = None"
| "next_item (x # xs) = Some x"

fun or_else :: "'a option \<Rightarrow> 'a option \<Rightarrow> 'a option" where
  "or_else (Some x) y = Some x"
| "or_else None y = y"

text \<open>The half-open range \<open>0..n\<close> over \<open>u32\<close>, in order.\<close>

definition u32_range :: "u32 \<Rightarrow> u32 list" where
  "u32_range n = map word_of_nat [0..<unat n]"

section \<open>Collections of rules\<close>

named_theorems btree_simps \<open>observers of the ordered-map model pushed through its operations\<close>
named_theorems member_simps \<open>observers of the membership table after an update\<close>
named_theorems gossip_simps \<open>what each gossip operation leaves unchanged\<close>
named_theorems http_simps \<open>unfolding of responses and handlers\<close>

section \<open>Generic lemmas\<close>

lemma panic_bind_Ok: "panic_bind r f = Ok y \<longleftrightarrow> (\<exists>x. r = Ok x \<and> f x = Ok y)"
  by (cases r) auto

lemma rust_assert_True [simp]: "rust_assert True = Ok ()"
  by (simp add: rust_assert_def)

lemma find_map_append: "find_map f (xs @ ys) = or_else (find_map f xs) (find_map f ys)"
  by (induction xs) (auto split: option.split)

lemma find_map_None_iff: "find_map f xs = None \<longleftrightarrow> (\<forall>x\<in>set xs. f x = None)"
  by (induction xs) (auto split: option.split)

lemma find_map_Some_mem: "find_map f xs = Some y \<Longrightarrow> \<exists>x\<in>set xs. f x = Some y"
  by (induction xs) (auto split: option.splits)

lemma find_append: "List.find P (xs @ ys) = or_else (List.find P xs) (List.find P ys)"
  by (induction xs) auto

lemma or_else_None_iff [simp]: "or_else a b = None \<longleftrightarrow> a = None \<and> b = None"
  by (cases a) auto

lemma or_else_Some_iff: "or_else a b = Some y \<longleftrightarrow> a = Some y \<or> a = None \<and> b = Some y"
  by (cases a) auto

lemma or_else_None_right [simp]: "or_else a None = a"
  by (cases a) auto

lemma find_Some_memD: "List.find P xs = Some x \<Longrightarrow> x \<in> set xs \<and> P x"
  by (induction xs) (auto split: if_splits)

lemma or_else_assoc: "or_else (or_else a b) c = or_else a (or_else b c)"
  by (cases a) auto

lemma map_option_or_else: "map_option f (or_else a b) = or_else (map_option f a) (map_option f b)"
  by (cases a) auto

lemma next_item_find: "next_item xs = List.find (\<lambda>_. True) xs"
  by (cases xs) auto

lemma find_filter: "List.find P (filter Q xs) = List.find (\<lambda>x. Q x \<and> P x) xs"
  by (induction xs) auto

lemma find_map_eq: "List.find P (map f xs) = map_option f (List.find (\<lambda>x. P (f x)) xs)"
  by (induction xs) auto

lemma find_cong_set:
  "(\<And>x. x \<in> set xs \<Longrightarrow> P x = Q x) \<Longrightarrow> List.find P xs = List.find Q xs"
  by (induction xs) auto

lemma sorted_wrt_less_Cons_least:
  assumes "sorted_wrt (<) (x # xs)" and "y \<in> set xs"
  shows "x < (y :: 'a :: linorder)"
  using assms by simp

text \<open>The first match in a strictly increasing list is the least match.\<close>

lemma find_sorted_Min:
  fixes xs :: "'a :: linorder list"
  assumes "sorted_wrt (<) xs"
  shows "List.find P xs =
    (if {x \<in> set xs. P x} = {} then None else Some (Min {x \<in> set xs. P x}))"
  using assms
proof (induction xs)
  case Nil
  then show ?case by simp
next
  case (Cons a xs)
  show ?case
  proof (cases "P a")
    case True
    have "Min {x \<in> set (a # xs). P x} = a"
      using True Cons.prems by (intro Min_eqI) auto
    with True show ?thesis by auto
  next
    case False
    then have "{x \<in> set (a # xs). P x} = {x \<in> set xs. P x}" by auto
    with False Cons show ?thesis by simp
  qed
qed

text \<open>A strictly increasing list is determined by its set.\<close>

lemma sorted_wrt_less_unique:
  fixes xs :: "'a :: linorder list"
  assumes "sorted_wrt (<) xs" "sorted_wrt (<) ys" "set xs = set ys"
  shows "xs = ys"
  using assms strict_sorted_equal by blast

lemma set_u32_range: "set (u32_range n) = {i. i < n}"
proof -
  have "x < n \<Longrightarrow> x \<in> word_of_nat ` {0..<unat n}" for x :: u32
    by (rule image_eqI [where x = "unat x"]) (auto simp: word_less_nat_alt)
  moreover have "word_of_nat k < n" if "k < unat n" for k
    using that unsigned_less [of n]
    by (simp add: word_less_nat_alt unat_of_nat)
  ultimately show ?thesis by (auto simp: u32_range_def)
qed

lemma u32_range_0 [simp]: "u32_range 0 = []"
  by (simp add: u32_range_def)

lemma length_to_le_bytes [simp]: "length (to_le_bytes w) = 4"
  by (simp add: to_le_bytes_def)

lemma word_less_plus_one:
  fixes x :: "'a::len word"
  assumes "x \<noteq> - 1"
  shows "x < x + 1"
proof -
  have "1 + x \<noteq> 0" using assms by (metis add.commute eq_neg_iff_add_eq_0)
  then have "unat (1 + x) = Suc (unat x)" by (rule unatSuc)
  then show ?thesis by (simp add: word_less_nat_alt add.commute)
qed

section \<open>The abstract specification of consistent hashing\<close>

text \<open>
  A ring is a finite set of points \<open>(hash, node)\<close>. The node responsible for a digest is the
  node of the least point at or after the digest, in the order of hashes and, among points of
  one hash, of nodes; past the last point the search wraps around to the least point of all.
\<close>

definition first_node :: "('h::linorder \<times> 't::linorder) set \<Rightarrow> 't option" where
  "first_node P = (if P = {} then None else Some (snd (Min P)))"

definition successor :: "'h::linorder \<Rightarrow> ('h \<times> 't::linorder) set \<Rightarrow> 't option" where
  "successor d P = or_else (first_node {p \<in> P. d \<le> fst p}) (first_node P)"

lemma first_node_None_iff [simp]: "first_node P = None \<longleftrightarrow> P = {}"
  by (simp add: first_node_def)

lemma first_node_mem:
  assumes "finite P" "first_node P = Some t"
  shows "\<exists>h. (h, t) \<in> P"
proof -
  have "Min P \<in> P" and t: "t = snd (Min P)"
    using assms Min_in [of P] by (auto simp: first_node_def split: if_splits)
  then have "(fst (Min P), t) \<in> P" by simp
  then show ?thesis by blast
qed

lemma successor_None_iff: "successor d P = None \<longleftrightarrow> P = {}"
  by (auto simp: successor_def)

lemma successor_empty [simp]: "successor d {} = None"
  by (simp add: successor_None_iff)

lemma successor_mem:
  assumes "finite P" "successor d P = Some t"
  shows "\<exists>h. (h, t) \<in> P"
  using assms first_node_mem [of P t] first_node_mem [of "{p \<in> P. d \<le> fst p}" t]
  by (auto simp: successor_def or_else_Some_iff)

lemma successor_one_node:
  assumes "finite P" "P \<noteq> {}" "\<And>p. p \<in> P \<Longrightarrow> snd p = n"
  shows "successor d P = Some n"
proof -
  obtain t where t: "successor d P = Some t"
    using assms(2) by (metis not_None_eq successor_None_iff)
  then obtain h where "(h, t) \<in> P" using successor_mem [OF assms(1)] by blast
  with assms(3) t show ?thesis by force
qed

text \<open>
  Adding points of one node moves a digest to that node or leaves it where it was: the
  property consistent hashing is used for.
\<close>

lemma Min_union_cases:
  fixes A B :: "'a::linorder set"
  assumes "finite A" "finite B" "A \<noteq> {}"
  shows "Min (A \<union> B) = Min A \<or> Min (A \<union> B) \<in> B"
  using assms by (cases "B = {}") (auto simp: Min_Un min_def)

lemma first_node_union:
  assumes "finite P" "finite N" "\<And>p. p \<in> N \<Longrightarrow> snd p = n"
  shows "first_node (P \<union> N) = first_node P \<or> first_node (P \<union> N) = Some n \<and> N \<noteq> {}"
proof (cases "P = {}")
  case True
  then show ?thesis using assms Min_in [of N] by (auto simp: first_node_def)
next
  case False
  then have "Min (P \<union> N) = Min P \<or> Min (P \<union> N) \<in> N"
    using assms by (intro Min_union_cases)
  with False show ?thesis by (elim disjE) (auto simp: first_node_def dest: assms(3))
qed

lemma or_else_union:
  "a' = a \<or> a' = Some n \<and> p \<Longrightarrow> b' = b \<or> b' = Some n \<and> q \<Longrightarrow>
   or_else a' b' = or_else a b \<or> or_else a' b' = Some n"
  by (cases a) auto

lemma successor_union_one_node:
  assumes "finite P" "finite N" "\<And>p. p \<in> N \<Longrightarrow> snd p = n"
  shows "successor d (P \<union> N) = successor d P \<or> successor d (P \<union> N) = Some n"
proof -
  let ?P = "{p \<in> P. d \<le> fst p}" and ?N = "{p \<in> N. d \<le> fst p}"
  have ge: "{p \<in> P \<union> N. d \<le> fst p} = ?P \<union> ?N" by blast
  have a: "first_node (?P \<union> ?N) = first_node ?P \<or> first_node (?P \<union> ?N) = Some n \<and> ?N \<noteq> {}"
    using assms by (intro first_node_union) auto
  have b: "first_node (P \<union> N) = first_node P \<or> first_node (P \<union> N) = Some n \<and> N \<noteq> {}"
    using assms by (intro first_node_union)
  show ?thesis
    unfolding successor_def ge by (rule or_else_union [OF a b])
qed

end
