(* ===== verification/Json.thy ===== *)
theory Json
  imports Prelude
begin

text \<open>
  JSON values as \<open>serde_json\<close> has them, objects as association lists in their order of iteration, with the
  accessors the sources use. Numbers are integers: no value of the program is serialized as a fraction. The
  second part is the interface of a type that goes over the wire, the locale \<open>wire_type\<close>: an encoder and a
  decoder that reads back what the encoder has written, from which the same follows for lists and fields.
\<close>

section \<open>JSON\<close>

datatype json =
    JNull
  | JBool bool
  | JNum int
  | JStr string
  | JArr "json list"
  | JObj "(string \<times> json) list"

type_synonym object = "(string \<times> json) list"

text \<open>\<open>as_object().unwrap()\<close>, \<open>as_array().unwrap()\<close>, \<open>as_str().unwrap()\<close> and \<open>get(key).unwrap()\<close>.\<close>

fun as_object :: "json \<Rightarrow> panic + object" where
  "as_object (JObj kvs) = Ok kvs"
| "as_object _ = Err UnwrapNone"

fun as_array :: "json \<Rightarrow> panic + json list" where
  "as_array (JArr vs) = Ok vs"
| "as_array _ = Err UnwrapNone"

fun as_str :: "json \<Rightarrow> panic + string" where
  "as_str (JStr s) = Ok s"
| "as_str _ = Err UnwrapNone"

definition get_unwrap :: "object \<Rightarrow> string \<Rightarrow> panic + json" where
  "get_unwrap kvs k = (case map_of kvs k of None \<Rightarrow> Err UnwrapNone | Some v \<Rightarrow> Ok v)"

lemma as_Ok [simp]:
  "as_object v = Ok kvs \<longleftrightarrow> v = JObj kvs" "as_array v = Ok vs \<longleftrightarrow> v = JArr vs" "as_str v = Ok s \<longleftrightarrow> v = JStr s"
  by (cases v; simp)+

lemma get_unwrap_Ok [simp]: "get_unwrap kvs k = Ok v \<longleftrightarrow> map_of kvs k = Some v"
  by (simp add: get_unwrap_def split: option.split)

section \<open>Derived encodings\<close>

text \<open>
  The derived decoder of a struct finds each field by its name, in any order, ignores other fields, and
  refuses an object without the field or with two of them.
\<close>

definition field :: "(json \<Rightarrow> 'a option) \<Rightarrow> object \<Rightarrow> string \<Rightarrow> 'a option" where
  "field dec kvs k = (case filter (\<lambda>e. fst e = k) kvs of [e] \<Rightarrow> dec (snd e) | _ \<Rightarrow> None)"

fun object_of :: "json \<Rightarrow> object option" where
  "object_of (JObj kvs) = Some kvs"
| "object_of _ = None"

fun text_of :: "json \<Rightarrow> string option" where
  "text_of (JStr s) = Some s"
| "text_of _ = None"

fun bool_of :: "json \<Rightarrow> bool option" where
  "bool_of (JBool b) = Some b"
| "bool_of _ = None"

text \<open>An unsigned integer of the width of the type; any other number is refused.\<close>

definition word_json :: "'w::len word \<Rightarrow> json" where
  "word_json w = JNum (uint w)"

fun word_of_json :: "json \<Rightarrow> 'w::len word option" where
  "word_of_json (JNum n) = (if 0 \<le> n \<and> n < 2 ^ LENGTH('w) then Some (word_of_int n) else None)"
| "word_of_json _ = None"

definition list_json :: "('a \<Rightarrow> json) \<Rightarrow> 'a list \<Rightarrow> json" where
  "list_json enc xs = JArr (map enc xs)"

fun list_of_json :: "(json \<Rightarrow> 'a option) \<Rightarrow> json \<Rightarrow> 'a list option" where
  "list_of_json dec (JArr vs) = those (map dec vs)"
| "list_of_json dec _ = None"

locale wire_type =
  fixes ok :: bool
    and enc :: "'a \<Rightarrow> json"
    and dec :: "json \<Rightarrow> 'b option"
    and view :: "'a \<Rightarrow> 'b"
  assumes reads_back: "ok \<Longrightarrow> dec (enc x) = Some (view x)"
begin

lemma list_reads_back: "ok \<Longrightarrow> list_of_json dec (list_json enc xs) = Some (map view xs)"
  by (induction xs) (simp_all add: list_json_def reads_back)

lemma field_reads_back: "ok \<Longrightarrow> filter (\<lambda>e. fst e = k) kvs = [(k, enc x)] \<Longrightarrow> field dec kvs k = Some (view x)"
  by (simp add: field_def reads_back)

end

interpretation word_wire: wire_type True "word_json :: 'w::len word \<Rightarrow> json" word_of_json id
  by unfold_locales (simp add: word_json_def)

interpretation text_wire: wire_type True JStr text_of id
  by unfold_locales simp

interpretation bool_wire: wire_type True JBool bool_of id
  by unfold_locales simp

end
