(* ===== verification/BTree.thy ===== *)
theory BTree
  imports Prelude
begin

text \<open>
  The standard library's \<open>BTreeMap\<close> and \<open>BTreeSet\<close>, as far as the sources use them: a
  finite map iterated in increasing key order. The type is the set of finite maps, so two maps are
  equal exactly when they hold the same entries (Rust's derived \<open>PartialEq\<close>); \<open>bt_entries\<close> lists
  the entries by increasing key, and the operations are shown to act on that list.
  A set is a map to \<open>unit\<close>, as in the standard library itself. The locale \<open>ordered_map\<close>
  states the contract the component theories rely on; it is interpreted on the model below.
\<close>

section \<open>Association lists with increasing keys\<close>

fun upd_entry :: "'k::linorder \<Rightarrow> 'v \<Rightarrow> ('k \<times> 'v) list \<Rightarrow> ('k \<times> 'v) list" where
  "upd_entry k v [] = [(k, v)]"
| "upd_entry k v ((k', v') # es) =
     (if k < k' then (k, v) # (k', v') # es
      else if k = k' then (k, v) # es
      else (k', v') # upd_entry k v es)"

abbreviation increasing :: "('k::linorder \<times> 'v) list \<Rightarrow> bool" where
  "increasing es \<equiv> sorted_wrt (<) (map fst es)"

lemma upd_entry_keys: "fst ` set (upd_entry k v es) = insert k (fst ` set es)"
  by (induction k v es rule: upd_entry.induct) auto

lemma increasing_upd_entry: "increasing es \<Longrightarrow> increasing (upd_entry k v es)"
proof (induction es)
  case Nil
  then show ?case by simp
next
  case (Cons e es)
  obtain k' v' where e: "e = (k', v')" by (cases e)
  have "\<forall>x\<in>fst ` set (upd_entry k v es). k' < x" if "k' < k"
    using Cons.prems that by (auto simp: upd_entry_keys e)
  with Cons show ?case by (auto simp: e)
qed

lemma increasing_filter: "increasing es \<Longrightarrow> increasing (filter P es)"
  by (induction es) auto

lemma map_of_upd_entry: "map_of (upd_entry k v es) = (map_of es)(k \<mapsto> v)"
  by (induction es) (auto simp: fun_eq_iff)

lemma increasing_distinct: "increasing es \<Longrightarrow> distinct (map fst es)"
  using strict_sorted_iff by blast

lemma increasing_unique:
  assumes "increasing es" "increasing fs" "map_of es = map_of fs"
  shows "es = fs"
proof (rule map_sorted_distinct_set_unique [where f = fst])
  show "set es = set fs"
    by (rule map_of_inject_set [THEN iffD1]) (use assms increasing_distinct in blast)+
  then show "inj_on fst (set es \<union> set fs)"
    using assms(1) increasing_distinct [of es] by (simp add: distinct_map)
qed (use assms in \<open>auto simp: strict_sorted_iff\<close>)

lemma map_of_filter_key:
  "map_of (filter (\<lambda>e. fst e \<noteq> k) es) k' = (if k' = k then None else map_of es k')"
  by (induction es) auto

section \<open>The type and its operations\<close>

typedef ('k, 'v) btree_map = "{m :: 'k \<rightharpoonup> 'v. finite (dom m)}"
  morphisms bt_get Bt_of
  by (rule exI [of _ Map.empty]) simp

setup_lifting type_definition_btree_map

lift_definition bt_new :: "('k, 'v) btree_map" is Map.empty
  by simp

lift_definition bt_insert :: "'k::linorder \<Rightarrow> 'v \<Rightarrow> ('k, 'v) btree_map \<Rightarrow> ('k, 'v) btree_map"
  is "\<lambda>k v m. m(k \<mapsto> v)"
  by simp

lift_definition bt_remove :: "'k::linorder \<Rightarrow> ('k, 'v) btree_map \<Rightarrow> ('k, 'v) btree_map"
  is "\<lambda>k m. m(k := None)"
  by simp

text \<open>\<open>iter()\<close>: the entries in increasing key order.\<close>

definition bt_entries :: "('k::linorder, 'v) btree_map \<Rightarrow> ('k \<times> 'v) list" where
  "bt_entries m = map (\<lambda>k. (k, the (bt_get m k))) (sorted_list_of_set (dom (bt_get m)))"

definition bt_keys :: "('k::linorder, 'v) btree_map \<Rightarrow> 'k list" where
  "bt_keys m = map fst (bt_entries m)"

definition bt_values :: "('k::linorder, 'v) btree_map \<Rightarrow> 'v list" where
  "bt_values m = map snd (bt_entries m)"

definition bt_is_empty :: "('k::linorder, 'v) btree_map \<Rightarrow> bool" where
  "bt_is_empty m \<longleftrightarrow> bt_entries m = []"

definition bt_len :: "('k::linorder, 'v) btree_map \<Rightarrow> nat" where
  "bt_len m = length (bt_entries m)"

text \<open>\<open>range(k..)\<close> and \<open>range(..=k)\<close>.\<close>

definition bt_range_from :: "('k::linorder, 'v) btree_map \<Rightarrow> 'k \<Rightarrow> ('k \<times> 'v) list" where
  "bt_range_from m k = filter (\<lambda>e. k \<le> fst e) (bt_entries m)"

definition bt_range_to_incl :: "('k::linorder, 'v) btree_map \<Rightarrow> 'k \<Rightarrow> ('k \<times> 'v) list" where
  "bt_range_to_incl m k = filter (\<lambda>e. fst e \<le> k) (bt_entries m)"

type_synonym 't btree_set = "('t, unit) btree_map"

definition bs_insert :: "'t::linorder \<Rightarrow> 't btree_set \<Rightarrow> 't btree_set" where
  "bs_insert x s = bt_insert x () s"

section \<open>The contract\<close>

text \<open>
  What a client of an ordered map relies on: lookup after each operation, and an iteration that
  is strictly increasing and agrees with lookup.
\<close>

locale ordered_map =
  fixes empty :: "'m"
    and lookup :: "'m \<Rightarrow> 'k::linorder \<Rightarrow> 'v option"
    and insert_at :: "'k \<Rightarrow> 'v \<Rightarrow> 'm \<Rightarrow> 'm"
    and remove :: "'k \<Rightarrow> 'm \<Rightarrow> 'm"
    and entries :: "'m \<Rightarrow> ('k \<times> 'v) list"
  assumes lookup_empty: "lookup empty k = None"
    and lookup_insert: "lookup (insert_at k v m) k' = (if k' = k then Some v else lookup m k')"
    and lookup_remove: "lookup (remove k m) k' = (if k' = k then None else lookup m k')"
    and entries_increasing: "sorted_wrt (<) (map fst (entries m))"
    and entries_lookup: "map_of (entries m) k = lookup m k"
    and extensional: "(\<And>k. lookup m k = lookup m' k) \<Longrightarrow> m = m'"
begin

lemma entries_distinct: "distinct (map fst (entries m))"
  using entries_increasing strict_sorted_iff by blast

lemma mem_entries_iff: "(k, v) \<in> set (entries m) \<longleftrightarrow> lookup m k = Some v"
  by (metis entries_distinct entries_lookup map_of_eq_Some_iff)

lemma keys_iff: "k \<in> fst ` set (entries m) \<longleftrightarrow> lookup m k \<noteq> None"
  by (simp add: entries_lookup [symmetric] map_of_eq_None_iff)

lemma insert_same_iff: "insert_at k v m = m \<longleftrightarrow> lookup m k = Some v"
  by (metis extensional lookup_insert)

lemma insert_idem: "insert_at k v (insert_at k v' m) = insert_at k v m"
  by (rule extensional) (simp add: lookup_insert)

lemma insert_commute: "k \<noteq> k' \<Longrightarrow> insert_at k v (insert_at k' v' m) = insert_at k' v' (insert_at k v m)"
  by (rule extensional) (simp add: lookup_insert)

lemma remove_absent: "lookup m k = None \<Longrightarrow> remove k m = m"
  by (rule extensional) (simp add: lookup_remove)

lemma lookup_fold_remove:
  "lookup (fold remove ks m) k = (if k \<in> set ks then None else lookup m k)"
  by (induction ks arbitrary: m) (auto simp: lookup_remove)

lemma values_iff: "v \<in> set (map snd (entries m)) \<longleftrightarrow> (\<exists>k. lookup m k = Some v)"
  by (force simp: mem_entries_iff [symmetric])

end

lemma finite_dom_bt_get [simp]: "finite (dom (bt_get m))"
  using bt_get [of m] by simp

lemma bt_entries_increasing: "increasing (bt_entries m)"
  by (simp add: bt_entries_def comp_def)

lemma map_of_bt_entries: "map_of (bt_entries m) = bt_get m"
proof
  fix k
  show "map_of (bt_entries m) k = bt_get m k"
    by (cases "bt_get m k") (auto simp: bt_entries_def map_of_map_keys)
qed

interpretation bt: ordered_map bt_new bt_get bt_insert bt_remove bt_entries
proof unfold_locales
  fix m m' :: "('k::linorder, 'v) btree_map" and k k' :: 'k and v :: 'v
  show "bt_get (bt_new :: ('k, 'v) btree_map) k = None"
    by (simp add: bt_new.rep_eq)
  show "bt_get (bt_insert k v m) k' = (if k' = k then Some v else bt_get m k')"
    by (simp add: bt_insert.rep_eq)
  show "bt_get (bt_remove k m) k' = (if k' = k then None else bt_get m k')"
    by (simp add: bt_remove.rep_eq)
  show "increasing (bt_entries m)"
    by (rule bt_entries_increasing)
  show "map_of (bt_entries m) k = bt_get m k"
    by (simp add: map_of_bt_entries)
  show "m = m'" if "\<And>k. bt_get m k = bt_get m' k"
    using that by (intro bt_get_inject [THEN iffD1]) (simp add: fun_eq_iff)
qed

text \<open>
  Iteration computes on association lists. The equations double as code equations: a map is
  represented by its entries.
\<close>

definition Bt_map :: "('k::linorder \<times> 'v) list \<Rightarrow> ('k, 'v) btree_map" where
  "Bt_map es = Bt_of (map_of es)"

lemma Bt_map_entries [code abstype]: "Bt_map (bt_entries m) = m"
  by (simp add: Bt_map_def map_of_bt_entries bt_get_inverse)

lemma bt_entries_new [code abstract]: "bt_entries bt_new = []"
  by (rule increasing_unique) (simp_all add: bt_entries_increasing map_of_bt_entries bt_new.rep_eq)

lemma bt_entries_insert [code abstract]: "bt_entries (bt_insert k v m) = upd_entry k v (bt_entries m)"
  by (rule increasing_unique)
    (simp_all add: bt_entries_increasing increasing_upd_entry map_of_upd_entry map_of_bt_entries bt_insert.rep_eq)

lemma bt_entries_remove [code abstract]:
  "bt_entries (bt_remove k m) = filter (\<lambda>e. fst e \<noteq> k) (bt_entries m)"
  by (rule increasing_unique)
    (simp_all add: bt_entries_increasing increasing_filter map_of_filter_key map_of_bt_entries bt_remove.rep_eq fun_eq_iff)

lemma bt_get_entries [code]: "bt_get m k = map_of (bt_entries m) k"
  by (simp add: map_of_bt_entries)

lemmas bt_entries_simps [btree_simps] = bt_entries_new bt_entries_insert bt_entries_remove

lemmas bt_get_simps [simp] = bt.lookup_empty bt.lookup_insert bt.lookup_remove

lemma bt_eqI: "(\<And>k. bt_get m k = bt_get m' k) \<Longrightarrow> m = m'"
  by (simp add: bt_get_inject [symmetric] fun_eq_iff)

lemma set_bt_keys: "set (bt_keys m) = {k. bt_get m k \<noteq> None}"
  using bt.keys_iff [of _ m] by (auto simp: bt_keys_def)

lemma mem_bt_values: "v \<in> set (bt_values m) \<longleftrightarrow> (\<exists>k. bt_get m k = Some v)"
  using bt.values_iff [of v m] by (simp add: bt_values_def)

lemma bt_keys_increasing: "sorted_wrt (<) (bt_keys m)"
  using bt_entries_increasing [of m] by (simp add: bt_keys_def)

lemma bt_is_empty_iff: "bt_is_empty m \<longleftrightarrow> (\<forall>k. bt_get m k = None)"
  by (auto simp: bt_is_empty_def bt_get_entries map_of_eq_empty_iff [symmetric] fun_eq_iff)

lemma bt_is_empty_insert [simp]: "\<not> bt_is_empty (bt_insert k v m)"
  by (auto simp: bt_is_empty_iff intro: exI [of _ k])

lemma bt_is_empty_new [simp]: "bt_is_empty bt_new"
  by (simp add: bt_is_empty_iff)

lemma bt_len_0_iff: "bt_len m = 0 \<longleftrightarrow> bt_is_empty m"
  by (simp add: bt_len_def bt_is_empty_def)

section \<open>Maps of maps\<close>

text \<open>
  Both rings of the program are maps from hashes to non-empty ordered maps of nodes. Their
  points, listed bucket by bucket, are strictly increasing in the lexicographic order.
\<close>

definition bt_flat :: "('h::linorder, ('t::linorder, 'v) btree_map) btree_map \<Rightarrow> ('h \<times> 't) list" where
  "bt_flat m = concat (map (\<lambda>(h, b). map (Pair h) (bt_keys b)) (bt_entries m))"

definition no_empty_bucket :: "('h::linorder, ('t::linorder, 'v) btree_map) btree_map \<Rightarrow> bool" where
  "no_empty_bucket m \<longleftrightarrow> list_all (\<lambda>b. \<not> bt_is_empty b) (bt_values m)"

lemma no_empty_bucket_iff:
  "no_empty_bucket m \<longleftrightarrow> (\<forall>h b. bt_get m h = Some b \<longrightarrow> \<not> bt_is_empty b)"
  by (auto simp: no_empty_bucket_def list_all_iff mem_bt_values)

lemma bucket_inhabited:
  "no_empty_bucket m \<Longrightarrow> bt_get m h = Some b \<Longrightarrow> \<exists>t. bt_get b t \<noteq> None"
  by (auto simp: no_empty_bucket_iff bt_is_empty_iff)

lemma mem_bt_flat: "(h, t) \<in> set (bt_flat m) \<longleftrightarrow> (\<exists>b. bt_get m h = Some b \<and> bt_get b t \<noteq> None)"
  by (force simp: bt_flat_def set_bt_keys bt.mem_entries_iff [symmetric] split: prod.splits)

lemma flat_increasing:
  assumes "increasing es"
  shows "sorted_wrt (<) (concat (map (\<lambda>(h, b). map (Pair h) (bt_keys b)) es))"
  using assms
proof (induction es)
  case Nil
  then show ?case by simp
next
  case (Cons e es)
  obtain h b where e: "e = (h, b)" by (cases e)
  have "sorted_wrt (<) (map (Pair h) (bt_keys b))"
    using bt_keys_increasing [of b] by (simp add: sorted_wrt_map)
  with Cons show ?case
    by (auto simp: e sorted_wrt_append)
qed

lemma bt_flat_increasing: "sorted_wrt (<) (bt_flat m)"
  unfolding bt_flat_def by (rule flat_increasing) (rule bt_entries_increasing)

lemma find_flat:
  "find_map (\<lambda>(h, b). List.find P (bt_keys b)) (filter (\<lambda>e. Q (fst e)) es) =
   map_option snd (List.find (\<lambda>p. Q (fst p) \<and> P (snd p))
     (concat (map (\<lambda>(h, b). map (Pair h) (bt_keys b)) es)))"
proof (induction es)
  case Nil
  then show ?case by simp
next
  case (Cons e es)
  obtain h b where e: "e = (h, b)" by (cases e)
  have "List.find (\<lambda>_. False) (bt_keys b) = None"
    by (simp add: find_None_iff)
  with Cons show ?case
    by (cases "List.find P (bt_keys b)")
      (auto simp: e find_append find_map_eq map_option_or_else comp_def)
qed

lemma find_flat_first_node:
  "find_map (\<lambda>(h, b). List.find P (bt_keys b)) (filter (\<lambda>e. Q (fst e)) (bt_entries m)) =
   first_node {p \<in> set (bt_flat m). Q (fst p) \<and> P (snd p)}"
  unfolding find_flat bt_flat_def [symmetric]
  unfolding find_sorted_Min [OF bt_flat_increasing] first_node_def by (simp del: split_paired_Ex)

text \<open>Without empty buckets, the first bucket of a range already holds the first node.\<close>

lemma first_bucket_find_map:
  assumes "\<And>h b. (h, b) \<in> set es \<Longrightarrow> \<not> bt_is_empty b"
  shows "Option.bind (next_item es) (\<lambda>(h, b). next_item (bt_keys b)) =
    find_map (\<lambda>(h, b). List.find (\<lambda>_. True) (bt_keys b)) es"
proof (cases es)
  case Nil
  then show ?thesis by simp
next
  case (Cons e es')
  obtain h b where e: "e = (h, b)" by (cases e)
  then have "bt_keys b \<noteq> []"
    using assms Cons by (auto simp: bt_keys_def bt_is_empty_def)
  then show ?thesis
    by (cases "bt_keys b") (simp_all add: Cons e)
qed

lemma nested_unit_ext:
  fixes m m' :: "('h::linorder, 't::linorder btree_set) btree_map"
  assumes "no_empty_bucket m" "no_empty_bucket m'" "set (bt_flat m) = set (bt_flat m')"
  shows "m = m'"
proof (rule bt_eqI)
  fix h
  have mem: "(\<exists>b. bt_get m h = Some b \<and> bt_get b t \<noteq> None) \<longleftrightarrow>
      (\<exists>b. bt_get m' h = Some b \<and> bt_get b t \<noteq> None)" for t
    unfolding mem_bt_flat [symmetric] using assms(3) by blast
  have eq: "b = b'" if "bt_get m h = Some b" "bt_get m' h = Some b'" for b b'
  proof (rule bt_eqI)
    fix t
    show "bt_get b t = bt_get b' t"
      using mem [of t] that by (cases "bt_get b t"; cases "bt_get b' t") auto
  qed
  have m': "bt_get m' h \<noteq> None" if b: "bt_get m h = Some b" for b
  proof -
    obtain t where "bt_get b t \<noteq> None" using bucket_inhabited [OF assms(1) b] by blast
    with mem [of t] b show ?thesis by auto
  qed
  have m: "bt_get m h \<noteq> None" if b: "bt_get m' h = Some b" for b
  proof -
    obtain t where "bt_get b t \<noteq> None" using bucket_inhabited [OF assms(2) b] by blast
    with mem [of t] b show ?thesis by auto
  qed
  show "bt_get m h = bt_get m' h"
  proof (cases "bt_get m h")
    case None
    with m show ?thesis by (cases "bt_get m' h") auto
  next
    case (Some b)
    with m' [OF Some] obtain b' where "bt_get m' h = Some b'" by blast
    with Some eq [OF Some] show ?thesis by simp
  qed
qed

end
