(* ===== verification/RingIndex.thy ===== *)
theory RingIndex
  imports BTree
begin

text \<open>
  The interface of a consistent-hash index: buckets of nodes ordered by hash, and a search that
  takes the first node of the first bucket at or after a digest and otherwise the first node of
  the first bucket of all. The server's \<open>HashRing\<close> and the client's \<open>RouteTable\<close> are written
  separately in the sources and both provide it; each is an interpretation in its own theory,
  and the properties of the two searches are the lemmas proved once here: the search computes
  the abstract \<open>successor\<close>, it fails on an empty index only, and it returns a node of the index.
\<close>

definition index_points :: "('h::linorder, ('t::linorder, 'v) btree_map) btree_map \<Rightarrow> ('h \<times> 't) set" where
  "index_points m = set (bt_flat m)"

lemma finite_index_points [simp]: "finite (index_points m)"
  by (simp add: index_points_def)

lemma mem_index_points:
  "(h, t) \<in> index_points m \<longleftrightarrow> (\<exists>b. bt_get m h = Some b \<and> bt_get b t \<noteq> None)"
  by (simp add: index_points_def mem_bt_flat)

lemma index_points_new [simp]: "index_points bt_new = {}"
  by (auto simp: mem_index_points)

text \<open>Inserting one node under one hash, in a new bucket or an existing one, adds one point.\<close>

lemma index_points_insert:
  assumes "\<And>t'. bt_get b' t' = (if t' = t then Some v else Option.bind (bt_get m h) (\<lambda>b. bt_get b t'))"
  shows "index_points (bt_insert h b' m) = insert (h, t) (index_points m)"
  using assms by (auto simp: mem_index_points split: if_splits option.splits bind_splits)

locale ring_index =
  fixes buckets :: "'r \<Rightarrow> ('h::linorder, ('t::linorder, 'v) btree_map) btree_map"
    and owner :: "'r \<Rightarrow> 'h \<Rightarrow> 't option"
    and valid :: "'r \<Rightarrow> bool"
  assumes bucket_nonempty: "valid r \<Longrightarrow> no_empty_bucket (buckets r)"
    and owner_search:
      "owner r d = or_else
         (Option.bind (next_item (bt_range_from (buckets r) d)) (\<lambda>(h, b). next_item (bt_keys b)))
         (Option.bind (next_item (bt_entries (buckets r))) (\<lambda>(h, b). next_item (bt_keys b)))"
begin

lemma bucket_of_entry:
  "valid r \<Longrightarrow> (h, b) \<in> set (bt_entries (buckets r)) \<Longrightarrow> \<not> bt_is_empty b"
  using bucket_nonempty by (auto simp: no_empty_bucket_iff bt.mem_entries_iff)

lemma owner_successor:
  assumes "valid r"
  shows "owner r d = successor d (index_points (buckets r))"
proof -
  let ?es = "bt_entries (buckets r)"
  have "Option.bind (next_item (bt_range_from (buckets r) d)) (\<lambda>(h, b). next_item (bt_keys b)) =
      first_node {p \<in> index_points (buckets r). d \<le> fst p}"
    unfolding bt_range_from_def index_points_def
    using bucket_of_entry [OF assms]
    by (subst first_bucket_find_map) (auto simp: find_flat_first_node)
  moreover have "Option.bind (next_item ?es) (\<lambda>(h, b). next_item (bt_keys b)) =
      first_node (index_points (buckets r))"
    using bucket_of_entry [OF assms] find_flat_first_node [of "\<lambda>_. True" "\<lambda>_. True" "buckets r"]
    by (subst first_bucket_find_map) (auto simp: index_points_def)
  ultimately show ?thesis
    by (simp add: owner_search successor_def)
qed

lemma owner_None_iff:
  "valid r \<Longrightarrow> owner r d = None \<longleftrightarrow> index_points (buckets r) = {}"
  by (simp add: owner_successor successor_None_iff)

lemma owner_in_points:
  "valid r \<Longrightarrow> owner r d = Some t \<Longrightarrow> \<exists>h. (h, t) \<in> index_points (buckets r)"
  using successor_mem [of "index_points (buckets r)" d t] by (simp add: owner_successor)

end

end
