(* ===== verification/Http.thy ===== *)
theory Http
  imports Prelude
begin

text \<open>
  The vocabulary of HTTP the server and the client share: methods, requests and responses as the
  handlers and the client see them, and the status codes the sources name. The textual form of a
  status (\<open>StatusCode::to_string\<close> of the \<open>http\<close> crate) is an argument where a body or an error message
  is made of it.
\<close>

datatype http_method = GET | PUT | DELETE | POST | OtherMethod string

fun method_as_str :: "http_method \<Rightarrow> string" where
  "method_as_str GET = ''GET''"
| "method_as_str PUT = ''PUT''"
| "method_as_str DELETE = ''DELETE''"
| "method_as_str POST = ''POST''"
| "method_as_str (OtherMethod m) = m"

text \<open>A request: method, url and the body, which is missing when the peer fails to transmit it.\<close>

record 'url http_request =
  req_method :: http_method
  req_url :: 'url
  req_body :: "bytes option"

record http_response =
  http_status :: nat
  content_type :: "string option"
  location :: "string option"
  http_body :: "bytes option"

abbreviation "STATUS_OK \<equiv> 200 :: nat"
abbreviation "STATUS_CREATED \<equiv> 201 :: nat"
abbreviation "STATUS_NO_CONTENT \<equiv> 204 :: nat"
abbreviation "STATUS_TEMPORARY_REDIRECT \<equiv> 307 :: nat"
abbreviation "STATUS_BAD_REQUEST \<equiv> 400 :: nat"
abbreviation "STATUS_NOT_FOUND \<equiv> 404 :: nat"
abbreviation "STATUS_TOO_MANY_REQUESTS \<equiv> 429 :: nat"

text \<open>The bytes of an ASCII string.\<close>

definition str_bytes :: "string \<Rightarrow> bytes" where
  "str_bytes s = map (\<lambda>c. of_char c) s"

end
