(* ===== verification/Client.thy ===== *)
theory Client
  imports RingIndex Http
begin

text \<open>
  \<open>client/src/route.rs\<close> and \<open>client/src/client.rs\<close>: the route table and the client. \<open>Url::parse\<close>,
  \<open>Url::join\<close>, the HTTP client with its redirect policy, the JSON decoders, the text of a status and
  \<open>mur3\<close> are the fields of \<open>client_env\<close>; sending a request changes the state \<open>'w\<close> of the outside world,
  which every operation threads through. The two cells behind \<open>RwLock\<close>s are fields of the client, which
  every operation returns updated, on error paths too. Instants are nanoseconds of the monotonic
  clock.
\<close>

section \<open>Route table\<close>

record ('id, 'url) route_table =
  rt_ring :: "(u32, ('id, 'url) btree_map) btree_map"

definition rt_default :: "('id::linorder, 'url) route_table" where
  "rt_default = \<lparr>rt_ring = bt_new\<rparr>"

definition rt_insert ::
  "u32 \<Rightarrow> 'id \<Rightarrow> 'url \<Rightarrow> ('id::linorder, 'url) route_table \<Rightarrow> ('id, 'url) route_table" where
  "rt_insert hash node_id url t =
     (case bt_get (rt_ring t) hash of
        None \<Rightarrow> t\<lparr>rt_ring := bt_insert hash (bt_insert node_id url bt_new) (rt_ring t)\<rparr>
      | Some entry \<Rightarrow> t\<lparr>rt_ring := bt_insert hash (bt_insert node_id url entry) (rt_ring t)\<rparr>)"

definition rt_lookup ::
  "(bytes \<Rightarrow> u32 \<Rightarrow> u32) \<Rightarrow> ('id::linorder, 'url) route_table \<Rightarrow> bytes \<Rightarrow> ('id \<times> 'url) option" where
  "rt_lookup mur3 t key =
     (let hash = mur3 key 0 in
      or_else
        (Option.bind (next_item (bt_range_from (rt_ring t) hash)) (\<lambda>(_, nodes). next_item (bt_entries nodes)))
        (Option.bind (next_item (bt_entries (rt_ring t))) (\<lambda>(_, nodes). next_item (bt_entries nodes))))"

section \<open>Client\<close>

definition UPDATE_ROUTE_TABLE_INTERVAL :: int where
  "UPDATE_ROUTE_TABLE_INTERVAL = 10 * 1000000000"

datatype client_error = TooManyRequests | Opaque string

text \<open>\<open>impl Display for Error\<close>\<close>

fun client_error_fmt :: "client_error \<Rightarrow> string" where
  "client_error_fmt TooManyRequests = ''Too many requests''"
| "client_error_fmt (Opaque msg) = msg"

definition make_opaque_error :: "string \<Rightarrow> client_error" where
  "make_opaque_error msg = Opaque msg"

record ('id, 'url) client_member =
  cm_node_id :: 'id
  cm_advertise_data_url :: 'url
  cm_advertise_ctrl_url :: 'url
  cm_incarnation :: u64
  cm_vnodes :: "u32 list"

record client_version =
  v_branch :: string
  v_commit :: string
  v_commit_short :: string
  v_clean :: bool
  v_source_time :: string
  v_build_time :: string
  v_rustc :: string
  v_target :: string
  v_version :: string

text \<open>A configured HTTP client: whether proxies are used and how many redirects are followed.\<close>

record reqwest_client =
  use_proxy :: bool
  redirect_limit :: nat

record ('id, 'url, 'w) client_env =
  cx_parse :: "string \<Rightarrow> string + 'url"
  cx_join :: "'url \<Rightarrow> string \<Rightarrow> string + 'url"
  cx_build :: "reqwest_client \<Rightarrow> string + reqwest_client"
  cx_send :: "reqwest_client \<Rightarrow> 'url http_request \<Rightarrow> 'w \<Rightarrow> 'w \<times> (string + http_response)"
  cx_members :: "bytes \<Rightarrow> string + ('id, 'url) client_member list"
  cx_version :: "bytes \<Rightarrow> string + client_version"
  cx_status_text :: "nat \<Rightarrow> string"
  cx_mur3 :: "bytes \<Rightarrow> u32 \<Rightarrow> u32"

text \<open>Reading a body may fail; the message is that of the transport.\<close>

definition response_bytes :: "http_response \<Rightarrow> string + bytes" where
  "response_bytes resp = (case http_body resp of None \<Rightarrow> Err ''error reading a body'' | Some b \<Rightarrow> Ok b)"

record client_builder =
  cb_data_url :: string
  cb_ctrl_url :: string
  cb_client :: "reqwest_client option"

record ('id, 'url) client =
  reqwest :: reqwest_client
  data_url :: 'url
  ctrl_url :: 'url
  last_updated :: int
  table :: "('id, 'url) route_table option"

definition client_builder_new :: "string \<Rightarrow> string \<Rightarrow> client_builder" where
  "client_builder_new d c = \<lparr>cb_data_url = d, cb_ctrl_url = c, cb_client = None\<rparr>"

definition http_client :: "reqwest_client \<Rightarrow> client_builder \<Rightarrow> client_builder" where
  "http_client c b = b\<lparr>cb_client := Some c\<rparr>"

definition client_build ::
  "('id::linorder, 'url, 'w) client_env \<Rightarrow> int \<Rightarrow> client_builder \<Rightarrow> client_error + ('id, 'url) client" where
  "client_build cx now b =
     (case cx_parse cx (cb_data_url b) of Inl e \<Rightarrow> Err (make_opaque_error e) | Inr d \<Rightarrow>
     (case cx_parse cx (cb_ctrl_url b) of Inl e \<Rightarrow> Err (make_opaque_error e) | Inr c \<Rightarrow>
     (case (case cb_client b of
              Some client \<Rightarrow> Ok client
            | None \<Rightarrow> cx_build cx \<lparr>use_proxy = False, redirect_limit = 2\<rparr>) of
        Inl e \<Rightarrow> Err (make_opaque_error e)
      | Inr client \<Rightarrow>
          Ok \<lparr>reqwest = client, data_url = d, ctrl_url = c,
              last_updated = now - UPDATE_ROUTE_TABLE_INTERVAL - 1000000000, table = None\<rparr>)))"

text \<open>The nested loop over members and their virtual nodes.\<close>

definition build_route_table :: "('id::linorder, 'url) client_member list \<Rightarrow> ('id, 'url) route_table" where
  "build_route_table ms =
     fold (\<lambda>member. fold (\<lambda>vnode. rt_insert vnode (cm_node_id member) (cm_advertise_data_url member))
       (cm_vnodes member)) ms rt_default"

text \<open>
  \<open>update_route_table_if_needed\<close>: \<open>now\<close> is read for \<open>elapsed()\<close>, \<open>now'\<close> after the exchange.
\<close>

definition update_route_table_if_needed ::
  "('id::linorder, 'url, 'w) client_env \<Rightarrow> int \<Rightarrow> int \<Rightarrow> ('id, 'url) client \<Rightarrow> 'w \<Rightarrow>
   ('id, 'url) client \<times> 'w \<times> (client_error + unit)" where
  "update_route_table_if_needed cx now now' c w =
     (case cx_join cx (ctrl_url c) ''members'' of
        Inl e \<Rightarrow> (c, w, Err (make_opaque_error e))
      | Inr url \<Rightarrow>
          if max 0 (now - last_updated c) > UPDATE_ROUTE_TABLE_INTERVAL then
            (case cx_send cx (reqwest c) \<lparr>req_method = GET, req_url = url, req_body = Some []\<rparr> w of
               (w', Inl e) \<Rightarrow> (c, w', Err (make_opaque_error e))
             | (w', Inr resp) \<Rightarrow>
                 if http_status resp = STATUS_OK then
                   (case (case response_bytes resp of Inl e \<Rightarrow> Err e | Inr b \<Rightarrow> cx_members cx b) of
                      Inl e \<Rightarrow> (c, w', Err (make_opaque_error e))
                    | Inr ms \<Rightarrow>
                        (c\<lparr>table := Some (build_route_table ms), last_updated := now'\<rparr>, w', Ok ()))
                 else if http_status resp = STATUS_TOO_MANY_REQUESTS then (c, w', Err TooManyRequests)
                 else (c, w', Err (make_opaque_error (cx_status_text cx (http_status resp)))))
          else (c, w, Ok ()))"

definition client_route :: "('id::linorder, 'url, 'w) client_env \<Rightarrow> ('id, 'url) client \<Rightarrow> bytes \<Rightarrow> 'url" where
  "client_route cx c key =
     (case table c of
        Some route_table \<Rightarrow>
          (case rt_lookup (cx_mur3 cx) route_table key of
             Some (_, url) \<Rightarrow> url
           | None \<Rightarrow> data_url c)
      | None \<Rightarrow> data_url c)"

text \<open>
  The part the data operations share: refresh the route table, join the key to the url of its node,
  send the request. A key is a string; its bytes are hashed.
\<close>

definition send_to_owner ::
  "('id::linorder, 'url, 'w) client_env \<Rightarrow> int \<Rightarrow> int \<Rightarrow> http_method \<Rightarrow> string \<Rightarrow> bytes \<Rightarrow>
   ('id, 'url) client \<Rightarrow> 'w \<Rightarrow> ('id, 'url) client \<times> 'w \<times> (client_error + http_response)" where
  "send_to_owner cx now now' m key body c w =
     (case update_route_table_if_needed cx now now' c w of
        (c', w', Inl e) \<Rightarrow> (c', w', Err e)
      | (c', w', Inr _) \<Rightarrow>
          (case cx_join cx (client_route cx c' (str_bytes key)) key of
             Inl e \<Rightarrow> (c', w', Err (make_opaque_error e))
           | Inr url \<Rightarrow>
               (case cx_send cx (reqwest c') \<lparr>req_method = m, req_url = url, req_body = Some body\<rparr> w' of
                  (w'', Inl e) \<Rightarrow> (c', w'', Err (make_opaque_error e))
                | (w'', Inr resp) \<Rightarrow> (c', w'', Ok resp))))"

definition client_get ::
  "('id::linorder, 'url, 'w) client_env \<Rightarrow> int \<Rightarrow> int \<Rightarrow> string \<Rightarrow> ('id, 'url) client \<Rightarrow> 'w \<Rightarrow>
   ('id, 'url) client \<times> 'w \<times> (client_error + bytes option)" where
  "client_get cx now now' key c w =
     (case send_to_owner cx now now' GET key [] c w of
        (c', w', Inl e) \<Rightarrow> (c', w', Err e)
      | (c', w', Inr resp) \<Rightarrow>
          (c', w',
           if http_status resp = STATUS_NOT_FOUND then Ok None
           else if http_status resp = STATUS_OK then
             (case response_bytes resp of
                Inl e \<Rightarrow> Err (make_opaque_error e)
              | Inr body \<Rightarrow> Ok (Some body))
           else if http_status resp = STATUS_TOO_MANY_REQUESTS then Err TooManyRequests
           else Err (make_opaque_error (cx_status_text cx (http_status resp)))))"

definition client_put ::
  "('id::linorder, 'url, 'w) client_env \<Rightarrow> int \<Rightarrow> int \<Rightarrow> string \<Rightarrow> bytes \<Rightarrow> ('id, 'url) client \<Rightarrow> 'w \<Rightarrow>
   ('id, 'url) client \<times> 'w \<times> (client_error + unit)" where
  "client_put cx now now' key val c w =
     (case send_to_owner cx now now' PUT key val c w of
        (c', w', Inl e) \<Rightarrow> (c', w', Err e)
      | (c', w', Inr resp) \<Rightarrow>
          (c', w',
           if http_status resp = STATUS_OK \<or> http_status resp = STATUS_CREATED then Ok ()
           else if http_status resp = STATUS_TOO_MANY_REQUESTS then Err TooManyRequests
           else Err (make_opaque_error (cx_status_text cx (http_status resp)))))"

text \<open>\<open>put_owned\<close> takes anything that converts into a body; \<open>into\<close> is that conversion.\<close>

definition client_put_owned ::
  "('id::linorder, 'url, 'w) client_env \<Rightarrow> ('v \<Rightarrow> bytes) \<Rightarrow> int \<Rightarrow> int \<Rightarrow> string \<Rightarrow> 'v \<Rightarrow> ('id, 'url) client \<Rightarrow>
   'w \<Rightarrow> ('id, 'url) client \<times> 'w \<times> (client_error + unit)" where
  "client_put_owned cx into now now' key val c w =
     (case send_to_owner cx now now' PUT key (into val) c w of
        (c', w', Inl e) \<Rightarrow> (c', w', Err e)
      | (c', w', Inr resp) \<Rightarrow>
          (c', w',
           if http_status resp = STATUS_OK \<or> http_status resp = STATUS_CREATED then Ok ()
           else if http_status resp = STATUS_TOO_MANY_REQUESTS then Err TooManyRequests
           else Err (make_opaque_error (cx_status_text cx (http_status resp)))))"

definition client_delete ::
  "('id::linorder, 'url, 'w) client_env \<Rightarrow> int \<Rightarrow> int \<Rightarrow> string \<Rightarrow> ('id, 'url) client \<Rightarrow> 'w \<Rightarrow>
   ('id, 'url) client \<times> 'w \<times> (client_error + unit)" where
  "client_delete cx now now' key c w =
     (case send_to_owner cx now now' DELETE key [] c w of
        (c', w', Inl e) \<Rightarrow> (c', w', Err e)
      | (c', w', Inr resp) \<Rightarrow>
          (c', w',
           if http_status resp = STATUS_OK \<or> http_status resp = STATUS_NO_CONTENT then Ok ()
           else if http_status resp = STATUS_TOO_MANY_REQUESTS then Err TooManyRequests
           else Err (make_opaque_error (cx_status_text cx (http_status resp)))))"

definition client_version_of ::
  "('id::linorder, 'url, 'w) client_env \<Rightarrow> ('id, 'url) client \<Rightarrow> 'w \<Rightarrow> 'w \<times> (client_error + client_version)" where
  "client_version_of cx c w =
     (case cx_join cx (ctrl_url c) ''version'' of
        Inl e \<Rightarrow> (w, Err (make_opaque_error e))
      | Inr url \<Rightarrow>
          (case cx_send cx (reqwest c) \<lparr>req_method = GET, req_url = url, req_body = Some []\<rparr> w of
             (w', Inl e) \<Rightarrow> (w', Err (make_opaque_error e))
           | (w', Inr resp) \<Rightarrow>
               (w',
                if http_status resp = STATUS_OK then
                  (case (case response_bytes resp of Inl e \<Rightarrow> Err e | Inr b \<Rightarrow> cx_version cx b) of
                     Inl e \<Rightarrow> Err (make_opaque_error e)
                   | Inr v \<Rightarrow> Ok v)
                else if http_status resp = STATUS_TOO_MANY_REQUESTS then Err TooManyRequests
                else Err (make_opaque_error (cx_status_text cx (http_status resp))))))"

section \<open>The route table as an index\<close>

definition rt_wf :: "('id::linorder, 'url) route_table \<Rightarrow> bool" where
  "rt_wf t \<longleftrightarrow> no_empty_bucket (rt_ring t)"

definition rt_points :: "('id::linorder, 'url) route_table \<Rightarrow> (u32 \<times> 'id) set" where
  "rt_points t = index_points (rt_ring t)"

text \<open>The node the search of \<open>lookup\<close> finds for a digest.\<close>

definition rt_owner :: "('id::linorder, 'url) route_table \<Rightarrow> u32 \<Rightarrow> 'id option" where
  "rt_owner t d = map_option fst (rt_lookup (\<lambda>_ _. d) t [])"

lemma next_key: "map_option fst (next_item (bt_entries b)) = next_item (bt_keys b)"
  by (cases "bt_entries b") (simp_all add: bt_keys_def)

lemma map_option_bind: "map_option f (Option.bind x g) = Option.bind x (\<lambda>y. map_option f (g y))"
  by (cases x) auto

lemma first_key_of_bucket:
  "map_option fst (Option.bind x (\<lambda>(_, nodes). next_item (bt_entries nodes))) =
   Option.bind x (\<lambda>(_, nodes). next_item (bt_keys nodes))"
  by (cases x) (auto simp: next_key)

interpretation rt: ring_index rt_ring rt_owner rt_wf
  by unfold_locales
    (simp_all add: rt_wf_def rt_owner_def rt_lookup_def Let_def map_option_or_else first_key_of_bucket)

text \<open>The url stored for a point.\<close>

definition rt_url :: "('id::linorder, 'url) route_table \<Rightarrow> u32 \<Rightarrow> 'id \<Rightarrow> 'url option" where
  "rt_url t h i = Option.bind (bt_get (rt_ring t) h) (\<lambda>b. bt_get b i)"

lemma rt_points_url: "(h, i) \<in> rt_points t \<longleftrightarrow> rt_url t h i \<noteq> None"
  by (auto simp: rt_points_def rt_url_def mem_index_points split: bind_splits)

lemma rt_url_insert:
  "rt_url (rt_insert h i u t) h' i' = (if h' = h \<and> i' = i then Some u else rt_url t h' i')"
  by (auto simp: rt_url_def rt_insert_def split: option.split)

lemma rt_wf_insert: "rt_wf t \<Longrightarrow> rt_wf (rt_insert h i u t)"
  by (auto simp: rt_wf_def rt_insert_def no_empty_bucket_iff split: option.splits if_splits)

lemma rt_default_simps [simp]: "rt_wf rt_default" "rt_url rt_default h i = None"
  by (simp_all add: rt_wf_def rt_default_def rt_url_def no_empty_bucket_iff)

lemma rt_wf_fold: "rt_wf t \<Longrightarrow> rt_wf (fold (\<lambda>h. rt_insert h i u) hs t)"
  by (induction hs arbitrary: t) (auto simp: rt_wf_insert)

lemma rt_url_fold:
  "rt_url (fold (\<lambda>h. rt_insert h i u) hs t) h' i' = (if h' \<in> set hs \<and> i' = i then Some u else rt_url t h' i')"
  by (induction hs arbitrary: t) (auto simp: rt_url_insert)

lemma rt_lookup_stored:
  assumes "rt_lookup mur3 t key = Some (i, u)"
  shows "\<exists>h. rt_url t h i = Some u"
proof -
  have first: "\<exists>h b. (h, b) \<in> set es \<and> bt_get b i = Some u"
    if "Option.bind (next_item es) (\<lambda>(_, nodes). next_item (bt_entries nodes)) = Some (i, u)" for es
  proof -
    from that obtain h b es' where "es = (h, b) # es'" "next_item (bt_entries b) = Some (i, u)"
      by (cases es) auto
    moreover from this have "(i, u) \<in> set (bt_entries b)" by (cases "bt_entries b") auto
    ultimately show ?thesis by (auto simp: bt.mem_entries_iff)
  qed
  from assms obtain h b where "(h, b) \<in> set (bt_entries (rt_ring t))" "bt_get b i = Some u"
    by (auto simp: rt_lookup_def Let_def or_else_Some_iff bt_range_from_def dest!: first)
  then have "rt_url t h i = Some u" by (simp add: rt_url_def bt.mem_entries_iff)
  then show ?thesis by blast
qed

lemma rt_lookup_successor:
  assumes "rt_wf t"
  shows "map_option fst (rt_lookup mur3 t key) = successor (mur3 key 0) (rt_points t)"
  using rt.owner_successor [OF assms, of "mur3 key 0"]
  by (simp add: rt_owner_def rt_lookup_def rt_points_def)

text \<open>What the loops over the reported members build.\<close>

definition member_points :: "('id, 'url) client_member \<Rightarrow> (u32 \<times> 'id) set" where
  "member_points m = (\<lambda>h. (h, cm_node_id m)) ` set (cm_vnodes m)"

lemma build_route_table_wf: "rt_wf (build_route_table ms)"
proof -
  have "rt_wf t \<Longrightarrow> rt_wf (fold (\<lambda>m. fold (\<lambda>v. rt_insert v (cm_node_id m) (cm_advertise_data_url m))
      (cm_vnodes m)) ms t)" for t
    by (induction ms arbitrary: t) (auto simp: rt_wf_fold)
  then show ?thesis by (simp add: build_route_table_def)
qed

lemma mem_member_points: "(h, i) \<in> member_points m \<longleftrightarrow> h \<in> set (cm_vnodes m) \<and> i = cm_node_id m"
  by (auto simp: member_points_def)

lemma rt_url_build:
  "rt_url (build_route_table ms) h i =
   map_option cm_advertise_data_url (List.find (\<lambda>m. (h, i) \<in> member_points m) (rev ms))"
proof -
  have "rt_url (fold (\<lambda>m. fold (\<lambda>v. rt_insert v (cm_node_id m) (cm_advertise_data_url m)) (cm_vnodes m)) ms t) h i =
      or_else (map_option cm_advertise_data_url (List.find (\<lambda>m. (h, i) \<in> member_points m) (rev ms))) (rt_url t h i)"
    for t
  proof (induction ms arbitrary: t)
    case (Cons m ms)
    show ?case
      by (simp add: Cons find_append map_option_or_else or_else_assoc rt_url_fold mem_member_points)
  qed simp
  then show ?thesis by (simp add: build_route_table_def)
qed

lemma rt_points_build: "rt_points (build_route_table ms) = (\<Union>m\<in>set ms. member_points m)"
  by (auto simp: rt_points_url rt_url_build find_None_iff)

lemma find_member_by_id:
  assumes "distinct (map cm_node_id ms)" "m \<in> set ms"
  shows "List.find (\<lambda>x. cm_node_id x = cm_node_id m) ms = Some m"
  using assms by (induction ms) auto

lemma rt_lookup_build:
  assumes "distinct (map cm_node_id ms)"
  shows "rt_lookup mur3 (build_route_table ms) key =
    Option.bind (successor (mur3 key 0) (\<Union>m\<in>set ms. member_points m))
      (\<lambda>i. map_option (\<lambda>m. (i, cm_advertise_data_url m)) (List.find (\<lambda>m. cm_node_id m = i) ms))"
proof (cases "rt_lookup mur3 (build_route_table ms) key")
  case None
  then show ?thesis
    using rt_lookup_successor [OF build_route_table_wf, of mur3 ms key] by (simp add: rt_points_build)
next
  case (Some p)
  then obtain i u where p: "rt_lookup mur3 (build_route_table ms) key = Some (i, u)" by (cases p) auto
  obtain h where "rt_url (build_route_table ms) h i = Some u"
    using rt_lookup_stored [OF p] by blast
  then obtain m where m: "m \<in> set ms" "cm_node_id m = i" "cm_advertise_data_url m = u"
    by (auto simp: rt_url_build mem_member_points dest!: find_Some_memD)
  moreover have "List.find (\<lambda>x. cm_node_id x = i) ms = Some m"
    using find_member_by_id [OF assms m(1)] m(2) by simp
  moreover have "successor (mur3 key 0) (\<Union>m\<in>set ms. member_points m) = Some i"
    using rt_lookup_successor [OF build_route_table_wf, of mur3 ms key] p by (simp add: rt_points_build)
  ultimately show ?thesis using p by simp
qed

lemma client_build_fresh:
  "client_build cx t b = Ok c \<Longrightarrow>
   last_updated c = t - UPDATE_ROUTE_TABLE_INTERVAL - 1000000000 \<and> table c = None"
  by (auto simp: client_build_def split: sum.split_asm)

section \<open>Properties\<close>

text \<open>
  The route table built from a list of members with distinct ids sends a key to the abstract
  successor of its digest among the reported virtual nodes, with the data url of that member.
\<close>
lemma route_table_refines_successor:
  assumes "distinct (map cm_node_id ms)"
  shows "rt_lookup mur3 (build_route_table ms) key =
    Option.bind (successor (mur3 key 0) (\<Union>m\<in>set ms. member_points m))
      (\<lambda>i. map_option (\<lambda>m. (i, cm_advertise_data_url m)) (List.find (\<lambda>m. cm_node_id m = i) ms))"
  using assms by (rule rt_lookup_build)

definition demo_member :: "nat \<Rightarrow> u32 list \<Rightarrow> (nat, string) client_member" where
  "demo_member i vs = \<lparr>cm_node_id = i, cm_advertise_data_url = ''http://d'', cm_advertise_ctrl_url = ''http://c'',
     cm_incarnation = 0, cm_vnodes = vs\<rparr>"

lemma route_table_refines_successor_witness:
  "rt_lookup (\<lambda>bs _. of_nat (length bs)) (build_route_table [demo_member 1 [2, 9], demo_member 2 [5]]) [0, 0, 0] =
    Option.bind (successor (of_nat (length [0 :: u8, 0, 0])) (\<Union>m\<in>set [demo_member 1 [2, 9], demo_member 2 [5]]. member_points m))
      (\<lambda>i. map_option (\<lambda>m. (i, cm_advertise_data_url m))
        (List.find (\<lambda>m. cm_node_id m = i) [demo_member 1 [2, 9], demo_member 2 [5]]))"
  by (rule route_table_refines_successor [of "[demo_member 1 [2, 9], demo_member 2 [5]]"]) (simp add: demo_member_def)

text \<open>
  The route table is refreshed on the first operation of a new client and then at most once per
  interval. A refresh that fails changes neither the table nor the time of the last refresh, and the
  operation fails with it; one that succeeds is followed by a window of ten seconds in which no request
  for the members is sent.
\<close>
lemma route_table_refresh_window:
  assumes "update_route_table_if_needed cx now now' c w = (c', w', r)"
  shows "(now - last_updated c \<le> UPDATE_ROUTE_TABLE_INTERVAL \<longrightarrow> c' = c \<and> w' = w) \<and>
    (\<forall>e. r = Err e \<longrightarrow> c' = c) \<and>
    (r = Ok () \<and> now - last_updated c > UPDATE_ROUTE_TABLE_INTERVAL \<longrightarrow>
       (\<exists>ms. table c' = Some (build_route_table ms)) \<and> last_updated c' = now' \<and>
       (\<forall>later later' w2. later - now' \<le> UPDATE_ROUTE_TABLE_INTERVAL \<longrightarrow>
          update_route_table_if_needed cx later later' c' w2 = (c', w2, Ok ()))) \<and>
    (\<forall>b t. client_build cx t b = Ok c \<and> t \<le> now \<longrightarrow> now - last_updated c > UPDATE_ROUTE_TABLE_INTERVAL)"
proof (intro conjI)
  have elapsed: "UPDATE_ROUTE_TABLE_INTERVAL < max 0 d \<longleftrightarrow> UPDATE_ROUTE_TABLE_INTERVAL < d" for d :: int
    by (auto simp: UPDATE_ROUTE_TABLE_INTERVAL_def)
  note defs = update_route_table_if_needed_def elapsed
  show "now - last_updated c \<le> UPDATE_ROUTE_TABLE_INTERVAL \<longrightarrow> c' = c \<and> w' = w"
    using assms by (auto simp: defs split: sum.splits)
  show "\<forall>e. r = Err e \<longrightarrow> c' = c"
    using assms by (auto simp: defs split: sum.splits if_splits prod.splits)
  show "r = Ok () \<and> now - last_updated c > UPDATE_ROUTE_TABLE_INTERVAL \<longrightarrow>
       (\<exists>ms. table c' = Some (build_route_table ms)) \<and> last_updated c' = now' \<and>
       (\<forall>later later' w2. later - now' \<le> UPDATE_ROUTE_TABLE_INTERVAL \<longrightarrow>
          update_route_table_if_needed cx later later' c' w2 = (c', w2, Ok ()))"
    using assms by (auto simp: defs split: sum.splits if_splits prod.splits)
  show "\<forall>b t. client_build cx t b = Ok c \<and> t \<le> now \<longrightarrow> now - last_updated c > UPDATE_ROUTE_TABLE_INTERVAL"
    by (auto dest!: client_build_fresh)
qed

text \<open>An environment in which every request is answered with two members.\<close>

definition demo_cx :: "(nat, string, unit) client_env" where
  "demo_cx = \<lparr>cx_parse = Ok, cx_join = (\<lambda>u p. Ok (u @ ''/'' @ p)), cx_build = Ok,
     cx_send = (\<lambda>_ _ w. (w, Ok \<lparr>http_status = 200, content_type = None, location = None, http_body = Some []\<rparr>)),
     cx_members = (\<lambda>_. Ok [demo_member 1 [2, 9], demo_member 2 [5]]),
     cx_version = (\<lambda>_. Err ''no version''), cx_status_text = (\<lambda>_. ''status''),
     cx_mur3 = (\<lambda>bs _. of_nat (length bs))\<rparr>"

definition demo_client :: "(nat, string) client" where
  "demo_client = \<lparr>reqwest = \<lparr>use_proxy = False, redirect_limit = 2\<rparr>, data_url = ''d'', ctrl_url = ''c'',
     last_updated = 5 - UPDATE_ROUTE_TABLE_INTERVAL - 1000000000, table = None\<rparr>"

lemma demo_client_refresh:
  "update_route_table_if_needed demo_cx 6 8 demo_client () =
   (demo_client\<lparr>table := Some (build_route_table [demo_member 1 [2, 9], demo_member 2 [5]]), last_updated := 8\<rparr>,
    (), Ok ())"
  by (simp add: update_route_table_if_needed_def demo_cx_def demo_client_def UPDATE_ROUTE_TABLE_INTERVAL_def
      response_bytes_def)

lemma route_table_refresh_window_witness:
  "\<exists>c'. update_route_table_if_needed demo_cx 6 8 demo_client () = (c', (), Ok ()) \<and>
    client_build demo_cx 5 (client_builder_new ''d'' ''c'') = Ok demo_client \<and> last_updated c' = 8 \<and>
    update_route_table_if_needed demo_cx 9000000000 9000000001 c' () = (c', (), Ok ())"
proof -
  let ?c = "demo_client\<lparr>table := Some (build_route_table [demo_member 1 [2, 9], demo_member 2 [5]]),
      last_updated := 8\<rparr>"
  have build: "client_build demo_cx 5 (client_builder_new ''d'' ''c'') = Ok demo_client"
    by (simp add: client_build_def demo_cx_def demo_client_def client_builder_new_def)
  have window: "(9000000000::int) - 8 \<le> UPDATE_ROUTE_TABLE_INTERVAL"
    by (simp add: UPDATE_ROUTE_TABLE_INTERVAL_def)
  have due: "6 - last_updated demo_client > UPDATE_ROUTE_TABLE_INTERVAL"
    by (simp add: demo_client_def UPDATE_ROUTE_TABLE_INTERVAL_def)
  have "update_route_table_if_needed demo_cx 9000000000 9000000001 ?c () = (?c, (), Ok ())"
    using route_table_refresh_window [OF demo_client_refresh] due window by simp
  then show ?thesis
    using demo_client_refresh build by simp
qed

end
