(* ===== verification/Ring.thy ===== *)
theory Ring
  imports RingIndex
begin

text \<open>
  \<open>crates/gossip/src/ring.rs\<close>: the consistent hash ring. \<open>mur3\<close> stands for
  \<open>mur3::murmurhash3_x86_32\<close> (bytes and seed to digest) and \<open>as_ref\<close> for the byte view
  \<open>AsRef<[u8]>\<close> of a node; both are arguments of the definitions that use them. The first part
  holds the definitions, one per function of the source; then the ring as an instance of
  \<open>ring_index\<close>, and what each operation does to the set of points.
\<close>

definition DEFAULT_VNODE_COUNT :: u32 where
  "DEFAULT_VNODE_COUNT = 64"

record 't hash_ring =
  vnodes :: u32
  nodes :: "(u32, 't btree_set) btree_map"

definition ring_default :: "'t::linorder hash_ring" where
  "ring_default = \<lparr>vnodes = DEFAULT_VNODE_COUNT, nodes = bt_new\<rparr>"

definition ring_new :: "u32 \<Rightarrow> 't::linorder hash_ring" where
  "ring_new n = \<lparr>vnodes = n, nodes = bt_new\<rparr>"

definition hash_key :: "(bytes \<Rightarrow> u32 \<Rightarrow> u32) \<Rightarrow> bytes \<Rightarrow> u32" where
  "hash_key mur3 key = mur3 key 0"

definition hash_node :: "(bytes \<Rightarrow> u32 \<Rightarrow> u32) \<Rightarrow> ('t \<Rightarrow> bytes) \<Rightarrow> 't \<Rightarrow> u32 \<Rightarrow> u32" where
  "hash_node mur3 as_ref node vnode = mur3 (as_ref node @ to_le_bytes vnode) 0"

text \<open>\<open>self.nodes.entry(hash).or_default().insert(node.clone())\<close>\<close>

definition add_point :: "'t::linorder \<Rightarrow> u32 \<Rightarrow> (u32, 't btree_set) btree_map \<Rightarrow> (u32, 't btree_set) btree_map" where
  "add_point node hash m =
     bt_insert hash (bs_insert node (case bt_get m hash of None \<Rightarrow> bt_new | Some s \<Rightarrow> s)) m"

definition add_node ::
  "(bytes \<Rightarrow> u32 \<Rightarrow> u32) \<Rightarrow> ('t::linorder \<Rightarrow> bytes) \<Rightarrow> 't \<Rightarrow> 't hash_ring \<Rightarrow> 't hash_ring" where
  "add_node mur3 as_ref node r =
     r\<lparr>nodes := fold (\<lambda>i. add_point node (hash_node mur3 as_ref node i)) (u32_range (vnodes r)) (nodes r)\<rparr>"

definition ring_from ::
  "(bytes \<Rightarrow> u32 \<Rightarrow> u32) \<Rightarrow> ('t::linorder \<Rightarrow> bytes) \<Rightarrow> 't list \<Rightarrow> 't hash_ring" where
  "ring_from mur3 as_ref iter = fold (add_node mur3 as_ref) iter ring_default"

definition lookup :: "(bytes \<Rightarrow> u32 \<Rightarrow> u32) \<Rightarrow> 't::linorder hash_ring \<Rightarrow> bytes \<Rightarrow> 't option" where
  "lookup mur3 r key =
     (let digest = hash_key mur3 key in
      or_else
        (Option.bind (next_item (bt_range_from (nodes r) digest)) (\<lambda>(_, node). next_item (bt_keys node)))
        (Option.bind (next_item (bt_entries (nodes r))) (\<lambda>(_, node). next_item (bt_keys node))))"

definition lookup_until ::
  "(bytes \<Rightarrow> u32 \<Rightarrow> u32) \<Rightarrow> 't::linorder hash_ring \<Rightarrow> bytes \<Rightarrow> ('t \<Rightarrow> bool) \<Rightarrow> 't option" where
  "lookup_until mur3 r key predicate =
     (let hash = hash_key mur3 key in
      or_else
        (find_map (\<lambda>(_, node). List.find predicate (bt_keys node)) (bt_range_from (nodes r) hash))
        (find_map (\<lambda>(_, node). List.find predicate (bt_keys node)) (bt_range_to_incl (nodes r) hash)))"

definition list_vnodes ::
  "(bytes \<Rightarrow> u32 \<Rightarrow> u32) \<Rightarrow> ('t::linorder \<Rightarrow> bytes) \<Rightarrow> 't hash_ring \<Rightarrow> 't \<Rightarrow> u32 list" where
  "list_vnodes mur3 as_ref r node = map (\<lambda>i. hash_node mur3 as_ref node i) (u32_range (vnodes r))"

section \<open>Invariant and points\<close>

text \<open>
  Between operations every bucket holds a node; \<open>lookup\<close> relies on it (it takes the first
  bucket only), and nothing but \<open>add_node\<close> writes buckets.
\<close>

definition ring_wf :: "'t::linorder hash_ring \<Rightarrow> bool" where
  "ring_wf r \<longleftrightarrow> no_empty_bucket (nodes r)"

definition ring_points :: "'t::linorder hash_ring \<Rightarrow> (u32 \<times> 't) set" where
  "ring_points r = index_points (nodes r)"

definition node_points ::
  "(bytes \<Rightarrow> u32 \<Rightarrow> u32) \<Rightarrow> ('t \<Rightarrow> bytes) \<Rightarrow> u32 \<Rightarrow> 't \<Rightarrow> (u32 \<times> 't) set" where
  "node_points mur3 as_ref n node = (\<lambda>i. (hash_node mur3 as_ref node i, node)) ` {i. i < n}"

text \<open>The search of \<open>lookup\<close> on a digest.\<close>

definition ring_owner :: "'t::linorder hash_ring \<Rightarrow> u32 \<Rightarrow> 't option" where
  "ring_owner r d = lookup (\<lambda>_ _. d) r []"

lemma lookup_ring_owner: "lookup mur3 r key = ring_owner r (hash_key mur3 key)"
  by (simp add: lookup_def ring_owner_def hash_key_def)

interpretation hr: ring_index nodes ring_owner ring_wf
  by unfold_locales (auto simp: ring_wf_def ring_owner_def lookup_def hash_key_def)

lemma finite_ring_points [simp]: "finite (ring_points r)"
  by (simp add: ring_points_def)

lemma finite_node_points [simp]: "finite (node_points mur3 as_ref n node)"
  by (simp add: node_points_def)

lemma snd_node_points: "p \<in> node_points mur3 as_ref n node \<Longrightarrow> snd p = node"
  by (auto simp: node_points_def)

lemma nodes_of_node_points: "0 < n \<Longrightarrow> snd ` node_points mur3 as_ref n node = {node}"
  by (auto simp: node_points_def image_image)

lemma index_points_add_point: "index_points (add_point node h m) = insert (h, node) (index_points m)"
  unfolding add_point_def bs_insert_def
  by (rule index_points_insert) (auto split: option.split)

lemma no_empty_bucket_add_point: "no_empty_bucket m \<Longrightarrow> no_empty_bucket (add_point node h m)"
  by (auto simp: no_empty_bucket_iff add_point_def bs_insert_def)

lemma index_points_fold_add:
  "index_points (fold (\<lambda>i. add_point node (f i)) is m) = (\<lambda>i. (f i, node)) ` set is \<union> index_points m"
  by (induction "is" arbitrary: m) (auto simp: index_points_add_point)

lemma no_empty_bucket_fold_add:
  "no_empty_bucket m \<Longrightarrow> no_empty_bucket (fold (\<lambda>i. add_point node (f i)) is m)"
  by (induction "is" arbitrary: m) (auto simp: no_empty_bucket_add_point)

lemma vnodes_add_node [simp]: "vnodes (add_node mur3 as_ref node r) = vnodes r"
  by (simp add: add_node_def)

lemma ring_points_add_node:
  "ring_points (add_node mur3 as_ref node r) = ring_points r \<union> node_points mur3 as_ref (vnodes r) node"
  by (auto simp: ring_points_def add_node_def index_points_fold_add node_points_def set_u32_range)

lemma ring_wf_add_node: "ring_wf r \<Longrightarrow> ring_wf (add_node mur3 as_ref node r)"
  by (simp add: ring_wf_def add_node_def no_empty_bucket_fold_add)

lemma ring_wf_new [simp]: "ring_wf (ring_new n)"
  by (simp add: ring_wf_def ring_new_def no_empty_bucket_iff)

lemma ring_default_new: "ring_default = ring_new DEFAULT_VNODE_COUNT"
  by (simp add: ring_default_def ring_new_def)

lemma vnodes_new [simp]: "vnodes (ring_new n) = n"
  by (simp add: ring_new_def)

lemma ring_points_new [simp]: "ring_points (ring_new n) = {}"
  by (simp add: ring_points_def ring_new_def)

lemma fold_add_node:
  "ring_wf r \<Longrightarrow> ring_wf (fold (add_node mur3 as_ref) ns r) \<and>
   vnodes (fold (add_node mur3 as_ref) ns r) = vnodes r \<and>
   ring_points (fold (add_node mur3 as_ref) ns r) =
     ring_points r \<union> (\<Union>n\<in>set ns. node_points mur3 as_ref (vnodes r) n)"
  by (induction ns arbitrary: r) (auto simp: ring_wf_add_node ring_points_add_node)

lemma ring_from_wf [simp]: "ring_wf (ring_from mur3 as_ref ns)"
  and ring_from_vnodes [simp]: "vnodes (ring_from mur3 as_ref ns) = DEFAULT_VNODE_COUNT"
  and ring_from_points:
    "ring_points (ring_from mur3 as_ref ns) =
     (\<Union>n\<in>set ns. node_points mur3 as_ref DEFAULT_VNODE_COUNT n)"
  using fold_add_node [of ring_default mur3 as_ref ns]
  by (simp_all add: ring_from_def ring_default_new)

lemma ring_eqI:
  assumes "ring_wf r" "ring_wf r'" "vnodes r = vnodes r'" "ring_points r = ring_points r'"
  shows "r = r'"
  using assms nested_unit_ext [of "nodes r" "nodes r'"]
  by (cases r; cases r') (simp add: ring_wf_def ring_points_def index_points_def)

lemma lookup_points:
  "ring_wf r \<Longrightarrow> lookup mur3 r key = successor (hash_key mur3 key) (ring_points r)"
  by (simp add: lookup_ring_owner hr.owner_successor ring_points_def)

lemma find_range_to_incl:
  assumes "first_node {p \<in> index_points m. d \<le> fst p \<and> P (snd p)} = None"
  shows "find_map (\<lambda>(_, b). List.find P (bt_keys b)) (bt_range_to_incl m d) =
    first_node {p \<in> index_points m. P (snd p)}"
proof -
  have "{p \<in> index_points m. fst p \<le> d \<and> P (snd p)} = {p \<in> index_points m. P (snd p)}"
    using assms by (force simp: not_le)
  with find_flat_first_node [of P "\<lambda>h. h \<le> d" m] show ?thesis
    by (simp only: bt_range_to_incl_def index_points_def)
qed

lemma lookup_until_points:
  "lookup_until mur3 r key P = successor (hash_key mur3 key) {p \<in> ring_points r. P (snd p)}"
proof -
  let ?m = "nodes r" and ?d = "hash_key mur3 key"
  have from_d: "find_map (\<lambda>(_, b). List.find P (bt_keys b)) (bt_range_from ?m ?d) =
      first_node {p \<in> index_points ?m. ?d \<le> fst p \<and> P (snd p)}"
    unfolding bt_range_from_def by (simp add: find_flat_first_node index_points_def)
  have eq: "{p \<in> {p \<in> index_points ?m. P (snd p)}. ?d \<le> fst p} =
      {p \<in> index_points ?m. ?d \<le> fst p \<and> P (snd p)}" by auto
  show ?thesis
    unfolding lookup_until_def Let_def from_d successor_def ring_points_def eq
    using find_range_to_incl [of ?m ?d P]
    by (cases "first_node {p \<in> index_points ?m. ?d \<le> fst p \<and> P (snd p)}") auto
qed

section \<open>Properties\<close>

text \<open>
  C2: for every ring built by \<open>HashRing::new\<close> and \<open>add_node\<close>, \<open>lookup\<close> computes the abstract
  successor of the key's digest among the virtual points of the added nodes, wrap-around and
  ties included; the order in which nodes were added plays no role.
\<close>
theorem lookup_refines_successor:
  "lookup mur3 (fold (add_node mur3 as_ref) ns (ring_new n)) key =
   successor (hash_key mur3 key) (\<Union>x\<in>set ns. node_points mur3 as_ref n x)"
  using fold_add_node [of "ring_new n" mur3 as_ref ns] by (simp add: lookup_points)

text \<open>
  C3: \<open>lookup_until\<close> is the successor search over the points whose node satisfies the
  predicate, on every ring: the second range \<open>..=hash\<close> is a complete wrap-around.
\<close>
theorem lookup_until_refines_successor:
  "lookup_until mur3 r key P = successor (hash_key mur3 key) {p \<in> ring_points r. P (snd p)}"
  by (rule lookup_until_points)

text \<open>
  \<open>lookup_until\<close> fails only when no node of the ring satisfies the predicate, and what it
  returns is a node of the ring that satisfies it.
\<close>
lemma lookup_until_complete:
  "case lookup_until mur3 r key P of
     None \<Rightarrow> {p \<in> ring_points r. P (snd p)} = {}
   | Some t \<Rightarrow> P t \<and> t \<in> snd ` ring_points r"
proof -
  have "P t \<and> t \<in> snd ` ring_points r" if "lookup_until mur3 r key P = Some t" for t
    using successor_mem [of "{p \<in> ring_points r. P (snd p)}" "hash_key mur3 key" t] that
    by (force simp: lookup_until_points)
  then show ?thesis
    by (auto simp: lookup_until_points successor_None_iff split: option.split)
qed

text \<open>
  On a well-formed ring \<open>lookup\<close> agrees with \<open>lookup_until\<close> for the predicate that is always
  true, though the two are written differently (first bucket against first match).
\<close>
lemma lookup_is_lookup_until:
  assumes "ring_wf r"
  shows "lookup mur3 r key = lookup_until mur3 r key (\<lambda>_. True)"
  using assms by (simp add: lookup_points lookup_until_points)

lemma lookup_is_lookup_until_witness:
  "ring_wf (add_node (\<lambda>bs s. of_nat (length bs)) (\<lambda>_. []) (7::nat) (ring_new 2)) \<and>
   lookup (\<lambda>bs s. of_nat (length bs)) (add_node (\<lambda>bs s. of_nat (length bs)) (\<lambda>_. []) (7::nat) (ring_new 2)) [] =
   lookup_until (\<lambda>bs s. of_nat (length bs)) (add_node (\<lambda>bs s. of_nat (length bs)) (\<lambda>_. []) 7 (ring_new 2)) []
     (\<lambda>_. True)"
proof -
  have wf: "ring_wf (add_node (\<lambda>bs s. of_nat (length bs)) (\<lambda>_. []) (7::nat) (ring_new 2))"
    by (simp add: ring_wf_add_node)
  show ?thesis using wf lookup_is_lookup_until [OF wf] by blast
qed

text \<open>
  Scaling out moves keys to the new node only: after \<open>add_node\<close> a key is served by the node
  that served it before, or by the added node.
\<close>
lemma add_node_minimal_disruption:
  "lookup mur3 (ring_from mur3 as_ref (ns @ [n])) key = lookup mur3 (ring_from mur3 as_ref ns) key \<or>
   lookup mur3 (ring_from mur3 as_ref (ns @ [n])) key = Some n"
proof -
  have "ring_points (ring_from mur3 as_ref (ns @ [n])) =
      ring_points (ring_from mur3 as_ref ns) \<union> node_points mur3 as_ref DEFAULT_VNODE_COUNT n"
    by (auto simp: ring_from_points)
  then show ?thesis
    using successor_union_one_node [of "ring_points (ring_from mur3 as_ref ns)"
        "node_points mur3 as_ref DEFAULT_VNODE_COUNT n" n "hash_key mur3 key"]
    by (simp add: lookup_points snd_node_points)
qed

text \<open>
  When a node leaves, only the keys it served move: every key served by another node keeps
  its node on the ring rebuilt from the remaining members.
\<close>
lemma remove_node_minimal_disruption:
  assumes "lookup mur3 (ring_from mur3 as_ref ns) key = Some t" and "t \<noteq> n"
  shows "lookup mur3 (ring_from mur3 as_ref (removeAll n ns)) key = Some t"
proof -
  let ?rest = "ring_points (ring_from mur3 as_ref (removeAll n ns))"
    and ?gone = "\<Union>x\<in>set ns \<inter> {n}. node_points mur3 as_ref DEFAULT_VNODE_COUNT x"
  have "ring_points (ring_from mur3 as_ref ns) = ?rest \<union> ?gone"
    by (auto simp: ring_from_points)
  moreover have "successor (hash_key mur3 key) (?rest \<union> ?gone) = successor (hash_key mur3 key) ?rest \<or>
      successor (hash_key mur3 key) (?rest \<union> ?gone) = Some n"
    by (rule successor_union_one_node) (auto dest: snd_node_points)
  ultimately show ?thesis
    using assms by (simp add: lookup_points)
qed

lemma node_points_nonempty: "0 < n \<Longrightarrow> node_points mur3 as_ref n node \<noteq> {}"
  using nodes_of_node_points [of n mur3 as_ref node] by auto

lemma default_points_nonempty: "node_points mur3 as_ref DEFAULT_VNODE_COUNT node \<noteq> {}"
  by (simp add: node_points_nonempty DEFAULT_VNODE_COUNT_def)

lemma ring_from_singleton_lookup: "lookup mur3 (ring_from mur3 as_ref [t]) key = Some t"
  by (simp add: lookup_points ring_from_points successor_one_node default_points_nonempty snd_node_points)

lemma remove_node_minimal_disruption_witness:
  "lookup (\<lambda>_ _. 5) (ring_from (\<lambda>_ _. 5) (\<lambda>_. []) (removeAll (9::nat) [3])) [] = Some 3"
  by (rule remove_node_minimal_disruption [OF ring_from_singleton_lookup]) simp

text \<open>
  The ring built from a list of nodes depends on the set of nodes only: neither the order of
  the members nor repeated members change any bucket.
\<close>
lemma ring_from_set_determined:
  "ring_from mur3 as_ref ns = ring_from mur3 as_ref (sorted_list_of_set (set ns))"
  by (rule ring_eqI) (simp_all add: ring_from_points)

text \<open>
  The virtual nodes that \<open>list_vnodes\<close> reports for a member of the ring are exactly the hashes
  at which the ring holds it, one per virtual node index.
\<close>
lemma list_vnodes_are_points:
  assumes "n \<in> set ns"
  shows "set (list_vnodes mur3 as_ref (ring_from mur3 as_ref ns) n) =
      {h. (h, n) \<in> ring_points (ring_from mur3 as_ref ns)} \<and>
    length (list_vnodes mur3 as_ref (ring_from mur3 as_ref ns) n) = 64"
proof
  show "set (list_vnodes mur3 as_ref (ring_from mur3 as_ref ns) n) =
      {h. (h, n) \<in> ring_points (ring_from mur3 as_ref ns)}"
    using assms by (auto simp: list_vnodes_def ring_from_points node_points_def set_u32_range)
  show "length (list_vnodes mur3 as_ref (ring_from mur3 as_ref ns) n) = 64"
    by (simp add: list_vnodes_def u32_range_def DEFAULT_VNODE_COUNT_def)
qed

lemma list_vnodes_are_points_witness:
  "set (list_vnodes (\<lambda>_ _. 5) (\<lambda>_. []) (ring_from (\<lambda>_ _. 5) (\<lambda>_. []) [1::nat, 2]) 2) =
     {h. (h, 2) \<in> ring_points (ring_from (\<lambda>_ _. 5) (\<lambda>_. []) [1::nat, 2])} \<and>
   length (list_vnodes (\<lambda>_ _. 5) (\<lambda>_. []) (ring_from (\<lambda>_ _. 5) (\<lambda>_. []) [1::nat, 2]) 2) = 64"
  by (rule list_vnodes_are_points) simp

end
