(* ===== verification/Node.thy ===== *)
theory Node
  imports Prelude
begin

text \<open>
  \<open>crates/gossip/src/node.rs\<close>: the identity of a node and its persistence in \<open>node.json\<close>.
  Node ids (\<open>uuid::Uuid\<close>) and urls (\<open>reqwest::Url\<close>) are type variables \<open>'id\<close> and \<open>'url\<close>;
  the JSON encoder and decoder of \<open>serde_json\<close> are arguments. The file system is a record of
  file contents and of which paths can be read and written, so that every \<open>io::Error\<close> branch
  and every panic of the source is a branch of the model.
\<close>

section \<open>File system\<close>

datatype io_error = IoError | SerdeError

record file_system =
  files :: "string \<rightharpoonup> string"
  readable :: "string \<Rightarrow> bool"
  writable :: "string \<Rightarrow> bool"

definition path_exists :: "file_system \<Rightarrow> string \<Rightarrow> bool" where
  "path_exists fs path \<longleftrightarrow> files fs path \<noteq> None"

definition read_to_string :: "file_system \<Rightarrow> string \<Rightarrow> io_error + string" where
  "read_to_string fs path =
     (case files fs path of
        None \<Rightarrow> Err IoError
      | Some data \<Rightarrow> if readable fs path then Ok data else Err IoError)"

definition fs_write :: "file_system \<Rightarrow> string \<Rightarrow> string \<Rightarrow> io_error + file_system" where
  "fs_write fs path data =
     (if writable fs path then Ok (fs\<lparr>files := (files fs)(path \<mapsto> data)\<rparr>) else Err IoError)"

text \<open>\<open>Path::join\<close> with a relative component.\<close>

definition path_join :: "string \<Rightarrow> string \<Rightarrow> string" where
  "path_join base rel = (if base = [] \<or> last base = CHR ''/'' then base @ rel else base @ ''/'' @ rel)"

text \<open>\<open>crates/core/src/config.rs\<close>\<close>

definition node_file_path :: "string \<Rightarrow> string" where
  "node_file_path base_dir = path_join base_dir ''node.json''"

section \<open>Node information\<close>

record 'id persistent_node_info =
  p_node_id :: 'id
  p_cluster_id :: string
  p_incarnation :: u64

record ('id, 'url) node_info =
  node_id :: 'id
  cluster_id :: string
  advertise_data_url :: 'url
  advertise_ctrl_url :: 'url
  incarnation :: u64

text \<open>The two directions of \<open>serde_json\<close> that the node file uses.\<close>

record 'id node_codec =
  to_string_pretty :: "'id persistent_node_info \<Rightarrow> string option"
  from_str :: "string \<Rightarrow> 'id persistent_node_info option"

definition persistent_from :: "('id, 'url) node_info \<Rightarrow> 'id persistent_node_info" where
  "persistent_from n =
     \<lparr>p_node_id = node_id n, p_cluster_id = cluster_id n, p_incarnation = incarnation n\<rparr>"

definition persistent_load ::
  "'id node_codec \<Rightarrow> file_system \<Rightarrow> string \<Rightarrow> io_error + 'id persistent_node_info option" where
  "persistent_load codec fs path =
     (if path_exists fs path then
        (case read_to_string fs path of
           Inl e \<Rightarrow> Err e
         | Inr data \<Rightarrow>
             (case from_str codec data of None \<Rightarrow> Err SerdeError | Some info \<Rightarrow> Ok (Some info)))
      else Ok None)"

definition persistent_persist ::
  "'id node_codec \<Rightarrow> file_system \<Rightarrow> string \<Rightarrow> 'id persistent_node_info \<Rightarrow> io_error + file_system" where
  "persistent_persist codec fs path info =
     (case to_string_pretty codec info of
        None \<Rightarrow> Err SerdeError
      | Some data \<Rightarrow> fs_write fs path data)"

definition node_new :: "'id \<Rightarrow> string \<Rightarrow> 'url \<Rightarrow> 'url \<Rightarrow> ('id, 'url) node_info" where
  "node_new i c data_url ctrl_url =
     \<lparr>node_id = i, cluster_id = c, advertise_data_url = data_url,
      advertise_ctrl_url = ctrl_url, incarnation = 0\<rparr>"

text \<open>\<open>self.incarnation += 1\<close> on a \<open>u64\<close>; the release profile wraps around.\<close>

definition node_advance_incarnation :: "('id, 'url) node_info \<Rightarrow> ('id, 'url) node_info" where
  "node_advance_incarnation n = n\<lparr>incarnation := incarnation n + 1\<rparr>"

definition node_load ::
  "'id node_codec \<Rightarrow> file_system \<Rightarrow> string \<Rightarrow> 'url \<Rightarrow> 'url \<Rightarrow> panic + ('id, 'url) node_info option" where
  "node_load codec fs path data_url ctrl_url =
     (case persistent_load codec fs path of
        Inl e \<Rightarrow> Err LoadFailed
      | Inr info \<Rightarrow> Ok (map_option (\<lambda>i.
          \<lparr>node_id = p_node_id i, cluster_id = p_cluster_id i, advertise_data_url = data_url,
           advertise_ctrl_url = ctrl_url, incarnation = p_incarnation i\<rparr>) info))"

definition node_persist ::
  "'id node_codec \<Rightarrow> file_system \<Rightarrow> string \<Rightarrow> ('id, 'url) node_info \<Rightarrow> panic + file_system" where
  "node_persist codec fs path n =
     (let info = \<lparr>p_node_id = node_id n, p_cluster_id = cluster_id n, p_incarnation = incarnation n\<rparr> in
      case persistent_persist codec fs path info of
        Inl e \<Rightarrow> Err PersistFailed
      | Inr fs' \<Rightarrow> Ok fs')"

section \<open>Lemmas\<close>

text \<open>
  The only thing asked of \<open>serde_json\<close>: what it writes for a node file it reads back.
\<close>

definition codec_ok :: "'id node_codec \<Rightarrow> bool" where
  "codec_ok codec \<longleftrightarrow>
     (\<forall>info data. to_string_pretty codec info = Some data \<longrightarrow> from_str codec data = Some info)"

lemma node_advance_incarnation_fields [simp]:
  "node_id (node_advance_incarnation n) = node_id n"
  "cluster_id (node_advance_incarnation n) = cluster_id n"
  "advertise_data_url (node_advance_incarnation n) = advertise_data_url n"
  "advertise_ctrl_url (node_advance_incarnation n) = advertise_ctrl_url n"
  "incarnation (node_advance_incarnation n) = incarnation n + 1"
  by (simp_all add: node_advance_incarnation_def)

text \<open>What a successful \<open>persist\<close> leaves in the file.\<close>

definition node_file_holds :: "'id node_codec \<Rightarrow> file_system \<Rightarrow> string \<Rightarrow> ('id, 'url) node_info \<Rightarrow> bool" where
  "node_file_holds codec fs path n \<longleftrightarrow>
     Option.bind (files fs path) (from_str codec) = Some (persistent_from n)"

lemma node_persist_holds:
  "codec_ok codec \<Longrightarrow> node_persist codec fs path n = Inr fs' \<Longrightarrow> node_file_holds codec fs' path n"
  by (auto simp: node_persist_def persistent_persist_def fs_write_def codec_ok_def
      node_file_holds_def persistent_from_def split: option.splits if_splits sum.splits)

lemma node_persist_frame:
  "node_persist codec fs path n = Inr fs' \<Longrightarrow>
   readable fs' = readable fs \<and> writable fs' = writable fs \<and>
   (\<forall>p. p \<noteq> path \<longrightarrow> files fs' p = files fs p)"
  by (auto simp: node_persist_def persistent_persist_def fs_write_def
      split: option.splits if_splits sum.splits)

lemma node_load_holds:
  assumes "node_file_holds codec fs path n" "readable fs path"
  shows "node_load codec fs path du cu =
    Ok (Some (n\<lparr>advertise_data_url := du, advertise_ctrl_url := cu\<rparr>))"
proof (cases "files fs path")
  case None
  with assms show ?thesis by (simp add: node_file_holds_def)
next
  case (Some data)
  with assms show ?thesis
    by (cases n) (simp add: node_file_holds_def node_load_def persistent_load_def path_exists_def
        read_to_string_def persistent_from_def)
qed

section \<open>Properties\<close>

text \<open>
  A node that was persisted is loaded back with the same id, cluster and incarnation, under
  the urls of the restarted process.
\<close>
lemma node_persist_load_roundtrip:
  assumes "codec_ok codec" "readable fs path"
    and "node_persist codec fs path n = Inr fs'"
  shows "node_load codec fs' path du cu =
    Ok (Some (n\<lparr>advertise_data_url := du, advertise_ctrl_url := cu\<rparr>))"
proof (rule node_load_holds)
  show "node_file_holds codec fs' path n" using assms(1,3) by (rule node_persist_holds)
  show "readable fs' path" using node_persist_frame [OF assms(3)] assms(2) by simp
qed

text \<open>A concrete codec for witnesses: the cluster id is the file's text.\<close>

definition demo_codec :: "nat node_codec" where
  "demo_codec = \<lparr>to_string_pretty = (\<lambda>i. if p_node_id i = 1 \<and> p_incarnation i = 4 then Some (p_cluster_id i) else None),
     from_str = (\<lambda>d. Some \<lparr>p_node_id = 1, p_cluster_id = d, p_incarnation = 4\<rparr>)\<rparr>"

definition demo_fs :: file_system where
  "demo_fs = \<lparr>files = Map.empty, readable = (\<lambda>_. True), writable = (\<lambda>_. True)\<rparr>"

lemma demo_codec_ok: "codec_ok demo_codec"
  by (auto simp: codec_ok_def demo_codec_def split: if_splits)

lemma node_persist_load_roundtrip_witness:
  "node_load demo_codec (demo_fs\<lparr>files := [''n'' \<mapsto> ''c'']\<rparr>) ''n'' ''du'' ''cu'' =
   Ok (Some \<lparr>node_id = 1, cluster_id = ''c'', advertise_data_url = ''du'',
     advertise_ctrl_url = ''cu'', incarnation = 4\<rparr>)"
proof -
  let ?n = "\<lparr>node_id = 1, cluster_id = ''c'', advertise_data_url = ''a'',
     advertise_ctrl_url = ''b'', incarnation = 4\<rparr> :: (nat, string) node_info"
  have "node_persist demo_codec demo_fs ''n'' ?n = Inr (demo_fs\<lparr>files := [''n'' \<mapsto> ''c'']\<rparr>)"
    by (simp add: node_persist_def persistent_persist_def demo_codec_def demo_fs_def fs_write_def)
  from node_persist_load_roundtrip [OF demo_codec_ok _ this, of "''du''" "''cu''"]
  show ?thesis by (simp add: demo_fs_def)
qed

end
