(* ===== verification/Member.thy ===== *)
theory Member
  imports BTree Node
begin

text \<open>
  \<open>crates/gossip/src/member.rs\<close>: member states and the membership table with its merge rule.
  A timestamp is the number of nanoseconds since the Unix epoch. After the definitions, the
  interface \<open>versioned_table\<close> states what the gossip protocol needs of the merge: other entries
  are untouched and the version \<open>(incarnation, heartbeat)\<close> of the merged entry becomes the
  maximum of the two versions. Convergence of versions, monotonicity and independence of the
  order of delivery follow from these laws alone; the table is an interpretation of them.
\<close>

type_synonym timestamp = int

datatype member_status = Alive | Dead

fun downgrade_to :: "member_status \<Rightarrow> member_status \<Rightarrow> member_status" where
  "downgrade_to Alive Alive = Alive"
| "downgrade_to _ other = other"

record ('id, 'url) member_state =
  info :: "('id, 'url) node_info"
  status :: member_status
  heartbeat :: timestamp

record ('id, 'url) membership =
  members :: "('id, ('id, 'url) member_state) btree_map"

definition membership_default :: "('id::linorder, 'url) membership" where
  "membership_default = \<lparr>members = bt_new\<rparr>"

definition is_dead :: "('id::linorder, 'url) membership \<Rightarrow> 'id \<Rightarrow> bool" where
  "is_dead m i = (case bt_get (members m) i of None \<Rightarrow> False | Some member \<Rightarrow> status member = Dead)"

definition update_member ::
  "('id::linorder, 'url) membership \<Rightarrow> ('id, 'url) member_state \<Rightarrow> ('id, 'url) membership \<times> bool" where
  "update_member m member =
     (let k = node_id (info member) in
      case bt_get (members m) k of
        Some current \<Rightarrow>
          if incarnation (info current) < incarnation (info member) then
            (m\<lparr>members := bt_insert k member (members m)\<rparr>, True)
          else if incarnation (info current) > incarnation (info member) then
            (m, False)
          else
            let prev_status = status current;
                prev_heartbeat = heartbeat current;
                current = current\<lparr>heartbeat := max (heartbeat current) (heartbeat member)\<rparr>;
                current =
                  (if heartbeat member \<ge> prev_heartbeat \<and> status member \<noteq> status current
                   then current\<lparr>status := status member\<rparr>
                   else current\<lparr>status := downgrade_to (status current) (status member)\<rparr>)
            in (m\<lparr>members := bt_insert k current (members m)\<rparr>,
                status current \<noteq> prev_status \<or> heartbeat current \<noteq> prev_heartbeat)
      | None \<Rightarrow> (m\<lparr>members := bt_insert k member (members m)\<rparr>, True))"

definition remove_member :: "'id \<Rightarrow> ('id::linorder, 'url) membership \<Rightarrow> ('id, 'url) membership" where
  "remove_member i m = m\<lparr>members := bt_remove i (members m)\<rparr>"

text \<open>The table after an update, without the flag; the gossip handlers ignore the flag.\<close>

definition merge_member ::
  "('id, 'url) member_state \<Rightarrow> ('id::linorder, 'url) membership \<Rightarrow> ('id, 'url) membership" where
  "merge_member member m = fst (update_member m member)"

definition membership_from_iter ::
  "('id::linorder, 'url) member_state list \<Rightarrow> ('id, 'url) membership" where
  "membership_from_iter iter = fold merge_member iter membership_default"

section \<open>Invariant, versions and the interface\<close>

definition membership_wf :: "('id::linorder, 'url) membership \<Rightarrow> bool" where
  "membership_wf m \<longleftrightarrow> list_all (\<lambda>(k, s). node_id (info s) = k) (bt_entries (members m))"

definition version :: "('id, 'url) member_state \<Rightarrow> u64 \<times> timestamp" where
  "version s = (incarnation (info s), heartbeat s)"

abbreviation member_of :: "('id::linorder, 'url) membership \<Rightarrow> 'id \<Rightarrow> ('id, 'url) member_state option" where
  "member_of m i \<equiv> bt_get (members m) i"

locale versioned_table =
  fixes get :: "'m \<Rightarrow> 'k \<Rightarrow> 's option"
    and merge :: "'s \<Rightarrow> 'm \<Rightarrow> 'm"
    and key :: "'s \<Rightarrow> 'k"
    and ver :: "'s \<Rightarrow> 'v::linorder"
  assumes merge_other: "k \<noteq> key s \<Longrightarrow> get (merge s m) k = get m k"
    and merge_ver: "map_option ver (get (merge s m) (key s)) =
      Some (case get m (key s) of None \<Rightarrow> ver s | Some c \<Rightarrow> max (ver c) (ver s))"
begin

lemma merge_present: "get (merge s m) k = None \<longleftrightarrow> k \<noteq> key s \<and> get m k = None"
  using merge_ver [of s m] merge_other [of k s m] by (cases "k = key s") auto

lemma merge_mono:
  assumes "get m k = Some c"
  shows "\<exists>c'. get (merge s m) k = Some c' \<and> ver c \<le> ver c'"
  using assms merge_ver [of s m] merge_other [of k s m] by (cases "k = key s") auto

lemma fold_merge_mono:
  "get m k = Some c \<Longrightarrow> \<exists>c'. get (fold merge ss m) k = Some c' \<and> ver c \<le> ver c'"
proof (induction ss arbitrary: m c)
  case Nil
  then show ?case by simp
next
  case (Cons s ss)
  obtain c1 where "get (merge s m) k = Some c1" "ver c \<le> ver c1"
    using merge_mono [OF Cons.prems, of s] by blast
  with Cons.IH [of "merge s m" c1] show ?case by fastforce
qed

text \<open>The versions a table has seen for a key: the stored one and those of the delivered states.\<close>

lemma fold_merge_ver:
  "map_option ver (get (fold merge ss m) k) =
   (let V = ver ` {s \<in> set ss. key s = k} \<union> set_option (map_option ver (get m k))
    in if V = {} then None else Some (Max V))"
proof (induction ss arbitrary: m)
  case Nil
  then show ?case by (cases "get m k") auto
next
  case (Cons s ss)
  let ?V = "\<lambda>m ss. ver ` {s \<in> set ss. key s = k} \<union> set_option (map_option ver (get m k))"
  show ?case
  proof (cases "key s = k")
    case False
    then have "{x \<in> set (s # ss). key x = k} = {x \<in> set ss. key x = k}" by auto
    with False Cons [of "merge s m"] show ?thesis by (simp add: merge_other)
  next
    case True
    define w where "w = (case get m k of None \<Rightarrow> ver s | Some c \<Rightarrow> max (ver c) (ver s))"
    have w: "map_option ver (get (merge s m) k) = Some w"
      using merge_ver [of s m] True by (simp add: w_def)
    define S where "S = ver ` {x \<in> set ss. key x = k}"
    have "finite S" by (simp add: S_def)
    have V: "?V (merge s m) ss = insert w S"
      using w by (auto simp: S_def)
    have V': "?V m (s # ss) = insert (ver s) (S \<union> set_option (map_option ver (get m k)))"
      using True by (auto simp: S_def)
    have "Max (?V (merge s m) ss) = Max (?V m (s # ss))"
      unfolding V V' w_def using \<open>finite S\<close>
      by (cases "get m k"; cases "S = {}") (simp_all add: max.commute max.left_commute)
    moreover have "?V (merge s m) ss \<noteq> {}" "?V m (s # ss) \<noteq> {}"
      unfolding V V' by simp_all
    ultimately show ?thesis
      using Cons [of "merge s m"] by (simp add: Let_def)
  qed
qed

lemma fold_merge_converge:
  assumes "set ss = set ss'" "\<And>k. map_option ver (get m k) = map_option ver (get m' k)"
  shows "map_option ver (get (fold merge ss m) k) = map_option ver (get (fold merge ss' m') k)"
  unfolding fold_merge_ver assms by simp

end

section \<open>Lemmas\<close>

lemma downgrade_to_eq: "downgrade_to a b = b"
  by (cases a; cases b) auto

text \<open>What \<open>update_member\<close> stores, branch by branch.\<close>

definition merged :: "('id, 'url) member_state option \<Rightarrow> ('id, 'url) member_state \<Rightarrow> ('id, 'url) member_state" where
  "merged cur s =
     (case cur of
        None \<Rightarrow> s
      | Some c \<Rightarrow>
          if incarnation (info c) < incarnation (info s) then s
          else if incarnation (info c) > incarnation (info s) then c
          else c\<lparr>heartbeat := max (heartbeat c) (heartbeat s), status := status s\<rparr>)"

lemma update_member_members:
  "members (fst (update_member m s)) =
   bt_insert (node_id (info s)) (merged (member_of m (node_id (info s))) s) (members m)"
proof (cases "member_of m (node_id (info s))")
  case None
  then show ?thesis by (simp add: update_member_def merged_def Let_def)
next
  case (Some c)
  have "bt_insert (node_id (info s)) c (members m) = members m"
    using Some by (simp add: bt.insert_same_iff)
  with Some show ?thesis
    by (auto simp: update_member_def merged_def Let_def downgrade_to_eq)
qed

lemma membership_eqI: "members m = members m' \<Longrightarrow> m = (m' :: ('id::linorder, 'url) membership)"
  by simp

lemma member_of_merge [member_simps]:
  "member_of (merge_member s m) k =
   (if k = node_id (info s) then Some (merged (member_of m k) s) else member_of m k)"
  by (simp add: merge_member_def update_member_members)

lemma version_merged:
  "version (merged cur s) = (case cur of None \<Rightarrow> version s | Some c \<Rightarrow> max (version c) (version s))"
  by (auto simp: merged_def version_def max_def split: option.split)

lemma node_id_merged:
  "cur = None \<or> node_id (info (the cur)) = node_id (info s) \<Longrightarrow>
   node_id (info (merged cur s)) = node_id (info s)"
  by (cases cur) (simp_all add: merged_def)

interpretation mt: versioned_table "\<lambda>m. bt_get (members m)" merge_member "\<lambda>s. node_id (info s)" version
  by unfold_locales (simp_all add: member_of_merge version_merged)

lemma membership_wf_iff: "membership_wf m \<longleftrightarrow> (\<forall>k s. member_of m k = Some s \<longrightarrow> node_id (info s) = k)"
  by (force simp: membership_wf_def list_all_iff bt.mem_entries_iff [symmetric])

lemma membership_wf_default [simp]: "membership_wf membership_default"
  by (simp add: membership_wf_iff membership_default_def)

lemma member_of_default [simp]: "member_of membership_default k = None"
  by (simp add: membership_default_def)

lemma membership_wf_merge: "membership_wf m \<Longrightarrow> membership_wf (merge_member s m)"
  unfolding membership_wf_iff member_of_merge
  by (auto intro!: node_id_merged split: if_splits) (metis option.exhaust_sel)

lemma membership_wf_fold_merge: "membership_wf m \<Longrightarrow> membership_wf (fold merge_member ss m)"
  by (induction ss arbitrary: m) (auto simp: membership_wf_merge)

lemma member_of_remove [member_simps]:
  "member_of (remove_member i m) k = (if k = i then None else member_of m k)"
  by (simp add: remove_member_def)

lemma membership_wf_remove: "membership_wf m \<Longrightarrow> membership_wf (remove_member i m)"
  by (auto simp: membership_wf_iff member_of_remove split: if_splits)

lemma status_merged_equal_incarnation:
  "cur = Some c \<Longrightarrow> incarnation (info c) = incarnation (info s) \<Longrightarrow> status (merged cur s) = status s"
  by (simp add: merged_def)

lemma update_member_flag:
  "snd (update_member m s) \<longleftrightarrow> member_of m (node_id (info s)) \<noteq> Some (merged (member_of m (node_id (info s))) s)"
proof (cases "member_of m (node_id (info s))")
  case None
  then show ?thesis by (simp add: update_member_def Let_def)
next
  case (Some c)
  then show ?thesis
    by (cases c; cases s) (auto simp: update_member_def merged_def Let_def downgrade_to_eq)
qed

lemma merged_idem: "merged (Some (merged cur s)) s = merged cur s"
  by (cases cur) (auto simp: merged_def)

lemma update_member_table: "fst (update_member m s) = merge_member s m"
  by (simp add: merge_member_def)

section \<open>Properties\<close>

text \<open>
  \<open>update_member\<close> on every branch. A new id is added; a higher incarnation replaces the entry; a
  lower one is ignored; at the same incarnation the entry keeps its node information, takes the
  later heartbeat and the incoming status. No other entry changes.
\<close>
lemma update_member_functional:
  "member_of (fst (update_member m s)) k =
   (if k \<noteq> node_id (info s) then member_of m k
    else case member_of m k of
      None \<Rightarrow> Some s
    | Some c \<Rightarrow>
        if incarnation (info c) < incarnation (info s) then Some s
        else if incarnation (info s) < incarnation (info c) then Some c
        else Some (c\<lparr>heartbeat := max (heartbeat c) (heartbeat s), status := status s\<rparr>))"
  by (simp add: update_member_members merged_def split: option.split)

text \<open>
  The flag \<open>update_member\<close> returns is exact, as its comment promises: it is \<open>true\<close> exactly when
  the membership map was modified.
\<close>
lemma update_member_flag_exact:
  "snd (update_member m s) \<longleftrightarrow> fst (update_member m s) \<noteq> m"
proof -
  have "fst (update_member m s) = m \<longleftrightarrow> members (fst (update_member m s)) = members m"
    by (cases m) (auto intro: membership_eqI)
  then show ?thesis
    by (simp add: update_member_flag update_member_members bt.insert_same_iff)
qed

text \<open>
  Receiving the same report twice changes nothing the second time, and the second call says so.
\<close>
lemma update_member_idempotent:
  "update_member (fst (update_member m s)) s = (fst (update_member m s), False)"
proof -
  let ?m = "fst (update_member m s)"
  have cur: "member_of ?m (node_id (info s)) = Some (merged (member_of m (node_id (info s))) s)"
    by (simp add: update_member_members)
  have "members (fst (update_member ?m s)) = members ?m"
    using cur by (simp add: update_member_members merged_idem bt.insert_same_iff)
  then have "fst (update_member ?m s) = ?m" by simp
  moreover have "\<not> snd (update_member ?m s)"
    using cur by (simp add: update_member_flag merged_idem)
  ultimately show ?thesis by (simp add: prod_eq_iff)
qed

text \<open>
  No update makes the table forget: a known member stays known, under the same key, and its
  version \<open>(incarnation, heartbeat)\<close> never decreases in the lexicographic order.
\<close>
lemma update_member_monotone:
  assumes "member_of m k = Some c"
  shows "\<exists>c'. member_of (fst (update_member m s)) k = Some c' \<and> version c \<le> version c'"
  using mt.merge_mono [OF assms] by (simp add: update_member_table)

definition demo_member :: "u64 \<Rightarrow> member_status \<Rightarrow> timestamp \<Rightarrow> (nat, string) member_state" where
  "demo_member inc st hb =
     \<lparr>info = \<lparr>node_id = 1, cluster_id = ''c'', advertise_data_url = ''http://a:1'',
        advertise_ctrl_url = ''http://a:2'', incarnation = inc\<rparr>, status = st, heartbeat = hb\<rparr>"

lemmas demo_simps = demo_member_def membership_from_iter_def membership_default_def

lemma update_member_monotone_witness:
  "\<exists>c'. member_of (fst (update_member (membership_from_iter [demo_member 2 Alive 10]) (demo_member 3 Dead 5))) 1
      = Some c' \<and> version (demo_member 2 Alive 10) \<le> version c'"
  by (rule update_member_monotone) (simp add: demo_simps member_simps merged_def)

text \<open>
  The keys of the table are the ids of the members stored under them, after any sequence of
  updates and removals.
\<close>
lemma membership_ops_wf:
  assumes "membership_wf m"
  shows "membership_wf (fst (update_member m s)) \<and> membership_wf (remove_member i m) \<and>
    membership_wf (membership_from_iter ss)"
  using assms
  by (simp add: update_member_table membership_wf_merge membership_wf_remove
      membership_from_iter_def membership_wf_fold_merge)

lemma membership_ops_wf_witness:
  "membership_wf (fst (update_member membership_default (demo_member 2 Alive 10))) \<and>
   membership_wf (remove_member 1 (membership_default :: (nat, string) membership)) \<and>
   membership_wf (membership_from_iter [demo_member 2 Alive 10, demo_member 2 Dead 11])"
  by (rule membership_ops_wf) simp

text \<open>
  C12: the versions a table ends up with do not depend on the order or the repetition of the reports
  it merges: for each id the stored version is the greatest version reported for it. Replicas that
  have received the same reports therefore agree on every incarnation and every heartbeat.
\<close>
theorem membership_versions_converge:
  "map_option version (member_of (membership_from_iter ss) k) =
   (if {s \<in> set ss. node_id (info s) = k} = {} then None
    else Some (Max (version ` {s \<in> set ss. node_id (info s) = k})))"
  unfolding membership_from_iter_def
  using mt.fold_merge_ver [of ss membership_default k] by (simp add: Let_def)

text \<open>
  At equal incarnations the incoming status always wins, however old its heartbeat: a stale
  \<open>Dead\<close> report overrides a fresher \<open>Alive\<close> one and a stale \<open>Alive\<close> report revives a member that
  was observed dead later. The branch guarded by the heartbeat comparison and the branch that calls
  \<open>downgrade_to\<close> have the same effect.
\<close>
lemma stale_status_wins:
  assumes "member_of m (node_id (info s)) = Some c" and "incarnation (info c) = incarnation (info s)"
    and "heartbeat s < heartbeat c"
  shows "map_option status (member_of (fst (update_member m s)) (node_id (info s))) = Some (status s)"
  using assms by (simp add: update_member_members merged_def)

lemma stale_status_wins_witness:
  "map_option status (member_of (fst (update_member
      (membership_from_iter [demo_member 0 Alive 100]) (demo_member 0 Dead 1))) 1) = Some Dead"
  using stale_status_wins [of "membership_from_iter [demo_member 0 Alive 100]" "demo_member 0 Dead 1"
      "demo_member 0 Alive 100"]
  by (simp add: demo_simps member_simps merged_def)


end
