(* ===== verification/Gossip.thy ===== *)
theory Gossip
  imports Ring Member
begin

text \<open>
  \<open>crates/gossip/src/gossip.rs\<close>: the gossip state and its handlers. Every \<open>ArcSwap\<close> cell is a field
  of the state and every handler is a function from state to state; a segment of a task between
  two \<open>await\<close> points is one function, since the gossip runtime has a single worker thread (\<open>Workers\<close>
  justifies this, and shows what other threads can do). What
  comes from outside is an argument: the clock readings, the peers' replies, the random index,
  \<open>reqwest\<close> as a function from url and message to response, \<open>backon\<close>'s retry combinator, \<open>mur3\<close>,
  \<open>serde_json\<close> and the greatest timestamp of \<open>jiff\<close>. Logging has no effect on the state and is
  left out. A handler returns the state it leaves behind even when it panics, because the cells
  outlive the task.
\<close>

section \<open>Constants and messages\<close>

abbreviation seconds :: "int \<Rightarrow> int" where
  "seconds n \<equiv> n * 1000000000"

definition DEFAULT_PING_INTERVAL :: int where "DEFAULT_PING_INTERVAL = seconds 1"
definition DEFAULT_SYNC_INTERVAL :: int where "DEFAULT_SYNC_INTERVAL = seconds 5"
definition DEFAULT_RETRY_INTERVAL :: int where "DEFAULT_RETRY_INTERVAL = seconds 1"
definition DEFAULT_RETRIES :: nat where "DEFAULT_RETRIES = 3"
definition DEFAULT_REBUILD_RING_INTERVAL :: int where "DEFAULT_REBUILD_RING_INTERVAL = seconds 5"
definition DEFAULT_MEMBER_DEADLINE :: int where "DEFAULT_MEMBER_DEADLINE = seconds 30"

datatype ('id, 'url) gossip_message =
    Ping "('id, 'url) node_info"
  | Ack "('id, 'url) node_info"
  | Sync "('id, 'url) member_state list"

datatype gossip_error = GossipError string

text \<open>An HTTP response as \<open>Transport::send\<close> reads it: its status and its decoded body.\<close>

record ('id, 'url) gossip_response =
  resp_status :: nat
  resp_json :: "('id, 'url) gossip_message option"

text \<open>The third-party functions the gossip code calls.\<close>

record ('id, 'url) gossip_ext =
  ext_mur3 :: "bytes \<Rightarrow> u32 \<Rightarrow> u32"
  ext_as_ref :: "'id \<Rightarrow> bytes"
  ext_codec :: "'id node_codec"
  ext_join :: "'url \<Rightarrow> string \<Rightarrow> 'url option"
  ext_retry :: "nat \<Rightarrow> (nat \<Rightarrow> gossip_error + ('id, 'url) gossip_message) \<Rightarrow>
    gossip_error + ('id, 'url) gossip_message"
  ext_ts_max :: timestamp

type_synonym ('id, 'url) network =
  "nat \<Rightarrow> 'url \<Rightarrow> ('id, 'url) gossip_message \<Rightarrow> ('id, 'url) gossip_response option"

section \<open>State\<close>

record ('id, 'url) gossip_state =
  dir :: string
  initial_peers :: "'url list"
  current_node :: "('id, 'url) node_info"
  membership_cell :: "('id, 'url) membership"
  ring_cell :: "'id hash_ring"

definition gossip_new ::
  "('id::linorder, 'url) node_info \<Rightarrow> 'url list \<Rightarrow> string \<Rightarrow> ('id, 'url) gossip_state" where
  "gossip_new node peers d =
     \<lparr>dir = d, initial_peers = peers, current_node = node,
      membership_cell = membership_default, ring_cell = ring_default\<rparr>"

text \<open>\<open>MemberState { info, status: Alive, heartbeat: Timestamp::now() }\<close>\<close>

definition alive_now :: "timestamp \<Rightarrow> ('id, 'url) node_info \<Rightarrow> ('id, 'url) member_state" where
  "alive_now now i = \<lparr>info = i, status = Alive, heartbeat = now\<rparr>"

section \<open>Handlers\<close>

definition advance_incarnation ::
  "('id, 'url) gossip_ext \<Rightarrow> ('id::linorder, 'url) gossip_state \<Rightarrow> file_system \<Rightarrow>
   ('id, 'url) gossip_state \<times> file_system \<times> (panic + unit)" where
  "advance_incarnation ext s fs =
     (let current = node_advance_incarnation (current_node s) in
      case node_persist (ext_codec ext) fs (node_file_path (dir s)) current of
        Inl p \<Rightarrow> (s, fs, Err p)
      | Inr fs' \<Rightarrow> (s\<lparr>current_node := current\<rparr>, fs', Ok ()))"

fun apply_message ::
  "timestamp \<Rightarrow> ('id::linorder, 'url) gossip_state \<Rightarrow> ('id, 'url) gossip_message \<Rightarrow>
   ('id, 'url) gossip_state \<times> ('id, 'url) gossip_message option" where
  "apply_message now s (Ping i) =
     (s\<lparr>membership_cell := merge_member (alive_now now i) (membership_cell s)\<rparr>,
      Some (Ack (current_node s)))"
| "apply_message now s (Ack i) =
     (s\<lparr>membership_cell := merge_member (alive_now now i) (membership_cell s)\<rparr>, None)"
| "apply_message now s (Sync ms) =
     (let m = fold merge_member ms (membership_cell s);
          m' = merge_member (alive_now now (current_node s)) m
      in (s\<lparr>membership_cell := m'\<rparr>, Some (Sync (bt_values (members m')))))"

definition handle_message ::
  "('id, 'url) gossip_ext \<Rightarrow> timestamp \<Rightarrow> ('id::linorder, 'url) gossip_state \<Rightarrow> file_system \<Rightarrow>
   ('id, 'url) gossip_message \<Rightarrow>
   ('id, 'url) gossip_state \<times> file_system \<times> (panic + ('id, 'url) gossip_message option)" where
  "handle_message ext now s fs msg =
     (let (s1, result) = apply_message now s msg in
      if is_dead (membership_cell s1) (node_id (current_node s1)) then
        (case advance_incarnation ext s1 fs of
           (s2, fs', Inl p) \<Rightarrow> (s2, fs', Err p)
         | (s2, fs', Inr _) \<Rightarrow> (s2, fs', Ok result))
      else (s1, fs, Ok result))"

text \<open>
  \<open>member.heartbeat + DEFAULT_MEMBER_DEADLINE < Timestamp::now()\<close>: the sum panics beyond the
  greatest timestamp, the clock is read once per dead member.
\<close>

fun collect_dead ::
  "timestamp \<Rightarrow> ('id \<Rightarrow> timestamp) \<Rightarrow> ('id \<times> ('id, 'url) member_state) list \<Rightarrow>
   panic + ('id, 'url) node_info list" where
  "collect_dead ts_max now [] = Ok []"
| "collect_dead ts_max now ((k, member) # rest) =
     (if status member = Dead then
        (if heartbeat member + DEFAULT_MEMBER_DEADLINE > ts_max then Err TimestampOverflow
         else if heartbeat member + DEFAULT_MEMBER_DEADLINE < now k then
           map_sum id (\<lambda>ds. info member # ds) (collect_dead ts_max now rest)
         else collect_dead ts_max now rest)
      else collect_dead ts_max now rest)"

definition remove_dead_members ::
  "('id, 'url) gossip_ext \<Rightarrow> ('id \<Rightarrow> timestamp) \<Rightarrow> ('id::linorder, 'url) gossip_state \<Rightarrow>
   ('id, 'url) gossip_state \<times> (panic + ('id, 'url) node_info list)" where
  "remove_dead_members ext now s =
     (case collect_dead (ext_ts_max ext) now (bt_entries (members (membership_cell s))) of
        Inl p \<Rightarrow> (s, Err p)
      | Inr dead_members \<Rightarrow>
          (s\<lparr>membership_cell := fold (\<lambda>d. remove_member (node_id d)) dead_members (membership_cell s)\<rparr>,
           Ok dead_members))"

definition rebuild_ring ::
  "('id, 'url) gossip_ext \<Rightarrow> timestamp \<Rightarrow> ('id::linorder, 'url) gossip_state \<Rightarrow> ('id, 'url) gossip_state" where
  "rebuild_ring ext now s =
     (let membership = merge_member (alive_now now (current_node s)) (membership_cell s) in
      s\<lparr>ring_cell := ring_from (ext_mur3 ext) (ext_as_ref ext) (bt_keys (members membership))\<rparr>)"

definition mark_dead ::
  "('id, 'url) node_info \<Rightarrow> ('id::linorder, 'url) gossip_state \<Rightarrow> ('id, 'url) gossip_state" where
  "mark_dead peer s =
     (case member_of (membership_cell s) (node_id peer) of
        None \<Rightarrow> s
      | Some m \<Rightarrow>
          s\<lparr>membership_cell :=
             merge_member \<lparr>info = peer, status = Dead, heartbeat = heartbeat m\<rparr> (membership_cell s)\<rparr>)"

section \<open>Transport and exchanges with a peer\<close>

definition transport_send ::
  "('id, 'url) gossip_ext \<Rightarrow> ('url \<Rightarrow> ('id, 'url) gossip_message \<Rightarrow> ('id, 'url) gossip_response option) \<Rightarrow>
   'url \<Rightarrow> ('id, 'url) gossip_message \<Rightarrow> gossip_error + ('id, 'url) gossip_message" where
  "transport_send ext post url message =
     (let make_error = GossipError ''failed to send message'' in
      case ext_join ext url ''gossip'' of
        None \<Rightarrow> Err make_error
      | Some url' \<Rightarrow>
          (case post url' message of
             None \<Rightarrow> Err make_error
           | Some resp \<Rightarrow>
               if 200 \<le> resp_status resp \<and> resp_status resp < 300 then
                 (case resp_json resp of None \<Rightarrow> Err make_error | Some m \<Rightarrow> Ok m)
               else Err make_error))"

definition send_with_retry ::
  "('id, 'url) gossip_ext \<Rightarrow> ('id, 'url) network \<Rightarrow> 'url \<Rightarrow> ('id, 'url) gossip_message \<Rightarrow>
   gossip_error + ('id, 'url) gossip_message" where
  "send_with_retry ext net url message =
     ext_retry ext DEFAULT_RETRIES (\<lambda>attempt. transport_send ext (net attempt) url message)"

abbreviation ignore_reply ::
  "'s \<times> 'f \<times> (panic + 'r) \<Rightarrow> 's \<times> 'f \<times> (panic + unit)" where
  "ignore_reply r \<equiv> (fst r, fst (snd r), map_sum id (\<lambda>_. ()) (snd (snd r)))"

text \<open>What a task does with the outcome of its exchange, on the state it finds after the wait.\<close>

definition ping_done ::
  "('id, 'url) gossip_ext \<Rightarrow> timestamp \<Rightarrow> ('id, 'url) node_info \<Rightarrow>
   gossip_error + ('id, 'url) gossip_message \<Rightarrow> ('id::linorder, 'url) gossip_state \<Rightarrow> file_system \<Rightarrow>
   ('id, 'url) gossip_state \<times> file_system \<times> (panic + unit)" where
  "ping_done ext now peer outcome s fs =
     (case outcome of
        Inr (Ack i) \<Rightarrow> ignore_reply (handle_message ext now s fs (Ack i))
      | _ \<Rightarrow> (mark_dead peer s, fs, Ok ()))"

definition sync_done ::
  "('id, 'url) gossip_ext \<Rightarrow> timestamp \<Rightarrow> ('id, 'url) node_info \<Rightarrow>
   gossip_error + ('id, 'url) gossip_message \<Rightarrow> ('id::linorder, 'url) gossip_state \<Rightarrow> file_system \<Rightarrow>
   ('id, 'url) gossip_state \<times> file_system \<times> (panic + unit)" where
  "sync_done ext now peer outcome s fs =
     (case outcome of
        Inr (Sync ms) \<Rightarrow> ignore_reply (handle_message ext now s fs (Sync ms))
      | _ \<Rightarrow> (mark_dead peer s, fs, Ok ()))"

definition ping ::
  "('id, 'url) gossip_ext \<Rightarrow> ('id, 'url) network \<Rightarrow> timestamp \<Rightarrow> ('id, 'url) node_info \<Rightarrow>
   ('id::linorder, 'url) gossip_state \<Rightarrow> file_system \<Rightarrow>
   ('id, 'url) gossip_state \<times> file_system \<times> (panic + unit)" where
  "ping ext net now peer s fs =
     (let message = Ping (current_node s) in
      ping_done ext now peer (send_with_retry ext net (advertise_ctrl_url peer) message) s fs)"

definition sync ::
  "('id, 'url) gossip_ext \<Rightarrow> ('id, 'url) network \<Rightarrow> timestamp \<Rightarrow> ('id, 'url) node_info \<Rightarrow>
   ('id::linorder, 'url) gossip_state \<Rightarrow> file_system \<Rightarrow>
   ('id, 'url) gossip_state \<times> file_system \<times> (panic + unit)" where
  "sync ext net now peer s fs =
     (let message = Sync (bt_values (members (membership_cell s))) in
      sync_done ext now peer (send_with_retry ext net (advertise_ctrl_url peer) message) s fs)"

text \<open>The loops of \<open>fast_bootstrap\<close> ignore failures and wrong replies of a peer.\<close>

definition bootstrap_ping_done ::
  "('id, 'url) gossip_ext \<Rightarrow> timestamp \<Rightarrow> gossip_error + ('id, 'url) gossip_message \<Rightarrow>
   ('id::linorder, 'url) gossip_state \<Rightarrow> file_system \<Rightarrow>
   ('id, 'url) gossip_state \<times> file_system \<times> (panic + unit)" where
  "bootstrap_ping_done ext now outcome s fs =
     (case outcome of
        Inr (Ack i) \<Rightarrow> ignore_reply (handle_message ext now s fs (Ack i))
      | _ \<Rightarrow> (s, fs, Ok ()))"

definition bootstrap_sync_done ::
  "('id, 'url) gossip_ext \<Rightarrow> timestamp \<Rightarrow> gossip_error + ('id, 'url) gossip_message \<Rightarrow>
   ('id::linorder, 'url) gossip_state \<Rightarrow> file_system \<Rightarrow>
   ('id, 'url) gossip_state \<times> file_system \<times> (panic + unit)" where
  "bootstrap_sync_done ext now outcome s fs =
     (case outcome of
        Inr (Sync ms) \<Rightarrow> ignore_reply (handle_message ext now s fs (Sync ms))
      | _ \<Rightarrow> (s, fs, Ok ()))"

text \<open>
  \<open>for peer in &self.initial_peers\<close>: one exchange per peer, in order, until a handler panics. The
  number of the exchange selects its network and its clock reading.
\<close>

fun for_peers ::
  "(nat \<Rightarrow> 'url \<Rightarrow> 's \<Rightarrow> file_system \<Rightarrow> 's \<times> file_system \<times> (panic + unit)) \<Rightarrow> nat \<Rightarrow> 'url list \<Rightarrow>
   's \<Rightarrow> file_system \<Rightarrow> 's \<times> file_system \<times> (panic + unit)" where
  "for_peers body k [] s fs = (s, fs, Ok ())"
| "for_peers body k (peer # peers) s fs =
     (case body k peer s fs of
        (s', fs', Inl p) \<Rightarrow> (s', fs', Err p)
      | (s', fs', Inr _) \<Rightarrow> for_peers body (Suc k) peers s' fs')"

definition bootstrap_ping ::
  "('id, 'url) gossip_ext \<Rightarrow> ('id, 'url) network \<Rightarrow> timestamp \<Rightarrow> 'url \<Rightarrow>
   ('id::linorder, 'url) gossip_state \<Rightarrow> file_system \<Rightarrow>
   ('id, 'url) gossip_state \<times> file_system \<times> (panic + unit)" where
  "bootstrap_ping ext net now peer s fs =
     (let message = Ping (current_node s) in
      bootstrap_ping_done ext now (send_with_retry ext net peer message) s fs)"

definition bootstrap_sync ::
  "('id, 'url) gossip_ext \<Rightarrow> ('id, 'url) network \<Rightarrow> timestamp \<Rightarrow> 'url \<Rightarrow>
   ('id::linorder, 'url) gossip_state \<Rightarrow> file_system \<Rightarrow>
   ('id, 'url) gossip_state \<times> file_system \<times> (panic + unit)" where
  "bootstrap_sync ext net now peer s fs =
     (let message = Sync (bt_values (members (membership_cell s))) in
      bootstrap_sync_done ext now (send_with_retry ext net peer message) s fs)"

definition fast_bootstrap ::
  "('id, 'url) gossip_ext \<Rightarrow> (nat \<Rightarrow> ('id, 'url) network) \<Rightarrow> (nat \<Rightarrow> timestamp) \<Rightarrow>
   ('id::linorder, 'url) gossip_state \<Rightarrow> file_system \<Rightarrow>
   ('id, 'url) gossip_state \<times> file_system \<times> (panic + unit)" where
  "fast_bootstrap ext net now s fs =
     (let n = length (initial_peers s) in
      case for_peers (\<lambda>k. bootstrap_ping ext (net k) (now k)) 0 (initial_peers s) s fs of
        (s1, fs1, Inl p) \<Rightarrow> (s1, fs1, Err p)
      | (s1, fs1, Inr _) \<Rightarrow>
          (case for_peers (\<lambda>k. bootstrap_sync ext (net k) (now k)) n (initial_peers s1) s1 fs1 of
             (s2, fs2, Inl p) \<Rightarrow> (s2, fs2, Err p)
           | (s2, fs2, Inr _) \<Rightarrow> (rebuild_ring ext (now (2 * n)) s2, fs2, Ok ())))"

section \<open>The tasks of \<open>start\<close>\<close>

text \<open>
  \<open>membership.members().iter().nth(rng.random_range(0..len))\<close>, the same in the ping and in the
  anti-entropy loop. \<open>rng\<close> is \<open>random_range\<close> on a range given by its length.
\<close>

datatype ('id, 'url) tick_action =
    SkipDead
  | Contact "('id, 'url) node_info"
  | Bootstrap

definition choose_member ::
  "(nat \<Rightarrow> panic + nat) \<Rightarrow> ('id::linorder, 'url) gossip_state \<Rightarrow> panic + ('id, 'url) tick_action" where
  "choose_member rng s =
     (let ms = bt_entries (members (membership_cell s)) in
      case rng (length ms) of
        Inl p \<Rightarrow> Err p
      | Inr i \<Rightarrow>
          if i < length ms then
            (let member = snd (ms ! i) in
             if status member = Dead then Ok SkipDead else Ok (Contact (info member)))
          else Ok Bootstrap)"

definition ping_tick ::
  "('id, 'url) gossip_ext \<Rightarrow> (nat \<Rightarrow> panic + nat) \<Rightarrow> (nat \<Rightarrow> ('id, 'url) network) \<Rightarrow> (nat \<Rightarrow> timestamp) \<Rightarrow>
   ('id::linorder, 'url) gossip_state \<Rightarrow> file_system \<Rightarrow>
   ('id, 'url) gossip_state \<times> file_system \<times> (panic + unit)" where
  "ping_tick ext rng net now s fs =
     (case choose_member rng s of
        Inl p \<Rightarrow> (s, fs, Err p)
      | Inr SkipDead \<Rightarrow> (s, fs, Ok ())
      | Inr (Contact i) \<Rightarrow> ping ext (net 0) (now 0) i s fs
      | Inr Bootstrap \<Rightarrow> fast_bootstrap ext net now s fs)"

definition anti_entropy_tick ::
  "('id, 'url) gossip_ext \<Rightarrow> (nat \<Rightarrow> panic + nat) \<Rightarrow> (nat \<Rightarrow> ('id, 'url) network) \<Rightarrow> (nat \<Rightarrow> timestamp) \<Rightarrow>
   ('id::linorder, 'url) gossip_state \<Rightarrow> file_system \<Rightarrow>
   ('id, 'url) gossip_state \<times> file_system \<times> (panic + unit)" where
  "anti_entropy_tick ext rng net now s fs =
     (case choose_member rng s of
        Inl p \<Rightarrow> (s, fs, Err p)
      | Inr SkipDead \<Rightarrow> (s, fs, Ok ())
      | Inr (Contact i) \<Rightarrow> sync ext (net 0) (now 0) i s fs
      | Inr Bootstrap \<Rightarrow> fast_bootstrap ext net now s fs)"

definition remove_dead_tick ::
  "('id, 'url) gossip_ext \<Rightarrow> ('id \<Rightarrow> timestamp) \<Rightarrow> timestamp \<Rightarrow> ('id::linorder, 'url) gossip_state \<Rightarrow>
   ('id, 'url) gossip_state \<times> (panic + unit)" where
  "remove_dead_tick ext now now' s =
     (case remove_dead_members ext now s of
        (s', Inl p) \<Rightarrow> (s', Err p)
      | (s', Inr dead_members) \<Rightarrow>
          (if dead_members = [] then s' else rebuild_ring ext now' s', Ok ()))"

datatype gossip_task = PingTask | AntiEntropyTask | RebuildRingTask | RemoveDeadMembersTask

fun task_interval :: "gossip_task \<Rightarrow> int" where
  "task_interval PingTask = DEFAULT_PING_INTERVAL"
| "task_interval AntiEntropyTask = DEFAULT_SYNC_INTERVAL"
| "task_interval RebuildRingTask = DEFAULT_REBUILD_RING_INTERVAL"
| "task_interval RemoveDeadMembersTask = DEFAULT_MEMBER_DEADLINE"

text \<open>
  \<open>start\<close>: the table is reset to the node itself, the cluster is contacted, and the four tasks are
  spawned unless the table is empty. \<open>now0\<close> is the first clock reading; a panic of the spawned
  bootstrap is resumed in the caller by \<open>JoinHandle\<close>.
\<close>

definition gossip_start ::
  "('id, 'url) gossip_ext \<Rightarrow> (nat \<Rightarrow> ('id, 'url) network) \<Rightarrow> timestamp \<Rightarrow> (nat \<Rightarrow> timestamp) \<Rightarrow>
   ('id::linorder, 'url) gossip_state \<Rightarrow> file_system \<Rightarrow>
   ('id, 'url) gossip_state \<times> file_system \<times> (panic + (gossip_error + gossip_task list))" where
  "gossip_start ext net now0 now s fs =
     (let s0 = s\<lparr>membership_cell := membership_from_iter [alive_now now0 (current_node s)]\<rparr> in
      case fast_bootstrap ext net now s0 fs of
        (s1, fs1, Inl p) \<Rightarrow> (s1, fs1, Err p)
      | (s1, fs1, Inr _) \<Rightarrow>
          (s1, fs1, Ok
            (if bt_is_empty (members (membership_cell s1))
             then Err (GossipError ''failed to bootstrap the cluster: no initial peer available'')
             else Ok [PingTask, AntiEntropyTask, RebuildRingTask, RemoveDeadMembersTask])))"

section \<open>Lemmas on the handlers\<close>

lemma alive_now_simps [simp]:
  "info (alive_now now i) = i" "status (alive_now now i) = Alive" "heartbeat (alive_now now i) = now"
  by (simp_all add: alive_now_def)

text \<open>The states a message reports, in the order they are merged.\<close>

fun reports :: "timestamp \<Rightarrow> ('id, 'url) node_info \<Rightarrow> ('id, 'url) gossip_message \<Rightarrow> ('id, 'url) member_state list" where
  "reports now cur (Ping i) = [alive_now now i]"
| "reports now cur (Ack i) = [alive_now now i]"
| "reports now cur (Sync ms) = ms @ [alive_now now cur]"

fun reply_to :: "('id, 'url) node_info \<Rightarrow> ('id::linorder, 'url) membership \<Rightarrow> ('id, 'url) gossip_message \<Rightarrow>
   ('id, 'url) gossip_message option" where
  "reply_to cur m (Ping i) = Some (Ack cur)"
| "reply_to cur m (Ack i) = None"
| "reply_to cur m (Sync ms) = Some (Sync (bt_values (members m)))"

lemma apply_message_eq:
  "apply_message now s msg =
   (let m = fold merge_member (reports now (current_node s) msg) (membership_cell s)
    in (s\<lparr>membership_cell := m\<rparr>, reply_to (current_node s) m msg))"
  by (cases msg) (simp_all add: Let_def)

text \<open>The three outcomes of a message: nothing to refute, incarnation advanced, file not written.\<close>

lemma handle_message_cases:
  fixes s :: "('id::linorder, 'url) gossip_state" and now :: timestamp
    and msg :: "('id, 'url) gossip_message"
  defines "m \<equiv> fold merge_member (reports now (current_node s) msg) (membership_cell s)"
  defines "dead \<equiv> is_dead m (node_id (current_node s))"
  obtains (quiet) "\<not> dead"
      "handle_message ext now s fs msg = (s\<lparr>membership_cell := m\<rparr>, fs, Ok (reply_to (current_node s) m msg))"
  | (advanced) fs' where "dead"
      "node_persist (ext_codec ext) fs (node_file_path (dir s)) (node_advance_incarnation (current_node s)) = Inr fs'"
      "handle_message ext now s fs msg =
        (s\<lparr>membership_cell := m, current_node := node_advance_incarnation (current_node s)\<rparr>, fs',
         Ok (reply_to (current_node s) m msg))"
  | (panicked) p where "dead"
      "node_persist (ext_codec ext) fs (node_file_path (dir s)) (node_advance_incarnation (current_node s)) = Inl p"
      "handle_message ext now s fs msg = (s\<lparr>membership_cell := m\<rparr>, fs, Err p)"
proof (cases dead)
  case False
  then show ?thesis
    by (intro quiet) (simp_all add: handle_message_def apply_message_eq Let_def m_def dead_def)
next
  case True
  show ?thesis
  proof (cases "node_persist (ext_codec ext) fs (node_file_path (dir s)) (node_advance_incarnation (current_node s))")
    case (Inl p)
    with True show ?thesis
      by (intro panicked)
        (simp_all add: handle_message_def apply_message_eq Let_def m_def dead_def advance_incarnation_def)
  next
    case (Inr fs')
    with True show ?thesis
      by (intro advanced)
        (simp_all add: handle_message_def apply_message_eq Let_def m_def dead_def advance_incarnation_def)
  qed
qed

lemma handle_message_membership [gossip_simps]:
  "membership_cell (fst (handle_message ext now s fs msg)) =
   fold merge_member (reports now (current_node s) msg) (membership_cell s)"
  by (rule handle_message_cases [of now s msg ext fs]) simp_all

lemma handle_message_frame [gossip_simps]:
  "dir (fst (handle_message ext now s fs msg)) = dir s"
  "initial_peers (fst (handle_message ext now s fs msg)) = initial_peers s"
  "ring_cell (fst (handle_message ext now s fs msg)) = ring_cell s"
  by (rule handle_message_cases [of now s msg ext fs]; simp)+

lemma handle_message_node_id [gossip_simps]:
  "node_id (current_node (fst (handle_message ext now s fs msg))) = node_id (current_node s)"
  by (rule handle_message_cases [of now s msg ext fs]) simp_all

lemma handle_message_wf:
  "membership_wf (membership_cell s) \<Longrightarrow> membership_wf (membership_cell (fst (handle_message ext now s fs msg)))"
  by (simp add: handle_message_membership membership_wf_fold_merge)

lemma mark_dead_frame [gossip_simps]:
  "dir (mark_dead peer s) = dir s" "initial_peers (mark_dead peer s) = initial_peers s"
  "ring_cell (mark_dead peer s) = ring_cell s" "current_node (mark_dead peer s) = current_node s"
  by (simp_all add: mark_dead_def split: option.split)

lemma mark_dead_wf: "membership_wf (membership_cell s) \<Longrightarrow> membership_wf (membership_cell (mark_dead peer s))"
  by (simp add: mark_dead_def membership_wf_merge split: option.split)

lemma rebuild_ring_frame [gossip_simps]:
  "dir (rebuild_ring ext now s) = dir s" "initial_peers (rebuild_ring ext now s) = initial_peers s"
  "membership_cell (rebuild_ring ext now s) = membership_cell s"
  "current_node (rebuild_ring ext now s) = current_node s"
  by (simp_all add: rebuild_ring_def Let_def)

lemma rebuild_ring_points:
  "ring_points (ring_cell (rebuild_ring ext now s)) =
   (\<Union>n \<in> insert (node_id (current_node s)) {k. member_of (membership_cell s) k \<noteq> None}.
      node_points (ext_mur3 ext) (ext_as_ref ext) DEFAULT_VNODE_COUNT n)"
  by (auto simp: rebuild_ring_def Let_def ring_from_points set_bt_keys member_of_merge)

lemma remove_dead_members_frame [gossip_simps]:
  "dir (fst (remove_dead_members ext now s)) = dir s"
  "initial_peers (fst (remove_dead_members ext now s)) = initial_peers s"
  "ring_cell (fst (remove_dead_members ext now s)) = ring_cell s"
  "current_node (fst (remove_dead_members ext now s)) = current_node s"
  by (simp_all add: remove_dead_members_def split: sum.split)

lemma member_of_fold_remove:
  "member_of (fold (\<lambda>d. remove_member (node_id d)) ds m) k =
   (if k \<in> node_id ` set ds then None else member_of m k)"
  by (induction ds arbitrary: m) (auto simp: member_of_remove)

lemma membership_wf_fold_remove:
  "membership_wf m \<Longrightarrow> membership_wf (fold (\<lambda>d. remove_member (node_id d)) ds m)"
  by (induction ds arbitrary: m) (simp_all add: membership_wf_remove)

lemma remove_dead_members_wf:
  "membership_wf (membership_cell s) \<Longrightarrow> membership_wf (membership_cell (fst (remove_dead_members ext now s)))"
  by (simp add: remove_dead_members_def membership_wf_fold_remove split: sum.split)

text \<open>A member is overdue when it is dead and its last heartbeat lies more than the deadline back.\<close>

definition overdue :: "timestamp \<Rightarrow> ('id, 'url) member_state \<Rightarrow> bool" where
  "overdue now m \<longleftrightarrow> status m = Dead \<and> heartbeat m + DEFAULT_MEMBER_DEADLINE < now"

definition overflows :: "timestamp \<Rightarrow> ('id, 'url) member_state \<Rightarrow> bool" where
  "overflows ts_max m \<longleftrightarrow> status m = Dead \<and> ts_max < heartbeat m + DEFAULT_MEMBER_DEADLINE"

lemma collect_dead_eq:
  "collect_dead ts_max now es =
   (if \<exists>e\<in>set es. overflows ts_max (snd e) then Err TimestampOverflow
    else Ok (map (info \<circ> snd) (filter (\<lambda>e. overdue (now (fst e)) (snd e)) es)))"
  by (induction ts_max now es rule: collect_dead.induct) (auto simp: overdue_def overflows_def)

lemma remove_dead_members_eq:
  "remove_dead_members ext now s =
   (let es = bt_entries (members (membership_cell s)) in
    if \<exists>e\<in>set es. overflows (ext_ts_max ext) (snd e) then (s, Err TimestampOverflow)
    else let ds = map (info \<circ> snd) (filter (\<lambda>e. overdue (now (fst e)) (snd e)) es) in
      (s\<lparr>membership_cell := fold (\<lambda>d. remove_member (node_id d)) ds (membership_cell s)\<rparr>, Ok ds))"
  by (simp add: remove_dead_members_def collect_dead_eq Let_def)

lemma fold_merge_absent:
  "\<forall>s\<in>set ss. node_id (info s) \<noteq> k \<Longrightarrow> member_of (fold merge_member ss m) k = member_of m k"
  by (induction ss arbitrary: m) (auto simp: member_of_merge)

text \<open>A node that announces itself at an incarnation at least that of its entry is alive in the table.\<close>

lemma self_announce_alive:
  assumes "\<And>c. member_of m (node_id cur) = Some c \<Longrightarrow> incarnation (info c) \<le> incarnation cur"
  shows "\<not> is_dead (merge_member (alive_now now cur) m) (node_id cur)"
  using assms
  by (cases "member_of m (node_id cur)")
    (auto simp: is_dead_def member_of_merge merged_def alive_now_def not_less)

lemma fold_merge_self_bound:
  assumes "\<And>c. member_of m k = Some c \<Longrightarrow> incarnation (info c) \<le> b"
    and "\<And>x. x \<in> set ss \<Longrightarrow> node_id (info x) = k \<Longrightarrow> incarnation (info x) \<le> b"
    and "member_of (fold merge_member ss m) k = Some c"
  shows "incarnation (info c) \<le> b"
  using assms
proof (induction ss arbitrary: m)
  case Nil
  then show ?case by simp
next
  case (Cons x xs)
  have "incarnation (info c) \<le> b" if "member_of (merge_member x m) k = Some c" for c
    using that Cons.prems(1,2)
    by (auto simp: member_of_merge merged_def split: if_splits option.splits)
  with Cons.IH [of "merge_member x m"] Cons.prems(2,3) show ?case by simp
qed

lemma fold_merge_sync: "fold merge_member (reports now cur (Sync ms)) m =
   merge_member (alive_now now cur) (fold merge_member ms m)"
  by simp

text \<open>What \<open>backon\<close> documents of a retried call: at most \<open>n\<close> retries after the first attempt.\<close>

definition retry_ok :: "(nat \<Rightarrow> (nat \<Rightarrow> 'e + 'a) \<Rightarrow> 'e + 'a) \<Rightarrow> bool" where
  "retry_ok retry \<longleftrightarrow> (\<forall>n f.
     case retry n f of Inr v \<Rightarrow> \<exists>i\<le>n. f i = Inr v | Inl e \<Rightarrow> \<forall>i\<le>n. \<exists>e. f i = Inl e)"

lemma retry_okD:
  assumes "retry_ok retry"
  shows "case retry n f of Inr v \<Rightarrow> \<exists>i\<le>n. f i = Inr v | Inl e \<Rightarrow> \<forall>i\<le>n. \<exists>e. f i = Inl e"
  using assms unfolding retry_ok_def by (elim allE)

lemma retry_okD_Inr: "retry_ok retry \<Longrightarrow> retry n f = Inr v \<Longrightarrow> \<exists>i\<le>n. f i = Inr v"
  using retry_okD [of retry n f] by simp

lemma retry_okD_Inl: "retry_ok retry \<Longrightarrow> retry n f = Inl e \<Longrightarrow> i \<le> n \<Longrightarrow> \<exists>e. f i = Inl e"
  using retry_okD [of retry n f] by simp

fun first_ok :: "nat \<Rightarrow> (nat \<Rightarrow> 'e + 'a) \<Rightarrow> 'e + 'a" where
  "first_ok 0 f = f 0"
| "first_ok (Suc n) f = (case f 0 of Inr v \<Rightarrow> Inr v | Inl e \<Rightarrow> first_ok n (\<lambda>i. f (Suc i)))"

lemma first_ok_retry_ok: "retry_ok first_ok"
  unfolding retry_ok_def
proof (intro allI)
  fix n and f
  show "case first_ok n f of Inl e \<Rightarrow> \<forall>i\<le>n. \<exists>e. f i = Inl e | Inr v \<Rightarrow> \<exists>i\<le>n. f i = Inr v"
  proof (induction n arbitrary: f)
    case 0
    then show ?case by (cases "f 0") auto
  next
    case (Suc n)
    from Suc [of "\<lambda>i. f (Suc i)"] show ?case
      by (cases "f 0"; cases "first_ok n (\<lambda>i. f (Suc i))")
        (auto simp: less_Suc_eq_0_disj simp flip: less_Suc_eq_le)
  qed
qed

section \<open>Properties\<close>

text \<open>
  No message makes a node forget or downgrade what it knows: every known member stays known and
  its version \<open>(incarnation, heartbeat)\<close> does not decrease, whatever the message and whether or not
  the handler panics afterwards.
\<close>
lemma handle_message_versions_monotone:
  assumes "member_of (membership_cell s) k = Some c"
  shows "\<exists>c'. member_of (membership_cell (fst (handle_message ext now s fs msg))) k = Some c' \<and>
    version c \<le> version c'"
  unfolding handle_message_membership by (rule mt.fold_merge_mono [OF assms])

definition demo_ext :: "(nat, string) gossip_ext" where
  "demo_ext = \<lparr>ext_mur3 = (\<lambda>bs _. of_nat (length bs)), ext_as_ref = (\<lambda>i. [of_nat i]),
     ext_codec = \<lparr>to_string_pretty = (\<lambda>i. Some (replicate (p_node_id i) CHR ''1'' @ ''0'' @
          replicate (unat (p_incarnation i)) CHR ''1'' @ ''0'' @ p_cluster_id i)),
        from_str = (\<lambda>d. let r = tl (dropWhile (\<lambda>c. c = CHR ''1'') d) in
          Some \<lparr>p_node_id = length (takeWhile (\<lambda>c. c = CHR ''1'') d),
            p_cluster_id = tl (dropWhile (\<lambda>c. c = CHR ''1'') r),
            p_incarnation = of_nat (length (takeWhile (\<lambda>c. c = CHR ''1'') r))\<rparr>)\<rparr>,
     ext_join = (\<lambda>u p. Some (u @ ''/'' @ p)), ext_retry = first_ok,
     ext_ts_max = seconds 253402207200\<rparr>"

lemma demo_ts_max: "ext_ts_max demo_ext = seconds 253402207200"
  by (simp add: demo_ext_def)

definition demo_node :: "nat \<Rightarrow> u64 \<Rightarrow> (nat, string) node_info" where
  "demo_node i inc = \<lparr>node_id = i, cluster_id = ''c'', advertise_data_url = ''http://d'',
     advertise_ctrl_url = ''http://c'', incarnation = inc\<rparr>"

definition demo_state :: "(nat, string) member_state list \<Rightarrow> (nat, string) gossip_state" where
  "demo_state ms = (gossip_new (demo_node 1 0) [] ''/d'')\<lparr>membership_cell := membership_from_iter ms\<rparr>"

lemma demo_ext_codec_ok: "codec_ok (ext_codec demo_ext)"
proof -
  have len: "length (takeWhile (\<lambda>c. c = CHR ''1'') (replicate n CHR ''1'' @ CHR ''0'' # r)) = n" for n r
    by (induction n) auto
  have drop: "dropWhile (\<lambda>c. c = CHR ''1'') (replicate n CHR ''1'' @ CHR ''0'' # r) = CHR ''0'' # r" for n r
    by (induction n) auto
  show ?thesis
    by (auto simp: codec_ok_def demo_ext_def len drop)
qed

lemma demo_state_simps [simp]:
  "membership_cell (demo_state ms) = membership_from_iter ms"
  "current_node (demo_state ms) = demo_node 1 0" "dir (demo_state ms) = ''/d''"
  "initial_peers (demo_state ms) = []" "ring_cell (demo_state ms) = ring_default"
  by (simp_all add: demo_state_def gossip_new_def)

lemma member_of_from_single [simp]:
  "member_of (membership_from_iter [x]) k = (if k = node_id (info x) then Some x else None)"
  by (simp add: membership_from_iter_def member_of_merge merged_def)

lemma handle_message_versions_monotone_witness:
  "\<exists>c'. member_of (membership_cell (fst (handle_message demo_ext 7
       (demo_state [alive_now 5 (demo_node 1 0)]) demo_fs (Ping (demo_node 2 0))))) 1 = Some c' \<and>
     version (alive_now 5 (demo_node 1 0)) \<le> version c'"
  by (rule handle_message_versions_monotone) (simp add: demo_node_def)

text \<open>
  C13: the refutation rule. After a message was handled without panicking, the node has advanced its
  incarnation by one exactly when its table lists it as dead, and then the new incarnation is
  already in \<open>node.json\<close>; otherwise neither its identity nor the file changed.
\<close>
theorem handle_message_refutes_death:
  assumes "codec_ok (ext_codec ext)" and "handle_message ext now s fs msg = (s', fs', Inr r)"
  shows "if is_dead (membership_cell s') (node_id (current_node s))
    then current_node s' = node_advance_incarnation (current_node s) \<and>
      node_file_holds (ext_codec ext) fs' (node_file_path (dir s)) (current_node s')
    else current_node s' = current_node s \<and> fs' = fs"
  using assms
  by (cases rule: handle_message_cases [of now s msg ext fs]) (auto dest: node_persist_holds)

lemma demo_persist: "node_persist (ext_codec demo_ext) demo_fs p n \<noteq> Inl e"
  by (simp add: node_persist_def persistent_persist_def demo_ext_def demo_fs_def fs_write_def)

definition demo_dead :: "nat \<Rightarrow> u64 \<Rightarrow> timestamp \<Rightarrow> (nat, string) member_state" where
  "demo_dead i inc hb = \<lparr>info = demo_node i inc, status = Dead, heartbeat = hb\<rparr>"

lemma demo_node_simps [simp]: "node_id (demo_node i inc) = i" "incarnation (demo_node i inc) = inc"
  by (simp_all add: demo_node_def)

lemma demo_dead_simps [simp]:
  "info (demo_dead i inc hb) = demo_node i inc" "status (demo_dead i inc hb) = Dead"
  "heartbeat (demo_dead i inc hb) = hb"
  by (simp_all add: demo_dead_def)

theorem handle_message_refutes_death_witness:
  "\<exists>s' fs' r. handle_message demo_ext 7 (demo_state [demo_dead 1 0 5]) demo_fs (Ping (demo_node 2 0))
     = (s', fs', Inr r) \<and>
   (if is_dead (membership_cell s') 1 then current_node s' = node_advance_incarnation (demo_node 1 0) \<and>
      node_file_holds (ext_codec demo_ext) fs' (node_file_path ''/d'') (current_node s')
    else current_node s' = demo_node 1 0 \<and> fs' = demo_fs)"
proof -
  obtain s' fs' r where h: "handle_message demo_ext 7 (demo_state [demo_dead 1 0 5]) demo_fs
      (Ping (demo_node 2 0)) = (s', fs', Inr r)"
    by (cases rule: handle_message_cases [of 7 "demo_state [demo_dead 1 0 5]"
          "Ping (demo_node 2 0)" demo_ext demo_fs]) (auto simp: demo_persist)
  from handle_message_refutes_death [OF demo_ext_codec_ok h] h show ?thesis by auto
qed

text \<open>
  A \<open>Sync\<close> is answered with the table as it was stored, and that table lists the node itself.
\<close>
lemma sync_reply_is_stored_table:
  assumes "handle_message ext now s fs (Sync ms) = (s', fs', Inr r)"
  shows "r = Some (Sync (bt_values (members (membership_cell s')))) \<and>
    member_of (membership_cell s') (node_id (current_node s)) \<noteq> None"
  using assms
  by (cases rule: handle_message_cases [of now s "Sync ms" ext fs]) (auto simp: member_of_merge)

lemma sync_reply_is_stored_table_witness:
  "\<exists>s' fs' r. handle_message demo_ext 7 (demo_state []) demo_fs (Sync []) = (s', fs', Inr r) \<and>
    r = Some (Sync (bt_values (members (membership_cell s')))) \<and>
    member_of (membership_cell s') 1 \<noteq> None"
proof -
  obtain s' fs' r where h: "handle_message demo_ext 7 (demo_state []) demo_fs (Sync []) = (s', fs', Inr r)"
    by (cases rule: handle_message_cases [of 7 "demo_state []" "Sync []" demo_ext demo_fs])
      (auto simp: demo_persist)
  from sync_reply_is_stored_table [OF h] h show ?thesis by auto
qed

text \<open>
  A node that hears of itself at no higher incarnation than its own ends a \<open>Sync\<close> alive in its own
  table, without advancing its incarnation or writing its file, whatever statuses the peers report.
\<close>
lemma sync_keeps_self_alive:
  assumes "\<And>c. member_of (membership_cell s) (node_id (current_node s)) = Some c \<Longrightarrow>
      incarnation (info c) \<le> incarnation (current_node s)"
    and "\<And>x. x \<in> set ms \<Longrightarrow> node_id (info x) = node_id (current_node s) \<Longrightarrow>
      incarnation (info x) \<le> incarnation (current_node s)"
  shows "\<exists>s' r. handle_message ext now s fs (Sync ms) = (s', fs, Inr r) \<and>
    current_node s' = current_node s \<and> \<not> is_dead (membership_cell s') (node_id (current_node s))"
proof -
  have "\<not> is_dead (fold merge_member (reports now (current_node s) (Sync ms)) (membership_cell s))
      (node_id (current_node s))"
    unfolding fold_merge_sync
    by (rule self_announce_alive) (use fold_merge_self_bound assms in blast)
  then show ?thesis
    by (cases rule: handle_message_cases [of now s "Sync ms" ext fs]) auto
qed

lemma sync_keeps_self_alive_witness:
  "\<exists>s' r. handle_message demo_ext 7 (demo_state [alive_now 5 (demo_node 1 0)]) demo_fs
       (Sync [demo_dead 1 0 9]) = (s', demo_fs, Inr r) \<and>
     current_node s' = demo_node 1 0 \<and> \<not> is_dead (membership_cell s') 1"
  using sync_keeps_self_alive [of "demo_state [alive_now 5 (demo_node 1 0)]" "[demo_dead 1 0 9]"
      demo_ext 7 demo_fs]
  by simp

text \<open>
  A node listed dead at its own incarnation recovers in two messages: the first message (a ping of
  another node) makes it advance its incarnation, and the next \<open>Sync\<close> that does not know a later
  incarnation of it leaves it alive in its own table at the advanced incarnation.
\<close>
lemma dead_node_recovers:
  assumes dead: "is_dead (membership_cell s) (node_id (current_node s))"
    and inc: "\<And>c. member_of (membership_cell s) (node_id (current_node s)) = Some c \<Longrightarrow>
      incarnation (info c) \<le> incarnation (current_node s)"
    and room: "incarnation (current_node s) \<noteq> - 1"
    and other: "node_id i \<noteq> node_id (current_node s)"
    and ping: "handle_message ext now s fs (Ping i) = (s1, fs1, Inr r)"
    and ms: "\<And>x. x \<in> set ms \<Longrightarrow> node_id (info x) = node_id (current_node s) \<Longrightarrow>
      incarnation (info x) \<le> incarnation (current_node s) + 1"
  shows "incarnation (current_node s1) = incarnation (current_node s) + 1 \<and>
    (\<exists>s2 r2 c. handle_message ext now2 s1 fs1 (Sync ms) = (s2, fs1, Inr r2) \<and>
      member_of (membership_cell s2) (node_id (current_node s)) = Some c \<and> status c = Alive \<and>
      incarnation (info c) = incarnation (current_node s) + 1)"
proof -
  let ?i = "node_id (current_node s)" and ?n = "incarnation (current_node s)"
  have lt: "?n < ?n + 1"
    using room by (rule word_less_plus_one)
  have same: "member_of (membership_cell s1) ?i = member_of (membership_cell s) ?i"
    using ping other handle_message_membership [of ext now s fs "Ping i"]
    by (simp add: member_of_merge)
  have cur1: "current_node s1 = node_advance_incarnation (current_node s)"
    using dead other ping
    by (cases rule: handle_message_cases [of now s "Ping i" ext fs])
      (auto simp: is_dead_def member_of_merge)
  have bound: "incarnation (info c) \<le> ?n + 1" if "member_of (membership_cell s1) ?i = Some c" for c
    using inc [of c] that lt by (simp add: same)
  let ?m = "fold merge_member ms (membership_cell s1)"
  let ?m2 = "merge_member (alive_now now2 (current_node s1)) ?m"
  have b: "incarnation (info c) \<le> ?n + 1" if "member_of ?m ?i = Some c" for c
    using fold_merge_self_bound [OF bound ms that] by blast
  then have alive: "\<not> is_dead ?m2 ?i"
    using self_announce_alive [of ?m "current_node s1" now2] by (simp add: cur1)
  obtain c where c: "member_of ?m2 ?i = Some c" "incarnation (info c) = ?n + 1"
    using b by (cases "member_of ?m ?i") (auto simp: member_of_merge cur1 merged_def)
  have st: "status c = Alive"
    using alive c by (cases "status c") (auto simp: is_dead_def)
  have "\<exists>s2 r2. handle_message ext now2 s1 fs1 (Sync ms) = (s2, fs1, Inr r2) \<and> membership_cell s2 = ?m2"
    using alive cur1
    by (cases rule: handle_message_cases [of now2 s1 "Sync ms" ext fs1]) auto
  with c st cur1 show ?thesis by auto
qed

lemma dead_node_recovers_witness:
  "\<exists>s1 fs1 r. handle_message demo_ext 7 (demo_state [demo_dead 1 0 5]) demo_fs (Ping (demo_node 2 0))
     = (s1, fs1, Inr r) \<and> incarnation (current_node s1) = 1 \<and>
   (\<exists>s2 r2 c. handle_message demo_ext 8 s1 fs1 (Sync []) = (s2, fs1, Inr r2) \<and>
      member_of (membership_cell s2) 1 = Some c \<and> status c = Alive \<and> incarnation (info c) = 1)"
proof -
  obtain s1 fs1 r where h: "handle_message demo_ext 7 (demo_state [demo_dead 1 0 5]) demo_fs
      (Ping (demo_node 2 0)) = (s1, fs1, Inr r)"
    by (cases rule: handle_message_cases [of 7 "demo_state [demo_dead 1 0 5]"
          "Ping (demo_node 2 0)" demo_ext demo_fs]) (auto simp: demo_persist)
  from dead_node_recovers [OF _ _ _ _ h, of "[]" 8] h show ?thesis
    by (auto simp: is_dead_def split: if_splits)
qed

text \<open>
  \<open>mark_dead\<close> never adds a member and never moves a heartbeat. A peer known at the incarnation that
  was contacted becomes dead; one that has meanwhile restarted at a higher incarnation stays as it is.
\<close>
lemma mark_dead_effect:
  "member_of (membership_cell (mark_dead peer s)) k =
   (if k \<noteq> node_id peer then member_of (membership_cell s) k
    else case member_of (membership_cell s) k of
      None \<Rightarrow> None
    | Some c \<Rightarrow> Some
        (if incarnation (info c) < incarnation peer
           then \<lparr>info = peer, status = Dead, heartbeat = heartbeat c\<rparr>
         else if incarnation peer < incarnation (info c) then c
         else c\<lparr>status := Dead\<rparr>))"
  by (cases "member_of (membership_cell s) (node_id peer)")
    (auto simp: mark_dead_def member_of_merge merged_def)

text \<open>
  The sweep removes exactly the overdue dead members: those that are alive or within the deadline
  keep their entries. It panics, changing nothing, exactly when adding the deadline to the heartbeat of
  some dead member leaves the range of timestamps.
\<close>
lemma remove_dead_members_exact:
  assumes "membership_wf (membership_cell s)"
  shows "case remove_dead_members ext now s of
      (s', Inl p) \<Rightarrow> s' = s \<and> p = TimestampOverflow \<and>
        (\<exists>k m. member_of (membership_cell s) k = Some m \<and> overflows (ext_ts_max ext) m)
    | (s', Inr dead) \<Rightarrow> \<forall>k. member_of (membership_cell s') k =
        Option.bind (member_of (membership_cell s) k) (\<lambda>m. if overdue (now k) m then None else Some m)"
proof -
  let ?es = "bt_entries (members (membership_cell s))"
  let ?ds = "map (info \<circ> snd) (filter (\<lambda>e. overdue (now (fst e)) (snd e)) ?es)"
  have ds: "k \<in> node_id ` set ?ds \<longleftrightarrow>
      (\<exists>k' m. (k', m) \<in> set ?es \<and> overdue (now k') m \<and> node_id (info m) = k)" for k
    by (force simp: image_iff)
  have "k \<in> node_id ` set ?ds \<longleftrightarrow> (\<exists>m. member_of (membership_cell s) k = Some m \<and> overdue (now k) m)" for k
    unfolding ds bt.mem_entries_iff using assms [unfolded membership_wf_iff] by blast
  then have "member_of (fold (\<lambda>d. remove_member (node_id d)) ?ds (membership_cell s)) k =
      Option.bind (member_of (membership_cell s) k) (\<lambda>m. if overdue (now k) m then None else Some m)" for k
    by (cases "member_of (membership_cell s) k") (auto simp: member_of_fold_remove)
  moreover have "(\<exists>e\<in>set ?es. overflows (ext_ts_max ext) (snd e)) \<longleftrightarrow>
      (\<exists>k m. member_of (membership_cell s) k = Some m \<and> overflows (ext_ts_max ext) m)"
    by (force simp: bt.mem_entries_iff [symmetric])
  ultimately show ?thesis
    by (simp add: remove_dead_members_eq Let_def)
qed

lemma remove_dead_members_exact_witness:
  "case remove_dead_members demo_ext (\<lambda>_. seconds 100) (demo_state [demo_dead 2 0 (seconds 60)]) of
      (s', Inl p) \<Rightarrow> s' = demo_state [demo_dead 2 0 (seconds 60)] \<and> p = TimestampOverflow \<and>
        (\<exists>k m. member_of (membership_from_iter [demo_dead 2 0 (seconds 60)]) k = Some m \<and>
          overflows (ext_ts_max demo_ext) m)
    | (s', Inr dead) \<Rightarrow> \<forall>k. member_of (membership_cell s') k =
        Option.bind (member_of (membership_from_iter [demo_dead 2 0 (seconds 60)]) k)
          (\<lambda>m. if overdue (seconds 100) m then None else Some m)"
proof -
  have "membership_wf (membership_cell (demo_state [demo_dead 2 0 (seconds 60)]))"
    by (simp add: membership_wf_iff)
  from remove_dead_members_exact [OF this, of demo_ext "\<lambda>_. seconds 100"]
  show ?thesis by (simp only: demo_state_simps)
qed

text \<open>
  The rebuilt ring holds the virtual nodes of exactly the known members and of the node itself,
  present in its own table or not; the table and the identity are not touched.
\<close>
lemma rebuild_ring_nodes:
  "ring_wf (ring_cell (rebuild_ring ext now s)) \<and>
   snd ` ring_points (ring_cell (rebuild_ring ext now s)) =
     insert (node_id (current_node s)) (set (bt_keys (members (membership_cell s)))) \<and>
   membership_cell (rebuild_ring ext now s) = membership_cell s \<and>
   current_node (rebuild_ring ext now s) = current_node s"
proof -
  have "0 < DEFAULT_VNODE_COUNT" by (simp add: DEFAULT_VNODE_COUNT_def)
  then have "snd ` ring_points (ring_cell (rebuild_ring ext now s)) =
      insert (node_id (current_node s)) (set (bt_keys (members (membership_cell s))))"
    by (simp add: rebuild_ring_points image_UN image_Un set_bt_keys nodes_of_node_points)
  then show ?thesis
    by (simp add: rebuild_ring_frame) (simp add: rebuild_ring_def Let_def)
qed

text \<open>
  With a random source that behaves as documented (it panics on an empty range and otherwise
  returns an index in range), neither periodic task ever reaches its fallback of contacting the initial
  peers again: on an empty table both tasks panic instead.
\<close>
lemma empty_table_stops_tasks:
  assumes "rng 0 = Inl EmptyRange" and "\<And>n. 0 < n \<Longrightarrow> \<exists>i<n. rng n = Inr i"
  shows "choose_member rng s \<noteq> Inr Bootstrap \<and>
    (bt_is_empty (members (membership_cell s)) \<longrightarrow>
      ping_tick ext rng net now s fs = (s, fs, Err EmptyRange) \<and>
      anti_entropy_tick ext rng net now s fs = (s, fs, Err EmptyRange))"
proof (cases "bt_entries (members (membership_cell s)) = []")
  case True
  then show ?thesis
    using assms(1) by (simp add: choose_member_def ping_tick_def anti_entropy_tick_def)
next
  case False
  then obtain i where "i < length (bt_entries (members (membership_cell s)))"
      "rng (length (bt_entries (members (membership_cell s)))) = Inr i"
    using assms(2) by blast
  with False show ?thesis
    by (simp add: choose_member_def Let_def bt_is_empty_def)
qed

lemma empty_table_stops_tasks_witness:
  "choose_member (\<lambda>n. if n = 0 then Inl EmptyRange else Inr 0) (demo_state []) \<noteq> Inr Bootstrap \<and>
   ping_tick demo_ext (\<lambda>n. if n = 0 then Inl EmptyRange else Inr 0) (\<lambda>_ _ _ _. None) (\<lambda>_. 0)
     (demo_state []) demo_fs = (demo_state [], demo_fs, Err EmptyRange) \<and>
   anti_entropy_tick demo_ext (\<lambda>n. if n = 0 then Inl EmptyRange else Inr 0) (\<lambda>_ _ _ _. None) (\<lambda>_. 0)
     (demo_state []) demo_fs = (demo_state [], demo_fs, Err EmptyRange)"
proof -
  have "bt_is_empty (members (membership_cell (demo_state [])))"
    by (simp add: demo_state_def membership_from_iter_def membership_default_def)
  then show ?thesis
    using empty_table_stops_tasks [of "\<lambda>n. if n = 0 then Inl EmptyRange else Inr 0" "demo_state []"
        demo_ext "\<lambda>_ _ _ _. None" "\<lambda>_. 0" demo_fs] by auto
qed

text \<open>
  The empty table is reachable: a node that knows only itself, fails to reach its own control
  address and is swept after the deadline ends up with no member at all.
\<close>
lemma lone_node_empties_its_table:
  assumes only: "\<And>k. member_of (membership_cell s) k \<noteq> None \<Longrightarrow> k = node_id (current_node s)"
    and self: "member_of (membership_cell s) (node_id (current_node s)) = Some c"
    and inc: "info c = current_node s"
    and late: "heartbeat c + DEFAULT_MEMBER_DEADLINE < now (node_id (current_node s))"
    and fits: "heartbeat c + DEFAULT_MEMBER_DEADLINE \<le> ext_ts_max ext"
  shows "\<exists>s1. ping_done ext t (current_node s) (Err e) s fs = (s1, fs, Ok ()) \<and>
    bt_is_empty (members (membership_cell (fst (remove_dead_members ext now s1))))"
proof -
  let ?s1 = "mark_dead (current_node s) s"
  have m1: "member_of (membership_cell ?s1) k =
      (if k = node_id (current_node s) then Some (c\<lparr>status := Dead\<rparr>) else None)" for k
  proof (cases "k = node_id (current_node s)")
    case True
    then show ?thesis by (simp add: mark_dead_def member_of_merge merged_def self inc)
  next
    case False
    then have "member_of (membership_cell s) k = None" using only by blast
    with False show ?thesis by (simp add: mark_dead_def member_of_merge self)
  qed
  let ?es = "bt_entries (members (membership_cell ?s1))"
  have es: "(k, m) \<in> set ?es \<longleftrightarrow> k = node_id (current_node s) \<and> m = c\<lparr>status := Dead\<rparr>" for k m
    by (auto simp: bt.mem_entries_iff m1)
  have "\<not> (\<exists>e\<in>set ?es. overflows (ext_ts_max ext) (snd e))"
    using fits by (auto simp: es overflows_def)
  moreover have "(node_id (current_node s), c\<lparr>status := Dead\<rparr>) \<in>
      set (filter (\<lambda>e. overdue (now (fst e)) (snd e)) ?es)"
    using late by (simp add: es overdue_def)
  then have "node_id (current_node s) \<in>
      node_id ` set (map (info \<circ> snd) (filter (\<lambda>e. overdue (now (fst e)) (snd e)) ?es))"
    unfolding set_map image_image using inc by (intro image_eqI) (auto simp: inc)
  ultimately have "bt_is_empty (members (membership_cell (fst (remove_dead_members ext now ?s1))))"
    by (simp add: remove_dead_members_eq Let_def bt_is_empty_iff member_of_fold_remove m1)
  then show ?thesis by (simp add: ping_done_def)
qed

lemma lone_node_empties_its_table_witness:
  "\<exists>s1. ping_done demo_ext 7 (demo_node 1 0) (Err (GossipError ''refused''))
       (demo_state [alive_now 5 (demo_node 1 0)]) demo_fs = (s1, demo_fs, Ok ()) \<and>
     bt_is_empty (members (membership_cell (fst (remove_dead_members demo_ext (\<lambda>_. seconds 60) s1))))"
proof -
  let ?s = "demo_state [alive_now 5 (demo_node 1 0)]"
  have only: "member_of (membership_cell ?s) k \<noteq> None \<Longrightarrow> k = node_id (current_node ?s)" for k
    by (simp split: if_splits)
  show ?thesis
    using lone_node_empties_its_table [of ?s, OF only, of "alive_now 5 (demo_node 1 0)"
        "\<lambda>_. seconds 60" demo_ext 7 "GossipError ''refused''" demo_fs]
    by (simp add: DEFAULT_MEMBER_DEADLINE_def demo_ts_max)
qed

end
