(* ===== verification/GossipSteps.thy ===== *)
theory GossipSteps
  imports Gossip
begin

text \<open>
  The gossip state under all its tasks: a step relation with one rule per atomic segment of a task
  (a received message, the end of a ping, of a sync, of a bootstrap exchange, the reset by \<open>start\<close>, a
  ring rebuild, a sweep), in any order and with any peers, replies and clock readings. The locale
  \<open>invariant_system\<close> is the induction over runs; it is interpreted on the gossip steps. The second part
  covers the sequential composition of the segments in \<open>ping\<close>, \<open>fast_bootstrap\<close> and \<open>start\<close>.
\<close>

locale invariant_system =
  fixes init :: "'s \<Rightarrow> bool"
    and step :: "'s \<Rightarrow> 's \<Rightarrow> bool"
    and inv :: "'s \<Rightarrow> bool"
  assumes init_inv: "init s \<Longrightarrow> inv s"
    and step_inv: "inv s \<Longrightarrow> step s t \<Longrightarrow> inv t"
begin

lemma run_inv: "step\<^sup>*\<^sup>* s t \<Longrightarrow> inv s \<Longrightarrow> inv t"
  by (induction rule: rtranclp_induct) (auto intro: step_inv)

lemma reachable_inv: "init s \<Longrightarrow> step\<^sup>*\<^sup>* s t \<Longrightarrow> inv t"
  by (blast intro: run_inv init_inv)

end

section \<open>Steps\<close>

inductive gossip_step ::
  "('id, 'url) gossip_ext \<Rightarrow> ('id::linorder, 'url) gossip_state \<times> file_system \<Rightarrow>
   ('id, 'url) gossip_state \<times> file_system \<Rightarrow> bool" for ext where
  receive: "handle_message ext now s fs msg = (s', fs', r) \<Longrightarrow> gossip_step ext (s, fs) (s', fs')"
| ping_end: "ping_done ext now peer outcome s fs = (s', fs', r) \<Longrightarrow> gossip_step ext (s, fs) (s', fs')"
| sync_end: "sync_done ext now peer outcome s fs = (s', fs', r) \<Longrightarrow> gossip_step ext (s, fs) (s', fs')"
| bootstrap_ping_end: "bootstrap_ping_done ext now outcome s fs = (s', fs', r) \<Longrightarrow>
    gossip_step ext (s, fs) (s', fs')"
| bootstrap_sync_end: "bootstrap_sync_done ext now outcome s fs = (s', fs', r) \<Longrightarrow>
    gossip_step ext (s, fs) (s', fs')"
| reset: "gossip_step ext (s, fs)
    (s\<lparr>membership_cell := membership_from_iter [alive_now now (current_node s)]\<rparr>, fs)"
| rebuild: "gossip_step ext (s, fs) (rebuild_ring ext now s, fs)"
| sweep: "remove_dead_members ext clock s = (s', r) \<Longrightarrow> gossip_step ext (s, fs) (s', fs)"

inductive_cases gossip_stepE: "gossip_step ext (s, fs) (s', fs')"

text \<open>
  The invariant: the table is keyed by node ids, the ring has no empty bucket and, once built, holds
  the node itself, the node keeps its id, and \<open>node.json\<close> holds the identity the node announces.
\<close>

definition gossip_inv :: "('id, 'url) gossip_ext \<Rightarrow> 'id \<Rightarrow> ('id::linorder, 'url) gossip_state \<times> file_system \<Rightarrow> bool" where
  "gossip_inv ext i c = (case c of (s, fs) \<Rightarrow>
     codec_ok (ext_codec ext) \<and> membership_wf (membership_cell s) \<and>
     ring_wf (ring_cell s) \<and> vnodes (ring_cell s) = DEFAULT_VNODE_COUNT \<and>
     (ring_points (ring_cell s) = {} \<or> i \<in> snd ` ring_points (ring_cell s)) \<and>
     node_id (current_node s) = i \<and>
     node_file_holds (ext_codec ext) fs (node_file_path (dir s)) (current_node s))"

definition gossip_booting :: "('id, 'url) gossip_ext \<Rightarrow> 'id \<Rightarrow> ('id::linorder, 'url) gossip_state \<times> file_system \<Rightarrow> bool" where
  "gossip_booting ext i c \<longleftrightarrow> (\<exists>n peers d fs. c = (gossip_new n peers d, fs) \<and>
     codec_ok (ext_codec ext) \<and> node_id n = i \<and> node_file_holds (ext_codec ext) fs (node_file_path d) n)"

lemma handle_message_inv:
  assumes "gossip_inv ext i (s, fs)" and "handle_message ext now s fs msg = (s', fs', r)"
  shows "gossip_inv ext i (s', fs')"
  using assms
  by (cases rule: handle_message_cases [of now s msg ext fs])
    (auto simp: gossip_inv_def membership_wf_fold_merge dest: node_persist_holds)

lemma mark_dead_inv: "gossip_inv ext i (s, fs) \<Longrightarrow> gossip_inv ext i (mark_dead peer s, fs)"
  by (simp add: gossip_inv_def mark_dead_frame mark_dead_wf)

lemma rebuild_ring_inv: "gossip_inv ext i (s, fs) \<Longrightarrow> gossip_inv ext i (rebuild_ring ext now s, fs)"
proof -
  assume inv: "gossip_inv ext i (s, fs)"
  have "(hash_node (ext_mur3 ext) (ext_as_ref ext) i 0, i) \<in> ring_points (ring_cell (rebuild_ring ext now s))"
    using inv by (auto simp: gossip_inv_def rebuild_ring_points node_points_def DEFAULT_VNODE_COUNT_def)
  then have "i \<in> snd ` ring_points (ring_cell (rebuild_ring ext now s))"
    by (metis image_eqI snd_conv)
  with inv show ?thesis
    by (auto simp: gossip_inv_def rebuild_ring_frame) (simp_all add: rebuild_ring_def Let_def)
qed

lemma sweep_inv:
  "gossip_inv ext i (s, fs) \<Longrightarrow> remove_dead_members ext now s = (s', r) \<Longrightarrow> gossip_inv ext i (s', fs)"
  using remove_dead_members_frame [of ext now s] remove_dead_members_wf [of s ext now]
  by (simp add: gossip_inv_def)

lemma reset_inv:
  "gossip_inv ext i (s, fs) \<Longrightarrow>
   gossip_inv ext i (s\<lparr>membership_cell := membership_from_iter ms\<rparr>, fs)"
  by (simp add: gossip_inv_def membership_from_iter_def membership_wf_fold_merge)

text \<open>The ends of the exchanges are a message handled, a peer marked dead, or nothing.\<close>

lemma exchange_ends:
  "ping_done ext now peer outcome s fs = (s', fs', r) \<Longrightarrow>
     (s', fs') = (mark_dead peer s, fs) \<or> (\<exists>msg r. handle_message ext now s fs msg = (s', fs', r))"
  "sync_done ext now peer outcome s fs = (s', fs', r) \<Longrightarrow>
     (s', fs') = (mark_dead peer s, fs) \<or> (\<exists>msg r. handle_message ext now s fs msg = (s', fs', r))"
  "bootstrap_ping_done ext now outcome s fs = (s', fs', r) \<Longrightarrow>
     (s', fs') = (s, fs) \<or> (\<exists>msg r. handle_message ext now s fs msg = (s', fs', r))"
  "bootstrap_sync_done ext now outcome s fs = (s', fs', r) \<Longrightarrow>
     (s', fs') = (s, fs) \<or> (\<exists>msg r. handle_message ext now s fs msg = (s', fs', r))"
  by (auto simp: ping_done_def sync_done_def bootstrap_ping_done_def bootstrap_sync_done_def prod_eq_iff
      split: sum.splits gossip_message.splits)

lemma gossip_step_inv: "gossip_step ext c d \<Longrightarrow> gossip_inv ext i c \<Longrightarrow> gossip_inv ext i d"
  by (induction rule: gossip_step.induct)
    (auto dest!: exchange_ends intro: handle_message_inv mark_dead_inv reset_inv rebuild_ring_inv sweep_inv)

lemma gossip_booting_inv: "gossip_booting ext i c \<Longrightarrow> gossip_inv ext i c"
  by (auto simp: gossip_booting_def gossip_inv_def gossip_new_def ring_default_new)

interpretation gossip: invariant_system "gossip_booting ext i" "gossip_step ext" "gossip_inv ext i"
  for ext :: "('id::linorder, 'url) gossip_ext" and i :: 'id
  by unfold_locales (auto intro: gossip_booting_inv gossip_step_inv)

section \<open>Identity along a run\<close>

lemma handle_message_identity:
  "handle_message ext now s fs msg = (s', fs', r) \<Longrightarrow>
   current_node s' = current_node s \<or> current_node s' = node_advance_incarnation (current_node s)"
  by (cases rule: handle_message_cases [of now s msg ext fs]) auto

lemma gossip_step_identity:
  "gossip_step ext (s, fs) (s', fs') \<Longrightarrow>
   current_node s' = current_node s \<or> current_node s' = node_advance_incarnation (current_node s)"
  by (erule gossip_stepE)
    (auto dest!: exchange_ends dest: handle_message_identity arg_cong [where f = "\<lambda>x. current_node (fst x)"]
      simp: mark_dead_frame rebuild_ring_frame remove_dead_members_frame)

lemma gossip_run_identity:
  "(gossip_step ext)\<^sup>*\<^sup>* c d \<Longrightarrow>
   \<exists>n. current_node (fst d) = (node_advance_incarnation ^^ n) (current_node (fst c))"
proof (induction rule: rtranclp_induct)
  case base
  show ?case by (rule exI [of _ 0]) simp
next
  case (step d e)
  then obtain n where n: "current_node (fst d) = (node_advance_incarnation ^^ n) (current_node (fst c))"
    by blast
  have "current_node (fst e) = current_node (fst d) \<or>
      current_node (fst e) = node_advance_incarnation (current_node (fst d))"
    using gossip_step_identity [of ext "fst d" "snd d" "fst e" "snd e"] step.hyps by simp
  with n have "current_node (fst e) = (node_advance_incarnation ^^ n) (current_node (fst c)) \<or>
      current_node (fst e) = (node_advance_incarnation ^^ Suc n) (current_node (fst c))"
    by simp
  then show ?case by blast
qed

lemma iterate_advance:
  "(node_advance_incarnation ^^ n) i = i\<lparr>incarnation := incarnation i + of_nat n\<rparr>"
  by (induction n) (simp_all add: node_advance_incarnation_def algebra_simps)

section \<open>Sequential runs: \<open>fast_bootstrap\<close> and \<open>start\<close>\<close>

lemma for_peers_invariant:
  assumes "\<And>k peer s fs s' fs' r. I s fs \<Longrightarrow> body k peer s fs = (s', fs', r) \<Longrightarrow> I s' fs'"
    and "I s fs" and "for_peers body k peers s fs = (s', fs', r)"
  shows "I s' fs'"
  using assms(2,3)
proof (induction peers arbitrary: k s fs)
  case Nil
  then show ?case by simp
next
  case (Cons peer peers)
  obtain s1 fs1 r1 where b: "body k peer s fs = (s1, fs1, r1)" by (metis prod_cases3)
  have "I s1 fs1" using assms(1) [OF Cons.prems(1) b] .
  with Cons b show ?case by (cases r1) auto
qed

text \<open>What the exchanges keep: a property that every message keeps.\<close>

lemma bootstrap_exchange_invariant:
  assumes "\<And>now msg s fs s' fs' r. I s fs \<Longrightarrow> handle_message ext now s fs msg = (s', fs', r) \<Longrightarrow> I s' fs'"
    and "I s fs"
  shows "bootstrap_ping ext net now peer s fs = (s', fs', r) \<Longrightarrow> I s' fs'"
    and "bootstrap_sync ext net now peer s fs = (s', fs', r) \<Longrightarrow> I s' fs'"
  using assms
  by (auto simp: bootstrap_ping_def bootstrap_sync_def Let_def dest!: exchange_ends)

lemma fast_bootstrap_invariant:
  assumes msg: "\<And>now msg s fs s' fs' r. I s fs \<Longrightarrow> handle_message ext now s fs msg = (s', fs', r) \<Longrightarrow> I s' fs'"
    and ring: "\<And>now s fs. I s fs \<Longrightarrow> I (rebuild_ring ext now s) fs"
    and "I s fs" and run: "fast_bootstrap ext net now s fs = (s', fs', r)"
  shows "I s' fs'"
proof -
  obtain s1 fs1 r1 where 1: "for_peers (\<lambda>k. bootstrap_ping ext (net k) (now k)) 0 (initial_peers s) s fs
      = (s1, fs1, r1)" by (metis prod_cases3)
  have I1: "I s1 fs1"
    by (rule for_peers_invariant [where I = I, OF _ assms(3) 1]) (rule bootstrap_exchange_invariant(1) [where I = I, OF msg])
  obtain s2 fs2 r2 where 2: "for_peers (\<lambda>k. bootstrap_sync ext (net k) (now k))
      (length (initial_peers s)) (initial_peers s1) s1 fs1 = (s2, fs2, r2)" by (metis prod_cases3)
  have I2: "I s2 fs2"
    by (rule for_peers_invariant [where I = I, OF _ I1 2]) (rule bootstrap_exchange_invariant(2) [where I = I, OF msg])
  show ?thesis
    using run I1 I2 ring by (auto simp: fast_bootstrap_def Let_def 1 2 split: sum.splits)
qed

lemma fast_bootstrap_Ok_rebuilds:
  "fast_bootstrap ext net now s fs = (s', fs', Inr r) \<Longrightarrow> \<exists>s2 t. s' = rebuild_ring ext t s2"
  by (auto simp: fast_bootstrap_def Let_def split: prod.splits sum.splits)

lemma gossip_step_dir: "gossip_step ext (s, fs) (s', fs') \<Longrightarrow> dir s' = dir s"
proof -
  have h: "handle_message ext now s fs msg = (s', fs', r) \<Longrightarrow> dir s' = dir s" for now msg r
    using handle_message_frame(1) [of ext now s fs msg] by simp
  have sw: "remove_dead_members ext now s = (s', r) \<Longrightarrow> dir s' = dir s" for now r
    using remove_dead_members_frame(1) [of ext now s] by simp
  assume "gossip_step ext (s, fs) (s', fs')"
  then show ?thesis
    by (rule gossip_stepE) (auto dest!: exchange_ends dest: h sw simp: mark_dead_frame rebuild_ring_frame)
qed

lemma gossip_run_dir: "(gossip_step ext)\<^sup>*\<^sup>* c d \<Longrightarrow> dir (fst d) = dir (fst c)"
  by (induction rule: rtranclp_induct) (auto dest: gossip_step_dir)

lemma gossip_start_Ok:
  assumes "gossip_start ext net now0 now s fs = (s', fs', Inr r)"
  shows "r = Ok [PingTask, AntiEntropyTask, RebuildRingTask, RemoveDeadMembersTask] \<and>
    member_of (membership_cell s') (node_id (current_node s)) \<noteq> None \<and>
    node_id (current_node s) \<in> snd ` ring_points (ring_cell s')"
proof -
  let ?i = "node_id (current_node s)"
  let ?s0 = "s\<lparr>membership_cell := membership_from_iter [alive_now now0 (current_node s)]\<rparr>"
  let ?I = "\<lambda>s (fs :: file_system). member_of (membership_cell s) ?i \<noteq> None \<and> node_id (current_node s) = ?i"
  obtain r1 where boot: "fast_bootstrap ext net now ?s0 fs = (s', fs', Inr r1)"
      and r: "r = (if bt_is_empty (members (membership_cell s')) then
          Err (GossipError ''failed to bootstrap the cluster: no initial peer available'')
        else Ok [PingTask, AntiEntropyTask, RebuildRingTask, RemoveDeadMembersTask])"
    using assms by (auto simp: gossip_start_def Let_def split: prod.splits sum.splits)
  have "?I s' fs'"
  proof (rule fast_bootstrap_invariant [where I = ?I, OF _ _ _ boot])
    fix now' msg t g t' g' q
    assume "?I t g" and h: "handle_message ext now' t g msg = (t', g', q)"
    then show "?I t' g'"
      using handle_message_membership [of ext now' t g msg] handle_message_node_id [of ext now' t g msg]
        mt.fold_merge_mono [of "membership_cell t" ?i _ "reports now' (current_node t) msg"]
      by fastforce
  qed (simp_all add: rebuild_ring_frame)
  moreover obtain s2 t where "s' = rebuild_ring ext t s2"
    using fast_bootstrap_Ok_rebuilds [OF boot] by blast
  moreover have "node_id (current_node s2) \<in> snd ` ring_points (ring_cell (rebuild_ring ext t s2))"
    by (auto simp: rebuild_ring_points image_UN image_Un nodes_of_node_points DEFAULT_VNODE_COUNT_def)
  ultimately show ?thesis
    using r by (auto simp: bt_is_empty_iff rebuild_ring_frame)
qed

lemma gossip_start_inv:
  assumes "gossip_inv ext i (s, fs)" and "gossip_start ext net now0 now s fs = (s', fs', r)"
  shows "gossip_inv ext i (s', fs') \<and> dir s' = dir s"
proof -
  let ?s0 = "s\<lparr>membership_cell := membership_from_iter [alive_now now0 (current_node s)]\<rparr>"
  let ?I = "\<lambda>t fs. gossip_inv ext i (t, fs) \<and> dir t = dir s"
  obtain r1 where boot: "fast_bootstrap ext net now ?s0 fs = (s', fs', r1)"
    using assms(2) by (auto simp: gossip_start_def Let_def split: prod.splits sum.splits)
  show ?thesis
  proof (rule fast_bootstrap_invariant [where I = ?I, OF _ _ _ boot])
    fix now' msg t g t' g' q
    assume "?I t g" and h: "handle_message ext now' t g msg = (t', g', q)"
    then show "?I t' g'"
      using handle_message_inv handle_message_frame(1) [of ext now' t g msg] by fastforce
  next
    show "?I ?s0 fs" using reset_inv [OF assms(1)] by simp
  qed (simp add: rebuild_ring_inv rebuild_ring_frame)
qed

section \<open>Properties\<close>


lemma demo_file_holds:
  "node_persist (ext_codec demo_ext) demo_fs p (demo_node 1 0) = Inr fs \<Longrightarrow>
   node_file_holds (ext_codec demo_ext) fs p (demo_node 1 0)"
  by (rule node_persist_holds [OF demo_ext_codec_ok])

definition demo_disk :: file_system where
  "demo_disk = demo_fs\<lparr>files := [node_file_path ''/d'' \<mapsto> ''100c'']\<rparr>"

lemma demo_disk_holds: "node_file_holds (ext_codec demo_ext) demo_disk (node_file_path ''/d'') (demo_node 1 0)"
  by (rule demo_file_holds)
    (simp add: node_persist_def persistent_persist_def demo_ext_def demo_node_def demo_fs_def
      demo_disk_def fs_write_def)


text \<open>
  Along any run a node changes nothing of its identity but the incarnation, and that only upwards
  by increments of one (on 64-bit words).
\<close>
lemma gossip_identity_only_advances:
  assumes "(gossip_step ext)\<^sup>*\<^sup>* (s, fs) (s', fs')"
  shows "\<exists>n. current_node s' = current_node s\<lparr>incarnation := incarnation (current_node s) + of_nat n\<rparr>"
proof -
  obtain n where n: "current_node s' = (node_advance_incarnation ^^ n) (current_node s)"
    using gossip_run_identity [OF assms] by auto
  then show ?thesis by (auto simp: iterate_advance)
qed

lemma gossip_identity_only_advances_witness:
  "\<exists>n. current_node (rebuild_ring demo_ext 3 (demo_state [])) =
     current_node (demo_state [])\<lparr>incarnation := incarnation (current_node (demo_state [])) + of_nat n\<rparr>"
proof (rule gossip_identity_only_advances)
  show "(gossip_step demo_ext)\<^sup>*\<^sup>* (demo_state [], demo_fs) (rebuild_ring demo_ext 3 (demo_state []), demo_fs)"
    by (rule r_into_rtranclp) (rule gossip_step.rebuild)
qed

text \<open>
  \<open>start\<close> never takes its error exit: unless writing \<open>node.json\<close> panics, it spawns its four tasks,
  and then the node is a member of its own table and a node of its own ring, whatever the initial peers
  answer or fail to answer.
\<close>
lemma gossip_start_never_bails:
  assumes "gossip_start ext net now0 now s fs = (s', fs', Inr r)"
  shows "r = Ok [PingTask, AntiEntropyTask, RebuildRingTask, RemoveDeadMembersTask] \<and>
    member_of (membership_cell s') (node_id (current_node s)) \<noteq> None \<and>
    node_id (current_node s) \<in> snd ` ring_points (ring_cell s')"
  using assms by (rule gossip_start_Ok)

lemma gossip_start_never_bails_witness:
  "\<exists>s' fs' r. gossip_start demo_ext (\<lambda>_ _ _ _. None) 5 (\<lambda>_. 6) (gossip_new (demo_node 1 0) [] ''/d'') demo_disk
      = (s', fs', Inr r) \<and>
    r = Ok [PingTask, AntiEntropyTask, RebuildRingTask, RemoveDeadMembersTask] \<and>
    member_of (membership_cell s') 1 \<noteq> None \<and> 1 \<in> snd ` ring_points (ring_cell s')"
proof -
  obtain s' fs' r where h: "gossip_start demo_ext (\<lambda>_ _ _ _. None) 5 (\<lambda>_. 6)
      (gossip_new (demo_node 1 0) [] ''/d'') demo_disk = (s', fs', Inr r)"
    by (rule that) (simp add: gossip_start_def fast_bootstrap_def gossip_new_def Let_def)
  from gossip_start_never_bails [OF h] h show ?thesis by (auto simp: gossip_new_def)
qed

text \<open>
  A peer is declared dead by a ping only after all four attempts failed or one was answered with
  something else than an acknowledgement: if some attempt is answered and every answer is an \<open>Ack\<close>, the
  ping ends by handling an \<open>Ack\<close> that the peer sent.
\<close>
lemma ping_tolerates_three_failures:
  assumes "retry_ok (ext_retry ext)"
    and "i \<le> 3" and "transport_send ext (net i) (advertise_ctrl_url peer) (Ping (current_node s)) = Inr m"
    and "\<And>j m. j \<le> 3 \<Longrightarrow>
      transport_send ext (net j) (advertise_ctrl_url peer) (Ping (current_node s)) = Inr m \<Longrightarrow> \<exists>a. m = Ack a"
  shows "\<exists>j a. j \<le> 3 \<and>
    transport_send ext (net j) (advertise_ctrl_url peer) (Ping (current_node s)) = Inr (Ack a) \<and>
    ping ext net now peer s fs = ignore_reply (handle_message ext now s fs (Ack a))"
proof -
  let ?f = "\<lambda>k. transport_send ext (net k) (advertise_ctrl_url peer) (Ping (current_node s))"
  obtain m' where m': "ext_retry ext DEFAULT_RETRIES ?f = Inr m'"
    using retry_okD_Inl [OF assms(1), of DEFAULT_RETRIES ?f _ i] assms(2,3)
    by (cases "ext_retry ext DEFAULT_RETRIES ?f") (auto simp: DEFAULT_RETRIES_def)
  then obtain j where j: "j \<le> 3" "?f j = Inr m'"
    using retry_okD_Inr [OF assms(1) m'] by (auto simp: DEFAULT_RETRIES_def)
  then obtain a where "m' = Ack a" using assms(4) by blast
  with j m' show ?thesis
    by (auto simp: ping_def send_with_retry_def ping_done_def)
qed

definition demo_net :: "(nat, string) network" where
  "demo_net k u m = (if k < 3 then None else
     Some \<lparr>resp_status = 200, resp_json = Some (Ack (demo_node 2 0))\<rparr>)"

lemma demo_net_send:
  "transport_send demo_ext (demo_net j) u m =
   (if j < 3 then Err (GossipError ''failed to send message'') else Inr (Ack (demo_node 2 0)))"
  by (simp add: transport_send_def demo_ext_def demo_net_def)

lemma demo_retry_ok: "retry_ok (ext_retry demo_ext)"
  by (simp add: demo_ext_def first_ok_retry_ok)

lemma ping_tolerates_three_failures_witness:
  "\<exists>j a. j \<le> 3 \<and>
    transport_send demo_ext (demo_net j) (advertise_ctrl_url (demo_node 2 0))
      (Ping (current_node (demo_state []))) = Inr (Ack a) \<and>
    ping demo_ext demo_net 7 (demo_node 2 0) (demo_state []) demo_fs =
      ignore_reply (handle_message demo_ext 7 (demo_state []) demo_fs (Ack a))"
  by (rule ping_tolerates_three_failures [where i = 3, OF demo_retry_ok])
    (auto simp: demo_net_send split: if_splits)

end
