(* ===== verification/Proxy.thy ===== *)
theory Proxy
  imports GossipSteps
begin

text \<open>
  \<open>crates/gossip/src/proxy.rs\<close>: which node serves a key. The proxy reads the ring and the
  membership table of the gossip state and searches the ring for the first alive member. The
  lemmas reduce \<open>route\<close> to the abstract \<open>successor\<close> over the points of alive members, from which
  follow that a redirect leads to an alive member other than the node itself, that nodes with
  the same view agree on where a redirect ends, and that the death of one member moves only the
  keys that member served.
\<close>

datatype 'url route_dest = Local | RemoteAddr 'url

record ('id, 'url) proxy =
  gossip :: "('id, 'url) gossip_state"

definition proxy_new :: "('id::linorder, 'url) gossip_state \<Rightarrow> ('id, 'url) proxy" where
  "proxy_new g = \<lparr>gossip = g\<rparr>"

definition proxy_route ::
  "('id, 'url) gossip_ext \<Rightarrow> ('id::linorder, 'url) proxy \<Rightarrow> bytes \<Rightarrow> 'url route_dest" where
  "proxy_route ext p key =
     (let ring = ring_cell (gossip p);
          ms = members (membership_cell (gossip p))
      in case lookup_until (ext_mur3 ext) ring key
            (\<lambda>i. case bt_get ms i of Some member \<Rightarrow> status member = Alive | None \<Rightarrow> False) of
           Some i \<Rightarrow>
             (case bt_get ms i of
                Some target \<Rightarrow>
                  if node_id (info target) = node_id (current_node (gossip p)) then Local
                  else RemoteAddr (advertise_data_url (info target))
              | None \<Rightarrow> Local)
         | None \<Rightarrow> Local)"

section \<open>Lemmas\<close>

text \<open>The members a request may be sent to, and the points of the ring that belong to them.\<close>

definition is_alive :: "('id::linorder, 'url) membership \<Rightarrow> 'id \<Rightarrow> bool" where
  "is_alive m i \<longleftrightarrow> (case member_of m i of Some c \<Rightarrow> status c = Alive | None \<Rightarrow> False)"

definition alive_points :: "('id::linorder, 'url) gossip_state \<Rightarrow> (u32 \<times> 'id) set" where
  "alive_points s = {p \<in> ring_points (ring_cell s). is_alive (membership_cell s) (snd p)}"

lemma finite_alive_points [simp]: "finite (alive_points s)"
  by (simp add: alive_points_def)

text \<open>The node responsible for a key in the view of a gossip state.\<close>

definition serving_node ::
  "('id, 'url) gossip_ext \<Rightarrow> ('id::linorder, 'url) gossip_state \<Rightarrow> bytes \<Rightarrow> 'id option" where
  "serving_node ext s key = successor (hash_key (ext_mur3 ext) key) (alive_points s)"

lemma serving_node_alive:
  assumes "serving_node ext s key = Some i"
  shows "\<exists>c. member_of (membership_cell s) i = Some c \<and> status c = Alive"
    and "i \<in> snd ` ring_points (ring_cell s)"
  using assms successor_mem [of "alive_points s" "hash_key (ext_mur3 ext) key" i]
  by (force simp: serving_node_def alive_points_def is_alive_def split: option.splits)+

lemma lookup_until_alive:
  "lookup_until (ext_mur3 ext) (ring_cell s) key
     (\<lambda>i. case member_of (membership_cell s) i of Some c \<Rightarrow> status c = Alive | None \<Rightarrow> False) =
   serving_node ext s key"
  unfolding lookup_until_points serving_node_def alive_points_def is_alive_def by simp

lemma proxy_route_serving:
  assumes "membership_wf (membership_cell s)"
  shows "proxy_route ext (proxy_new s) key =
    (case serving_node ext s key of
       None \<Rightarrow> Local
     | Some i \<Rightarrow>
         if i = node_id (current_node s) then Local
         else RemoteAddr (advertise_data_url (info (the (member_of (membership_cell s) i)))))"
proof (cases "serving_node ext s key")
  case None
  then show ?thesis
    by (simp add: proxy_route_def proxy_new_def lookup_until_alive)
next
  case (Some i)
  then obtain c where "member_of (membership_cell s) i = Some c"
    using serving_node_alive by blast
  moreover from this have "node_id (info c) = i"
    using assms by (simp add: membership_wf_iff)
  ultimately show ?thesis
    using Some by (simp add: proxy_route_def proxy_new_def lookup_until_alive)
qed

section \<open>Properties\<close>

text \<open>
  C4: in every reachable gossip state the proxy decides for the abstract successor of the key
  among the points of alive members: local when there is none or when it is the node itself,
  and otherwise the data url under which the table knows that member.
\<close>
theorem proxy_route_refines_successor:
  assumes "gossip_booting ext i (s0, fs0)" and "(gossip_step ext)\<^sup>*\<^sup>* (s0, fs0) (s, fs)"
  shows "proxy_route ext (proxy_new s) key =
    (case successor (hash_key (ext_mur3 ext) key)
        {p \<in> ring_points (ring_cell s). is_alive (membership_cell s) (snd p)} of
       None \<Rightarrow> Local
     | Some t \<Rightarrow>
         if t = i then Local
         else RemoteAddr (advertise_data_url (info (the (member_of (membership_cell s) t)))))"
proof -
  have "gossip_inv ext i (s, fs)"
    using gossip.reachable_inv [OF assms] by simp
  then have "membership_wf (membership_cell s)" "node_id (current_node s) = i"
    by (simp_all add: gossip_inv_def)
  then show ?thesis
    by (subst proxy_route_serving) (auto simp: serving_node_def alive_points_def split: option.split)
qed

theorem proxy_route_refines_successor_witness:
  "\<exists>s fs. (gossip_step demo_ext)\<^sup>*\<^sup>* (gossip_new (demo_node 1 0) [] ''/d'', demo_disk) (s, fs) \<and>
    2 \<in> snd ` ring_points (ring_cell s) \<and>
    proxy_route demo_ext (proxy_new s) [9] =
    (case successor (hash_key (ext_mur3 demo_ext) [9])
        {p \<in> ring_points (ring_cell s). is_alive (membership_cell s) (snd p)} of
       None \<Rightarrow> Local
     | Some t \<Rightarrow>
         if t = 1 then Local
         else RemoteAddr (advertise_data_url (info (the (member_of (membership_cell s) t)))))"
proof -
  let ?init = "gossip_new (demo_node 1 0) [] ''/d'' :: (nat, string) gossip_state"
  obtain s1 fs1 r where h: "handle_message demo_ext 4 ?init demo_disk (Ping (demo_node 2 0)) = (s1, fs1, r)"
    using prod_cases3 by blast
  let ?s = "rebuild_ring demo_ext 5 s1"
  have boot: "gossip_booting demo_ext 1 (?init, demo_disk)"
    unfolding gossip_booting_def using demo_ext_codec_ok demo_disk_holds by fastforce
  have run: "(gossip_step demo_ext)\<^sup>*\<^sup>* (?init, demo_disk) (?s, fs1)"
    using gossip_step.receive [OF h] gossip_step.rebuild [of demo_ext s1 fs1 5] by auto
  have "member_of (membership_cell s1) 2 \<noteq> None"
    using handle_message_membership [of demo_ext 4 ?init demo_disk "Ping (demo_node 2 0)"] h
    by (simp add: member_of_merge)
  then have "2 \<in> snd ` ring_points (ring_cell ?s)"
    by (auto simp: rebuild_ring_points image_Un image_UN nodes_of_node_points DEFAULT_VNODE_COUNT_def)
  with run proxy_route_refines_successor [OF boot run, of "[9]"] show ?thesis by blast
qed

text \<open>
  Redirects do not loop. When the proxy of one node redirects a key, the target is an alive
  member of its ring other than itself, and a node that is this member and has the same view of
  ring and table serves the key locally.
\<close>
lemma redirect_target:
  assumes "membership_wf (membership_cell s)" and "proxy_route ext (proxy_new s) key = RemoteAddr url"
  shows "\<exists>c. member_of (membership_cell s) (node_id (info c)) = Some c \<and> status c = Alive \<and>
    advertise_data_url (info c) = url \<and> node_id (info c) \<noteq> node_id (current_node s) \<and>
    node_id (info c) \<in> snd ` ring_points (ring_cell s) \<and>
    (\<forall>t. proxy_route ext (proxy_new (t\<lparr>ring_cell := ring_cell s, membership_cell := membership_cell s,
      current_node := info c\<rparr>)) key = Local)"
proof -
  obtain i where i: "serving_node ext s key = Some i" "i \<noteq> node_id (current_node s)"
      "url = advertise_data_url (info (the (member_of (membership_cell s) i)))"
    using assms by (auto simp: proxy_route_serving split: option.splits if_splits)
  then obtain c where c: "member_of (membership_cell s) i = Some c" "status c = Alive"
    using serving_node_alive(1) by blast
  have id: "node_id (info c) = i"
    using assms(1) c by (simp add: membership_wf_iff)
  have "serving_node ext (t\<lparr>ring_cell := ring_cell s, membership_cell := membership_cell s,
      current_node := info c\<rparr>) key = Some i" for t
    using i(1) by (simp add: serving_node_def alive_points_def)
  with assms(1) id have "proxy_route ext (proxy_new (t\<lparr>ring_cell := ring_cell s,
      membership_cell := membership_cell s, current_node := info c\<rparr>)) key = Local" for t
    by (simp add: proxy_route_serving)
  with i c id serving_node_alive(2) [OF i(1)] show ?thesis
    by (intro exI [of _ c]) auto
qed

text \<open>A demonstration view: node 1 with a ring that holds node 2, and nodes 2 and 3 alive in its table.\<close>

definition demo_view :: "(nat, string) gossip_state" where
  "demo_view = (demo_state [alive_now 5 (demo_node 2 0), alive_now 5 (demo_node 3 0)])
     \<lparr>ring_cell := ring_from (ext_mur3 demo_ext) (ext_as_ref demo_ext) [2]\<rparr>"

lemma demo_view_wf: "membership_wf (membership_cell demo_view)"
  by (simp add: demo_view_def membership_from_iter_def membership_wf_fold_merge membership_wf_merge)

lemma member_of_demo_view:
  "member_of (membership_cell demo_view) i =
   (if i = 2 \<or> i = 3 then Some (alive_now 5 (demo_node i 0)) else None)"
  by (auto simp: demo_view_def membership_from_iter_def member_of_merge merged_def)

lemma demo_view_simps [simp]:
  "current_node demo_view = demo_node 1 0"
  "ring_cell demo_view = ring_from (ext_mur3 demo_ext) (ext_as_ref demo_ext) [2]"
  by (simp_all add: demo_view_def)

lemma demo_view_serving: "serving_node demo_ext demo_view key = Some 2"
proof -
  have "alive_points demo_view = node_points (ext_mur3 demo_ext) (ext_as_ref demo_ext) DEFAULT_VNODE_COUNT 2"
    by (auto simp: alive_points_def ring_from_points is_alive_def member_of_demo_view dest: snd_node_points)
  then show ?thesis
    by (simp add: serving_node_def successor_one_node default_points_nonempty snd_node_points)
qed

text \<open>
  Marking a peer dead removes its points from those of the alive members, or changes nothing when the
  table knows no such peer or a later incarnation of it.
\<close>

lemma alive_points_mark_dead:
  "alive_points (mark_dead peer s) = alive_points s \<or>
   alive_points (mark_dead peer s) = {p \<in> alive_points s. snd p \<noteq> node_id peer}"
proof (cases "\<exists>c. member_of (membership_cell s) (node_id peer) = Some c \<and> incarnation (info c) \<le> incarnation peer")
  case True
  then have "is_alive (membership_cell (mark_dead peer s)) i \<longleftrightarrow>
      is_alive (membership_cell s) i \<and> i \<noteq> node_id peer" for i
    by (auto simp: is_alive_def mark_dead_def member_of_merge merged_def split: option.splits)
  then show ?thesis
    by (auto simp: alive_points_def mark_dead_frame)
next
  case False
  then have "is_alive (membership_cell (mark_dead peer s)) i \<longleftrightarrow> is_alive (membership_cell s) i" for i
    by (auto simp: is_alive_def mark_dead_def member_of_merge merged_def not_le split: option.splits)
  then show ?thesis
    by (auto simp: alive_points_def mark_dead_frame)
qed

text \<open>
  C20: failover is local. When a peer is marked dead, every key it did not serve is still routed where it
  was routed before; a key it served is afterwards routed to another member unless the table knows a
  later incarnation of the peer.
\<close>
theorem failover_moves_only_dead_keys:
  assumes "membership_wf (membership_cell s)"
  shows "(serving_node ext s key \<noteq> Some (node_id peer) \<longrightarrow>
      proxy_route ext (proxy_new (mark_dead peer s)) key = proxy_route ext (proxy_new s) key) \<and>
    (serving_node ext (mark_dead peer s) key = Some (node_id peer) \<longrightarrow>
      (\<exists>c. member_of (membership_cell s) (node_id peer) = Some c \<and> incarnation peer < incarnation (info c)))"
proof
  let ?dead = "{p \<in> alive_points s. snd p = node_id peer}" and ?d = "hash_key (ext_mur3 ext) key"
  have split: "alive_points s = {p \<in> alive_points s. snd p \<noteq> node_id peer} \<union> ?dead" by auto
  have one: "successor ?d ({p \<in> alive_points s. snd p \<noteq> node_id peer} \<union> ?dead) =
      successor ?d {p \<in> alive_points s. snd p \<noteq> node_id peer} \<or>
    successor ?d ({p \<in> alive_points s. snd p \<noteq> node_id peer} \<union> ?dead) = Some (node_id peer)"
    by (rule successor_union_one_node) auto
  show "serving_node ext s key \<noteq> Some (node_id peer) \<longrightarrow>
      proxy_route ext (proxy_new (mark_dead peer s)) key = proxy_route ext (proxy_new s) key"
  proof
    assume other: "serving_node ext s key \<noteq> Some (node_id peer)"
    then have same: "serving_node ext (mark_dead peer s) key = serving_node ext s key"
      using alive_points_mark_dead [of peer s] one split by (auto simp: serving_node_def)
    have "member_of (membership_cell (mark_dead peer s)) i = member_of (membership_cell s) i"
      if "serving_node ext s key = Some i" for i
      using that other by (auto simp: mark_dead_def member_of_merge split: option.split)
    with same show "proxy_route ext (proxy_new (mark_dead peer s)) key = proxy_route ext (proxy_new s) key"
      using assms by (auto simp: proxy_route_serving mark_dead_wf mark_dead_frame split: option.split)
  qed
  show "serving_node ext (mark_dead peer s) key = Some (node_id peer) \<longrightarrow>
      (\<exists>c. member_of (membership_cell s) (node_id peer) = Some c \<and> incarnation peer < incarnation (info c))"
    using serving_node_alive(1) [of ext "mark_dead peer s" key "node_id peer"]
    by (auto simp: mark_dead_def member_of_merge merged_def split: option.splits if_splits)
qed

theorem failover_moves_only_dead_keys_witness:
  "proxy_route demo_ext (proxy_new (mark_dead (demo_node 3 0) demo_view)) [9] =
     proxy_route demo_ext (proxy_new demo_view) [9] \<and>
   serving_node demo_ext (mark_dead (demo_node 3 0) demo_view) [9] \<noteq> Some 3"
  using failover_moves_only_dead_keys [OF demo_view_wf, of demo_ext "[9]" "demo_node 3 0"]
  by (auto simp: demo_view_serving member_of_demo_view)

end
