(* ===== verification/Engine.thy ===== *)
theory Engine
  imports Node
begin

text \<open>
  \<open>crates/core/src/lib.rs\<close>, \<open>newtype.rs\<close> and \<open>engine.rs\<close>: the machine limits, the throttle types with
  their conversions, and the storage engine. The hybrid cache of \<open>foyer\<close> is not part of the
  repository: it is the record \<open>foyer\<close> of the functions the engine calls, and \<open>foyer_ok\<close> states the
  one thing asked of it, that it is a cache: it may forget entries at any time but never returns
  a value other than the one last written. What the engine hands to the builders of \<open>foyer\<close> is the
  record \<open>foyer_config\<close>. The conversion of a capacity through \<open>f64\<close> is written out with the rounding of
  IEEE 754.
\<close>

section \<open>Machine limits\<close>

typedef nonzero_usize = "{w :: usize. w \<noteq> 0}"
  by (rule exI [of _ 1]) simp

definition nz_get :: "nonzero_usize \<Rightarrow> usize" where
  "nz_get n = Rep_nonzero_usize n"

definition nz_one :: nonzero_usize where
  "nz_one = Abs_nonzero_usize 1"

text \<open>\<open>NonZeroUsize::try_from\<close>\<close>

definition nz_new :: "usize \<Rightarrow> nonzero_usize option" where
  "nz_new w = (if w = 0 then None else Some (Abs_nonzero_usize w))"

lemma nz_get_nonzero: "nz_get n \<noteq> 0"
  using Rep_nonzero_usize [of n] by (simp add: nz_get_def)

lemma nz_new_Some: "w \<noteq> 0 \<Longrightarrow> \<exists>n. nz_new w = Some n \<and> nz_get n = w"
  by (auto simp: nz_new_def nz_get_def Abs_nonzero_usize_inverse)

lemma nz_get_one [simp]: "nz_get nz_one = 1"
  by (simp add: nz_get_def nz_one_def Abs_nonzero_usize_inverse)

definition num_cpus :: "io_error + nonzero_usize \<Rightarrow> nonzero_usize" where
  "num_cpus available_parallelism =
     (case available_parallelism of Inr parallelism \<Rightarrow> parallelism | Inl err \<Rightarrow> nz_one)"

text \<open>\<open>ByteSize::mib\<close> and the cached memory probe: cgroup limit if there is one, less a reserve.\<close>

definition mib :: "u64 \<Rightarrow> u64" where
  "mib n = n * 1048576"

definition saturating_sub :: "'a::len word \<Rightarrow> 'a word \<Rightarrow> 'a word" where
  "saturating_sub a b = (if b \<le> a then a - b else 0)"

definition available_memory :: "u64 option \<Rightarrow> u64 \<Rightarrow> u64" where
  "available_memory cgroup_limits total_memory =
     (let mem = (case cgroup_limits of None \<Rightarrow> total_memory | Some limits \<Rightarrow> limits);
          reserved = mib 128
      in max (saturating_sub mem reserved) reserved)"

section \<open>Throttle types\<close>

datatype iops_counter = PerIo | PerIoSize nonzero_usize

record disk_throttle =
  write_iops :: "nonzero_usize option"
  read_iops :: "nonzero_usize option"
  write_throughput :: "nonzero_usize option"
  read_throughput :: "nonzero_usize option"
  iops_counter_of :: iops_counter

text \<open>The types of the same shape in \<open>foyer\<close>.\<close>

datatype foyer_iops_counter = FoyerPerIo | FoyerPerIoSize nonzero_usize

record foyer_throttle =
  fy_write_iops :: "nonzero_usize option"
  fy_read_iops :: "nonzero_usize option"
  fy_write_throughput :: "nonzero_usize option"
  fy_read_throughput :: "nonzero_usize option"
  fy_iops_counter :: foyer_iops_counter

fun iops_counter_into :: "iops_counter \<Rightarrow> foyer_iops_counter" where
  "iops_counter_into PerIo = FoyerPerIo"
| "iops_counter_into (PerIoSize sz) = FoyerPerIoSize sz"

fun iops_counter_from :: "foyer_iops_counter \<Rightarrow> iops_counter" where
  "iops_counter_from FoyerPerIo = PerIo"
| "iops_counter_from (FoyerPerIoSize sz) = PerIoSize sz"

definition throttle_into :: "disk_throttle \<Rightarrow> foyer_throttle" where
  "throttle_into value =
     \<lparr>fy_write_iops = write_iops value, fy_read_iops = read_iops value,
      fy_write_throughput = write_throughput value, fy_read_throughput = read_throughput value,
      fy_iops_counter = iops_counter_into (iops_counter_of value)\<rparr>"

definition throttle_from :: "foyer_throttle \<Rightarrow> disk_throttle" where
  "throttle_from value =
     \<lparr>write_iops = fy_write_iops value, read_iops = fy_read_iops value,
      write_throughput = fy_write_throughput value, read_throughput = fy_read_throughput value,
      iops_counter_of = iops_counter_from (fy_iops_counter value)\<rparr>"

text \<open>The newtype around \<open>bytesize::ByteSize\<close>, a number of bytes.\<close>

datatype byte_size = ByteSize u64

definition byte_size_default :: byte_size where
  "byte_size_default = ByteSize 0"

fun byte_size_into :: "byte_size \<Rightarrow> u64" where
  "byte_size_into (ByteSize value) = value"

definition byte_size_from :: "u64 \<Rightarrow> byte_size" where
  "byte_size_from value = ByteSize value"

fun byte_size_deref :: "byte_size \<Rightarrow> u64" where
  "byte_size_deref (ByteSize value) = value"

text \<open>A mutable reference is the update it allows.\<close>

fun byte_size_deref_mut :: "(u64 \<Rightarrow> u64) \<Rightarrow> byte_size \<Rightarrow> byte_size" where
  "byte_size_deref_mut f (ByteSize value) = ByteSize (f value)"

lemma byte_size_conversions:
  "byte_size_into (byte_size_from v) = v" "byte_size_from (byte_size_into b) = b"
  "byte_size_deref (byte_size_deref_mut f b) = f (byte_size_deref b)"
  by (cases b; simp add: byte_size_from_def)+

section \<open>The engine\<close>

definition DEFAULT_BLOCK_SIZE :: u64 where "DEFAULT_BLOCK_SIZE = mib 64"
definition DEFAULT_FLUSHERS :: usize where "DEFAULT_FLUSHERS = 4"

text \<open>
  \<open>n as f64\<close> for a \<open>u64\<close>: rounding to the nearest multiple of the unit in the last place of a 53-bit
  significand, ties to even.
\<close>

fun bit_len :: "nat \<Rightarrow> nat" where
  "bit_len n = (if n = 0 then 0 else Suc (bit_len (n div 2)))"

declare bit_len.simps [simp del]

definition as_f64 :: "nat \<Rightarrow> nat" where
  "as_f64 n =
     (let e = bit_len n - 53; q = n div 2 ^ e; r = n mod 2 ^ e in
      if e = 0 then n
      else (if 2 * r > 2 ^ e \<or> 2 * r = 2 ^ e \<and> odd q then q + 1 else q) * 2 ^ e)"

text \<open>
  \<open>(memory_capacity.0 as f64 * DEFAULT_MEMORY_CAPACITY_FACTOR) as usize\<close> with the factor 0.5: halving a
  double is exact, and the cast back truncates and saturates.
\<close>

definition memory_budget :: "u64 \<Rightarrow> usize" where
  "memory_budget memory_capacity = of_nat (min (as_f64 (unat memory_capacity) div 2) (2 ^ 64 - 1))"

text \<open>What the builders of \<open>foyer\<close> are told.\<close>

datatype io_engine = Uring bool | Psync

datatype cache_policy = WriteOnEviction | WriteOnInsertion

datatype recover_mode = RecoverNone | RecoverQuiet | RecoverStrict

record foyer_config =
  cfg_dir :: string
  cfg_device_capacity :: usize
  cfg_throttle :: foyer_throttle
  cfg_policy :: cache_policy
  cfg_metrics :: bool
  cfg_memory :: usize
  cfg_weighter :: "bytes \<Rightarrow> bytes \<Rightarrow> nat"
  cfg_shards :: usize
  cfg_recover_concurrency :: usize
  cfg_block_size :: usize
  cfg_flushers :: usize
  cfg_io_engine :: io_engine
  cfg_recover_mode :: recover_mode

record foyer_stats =
  stat_disk_read_bytes :: usize
  stat_disk_write_bytes :: usize
  stat_disk_read_ios :: usize
  stat_disk_write_ios :: usize

record 'c foyer =
  fy_build_device :: "string \<Rightarrow> usize \<Rightarrow> foyer_throttle \<Rightarrow> string + unit"
  fy_build :: "foyer_config \<Rightarrow> string + 'c"
  fy_get :: "bytes \<Rightarrow> 'c \<Rightarrow> 'c \<times> (string + bytes option)"
  fy_insert :: "bytes \<Rightarrow> bytes \<Rightarrow> 'c \<Rightarrow> 'c"
  fy_remove :: "bytes \<Rightarrow> 'c \<Rightarrow> 'c"
  fy_statistics :: "'c \<Rightarrow> foyer_stats"

datatype engine_error = EngineError string

record 'c foyer_engine =
  inner :: 'c
  capacity_of :: u64

text \<open>
  The directories of the machine: \<open>create_dir_all\<close> makes a path and its ancestors, or fails as a whole.
\<close>

record dir_tree =
  dirs :: "string list"
  creatable :: "string \<Rightarrow> bool"

definition ancestors :: "string \<Rightarrow> string list" where
  "ancestors path = path # map (\<lambda>i. take i path) (filter (\<lambda>i. path ! i = CHR ''/'') [1..<length path])"

definition create_dir_all :: "string \<Rightarrow> dir_tree \<Rightarrow> dir_tree \<times> (io_error + unit)" where
  "create_dir_all path t =
     (if path \<in> set (dirs t) then (t, Ok ())
      else if creatable t path then (t\<lparr>dirs := ancestors path @ dirs t\<rparr>, Ok ())
      else (t, Err IoError))"

text \<open>\<open>quota.try_into().unwrap()\<close>\<close>

definition nz_unwrap :: "usize \<Rightarrow> panic + nonzero_usize" where
  "nz_unwrap w = (case nz_new w of None \<Rightarrow> Err UnwrapNone | Some n \<Rightarrow> Ok n)"

definition default_throttle :: "nonzero_usize \<Rightarrow> panic + foyer_throttle" where
  "default_throttle cpus =
     (let DEFAULT_THROUGHPUT_PER_CORE = 187500000 :: usize;
          IOPS_PER_CORE = 10000 :: usize;
          throughput = DEFAULT_THROUGHPUT_PER_CORE * nz_get cpus;
          write_throughput_quota = throughput div 4;
          read_throughput_quota = throughput - write_throughput_quota;
          iops = IOPS_PER_CORE * nz_get cpus;
          write_iops_quota = iops div 4;
          read_iops_quota = iops - write_iops_quota
      in case nz_unwrap write_iops_quota of Inl p \<Rightarrow> Err p | Inr wi \<Rightarrow>
         (case nz_unwrap read_iops_quota of Inl p \<Rightarrow> Err p | Inr ri \<Rightarrow>
         (case nz_unwrap write_throughput_quota of Inl p \<Rightarrow> Err p | Inr wt \<Rightarrow>
         (case nz_unwrap read_throughput_quota of Inl p \<Rightarrow> Err p | Inr rt \<Rightarrow>
            Ok \<lparr>fy_write_iops = Some wi, fy_read_iops = Some ri, fy_write_throughput = Some wt,
                fy_read_throughput = Some rt, fy_iops_counter = FoyerPerIo\<rparr>))))"

definition engine_config ::
  "string \<Rightarrow> u64 \<Rightarrow> foyer_throttle \<Rightarrow> bool \<Rightarrow> u64 \<Rightarrow> usize \<Rightarrow> foyer_config" where
  "engine_config data_dir disk_capacity th metrics_registry memory_capacity parallelism =
     \<lparr>cfg_dir = data_dir, cfg_device_capacity = disk_capacity, cfg_throttle = th,
      cfg_policy = WriteOnEviction, cfg_metrics = metrics_registry,
      cfg_memory = memory_budget memory_capacity,
      cfg_weighter = (\<lambda>key value. length key + length value),
      cfg_shards = max parallelism 32, cfg_recover_concurrency = parallelism,
      cfg_block_size = DEFAULT_BLOCK_SIZE, cfg_flushers = DEFAULT_FLUSHERS,
      cfg_io_engine = Uring True, cfg_recover_mode = RecoverQuiet\<rparr>"

text \<open>
  \<open>FoyerEngine::try_new\<close> on Linux; a panic is the left side of the outer sum, an \<open>EngineError\<close> the left
  side of the inner one.
\<close>

definition try_new ::
  "'c foyer \<Rightarrow> nonzero_usize \<Rightarrow> string \<Rightarrow> u64 \<Rightarrow> u64 \<Rightarrow> disk_throttle option \<Rightarrow> bool \<Rightarrow> dir_tree \<Rightarrow>
   dir_tree \<times> (panic + (engine_error + 'c foyer_engine))" where
  "try_new fy cpus data_dir memory_capacity disk_capacity throttle metrics_registry t =
     (let (t', _) = create_dir_all data_dir t in
      if data_dir \<notin> set (dirs t') then
        (t', Ok (Err (EngineError (''failed to create data dir: '' @ data_dir))))
      else
        (t', case (case throttle of Some th \<Rightarrow> Ok (throttle_into th) | None \<Rightarrow> default_throttle cpus) of
           Inl p \<Rightarrow> Err p
         | Inr th \<Rightarrow> Ok
            (case fy_build_device fy data_dir disk_capacity th of
               Inl err \<Rightarrow> Err (EngineError (''failed to create device: '' @ err))
             | Inr _ \<Rightarrow>
                 let parallelism = nz_get cpus in
                 (case fy_build fy
                    (engine_config data_dir disk_capacity th metrics_registry memory_capacity parallelism) of
                    Inl err \<Rightarrow> Err (EngineError err)
                  | Inr cache \<Rightarrow> Ok \<lparr>inner = cache, capacity_of = disk_capacity\<rparr>))))"

definition engine_get :: "'c foyer \<Rightarrow> bytes \<Rightarrow> 'c foyer_engine \<Rightarrow> 'c foyer_engine \<times> bytes option" where
  "engine_get fy key e =
     (let (c, r) = fy_get fy key (inner e) in
      (e\<lparr>inner := c\<rparr>, case r of Inr (Some value) \<Rightarrow> Some value | _ \<Rightarrow> None))"

definition engine_put :: "'c foyer \<Rightarrow> bytes \<Rightarrow> bytes \<Rightarrow> 'c foyer_engine \<Rightarrow> 'c foyer_engine" where
  "engine_put fy key value e = e\<lparr>inner := fy_insert fy key value (inner e)\<rparr>"

definition engine_delete :: "'c foyer \<Rightarrow> bytes \<Rightarrow> 'c foyer_engine \<Rightarrow> 'c foyer_engine" where
  "engine_delete fy key e = e\<lparr>inner := fy_remove fy key (inner e)\<rparr>"

definition engine_capacity :: "'c foyer_engine \<Rightarrow> u64" where
  "engine_capacity e = capacity_of e"

definition engine_statistics :: "'c foyer \<Rightarrow> 'c foyer_engine \<Rightarrow> foyer_stats" where
  "engine_statistics fy e = fy_statistics fy (inner e)"

section \<open>What the engine relies on and what it promises\<close>

text \<open>
  The law of a cache, relative to the entries it may still hold: reading returns nothing else than
  such an entry and adds none, inserting adds at most the inserted entry in place of older ones for
  the key, removing leaves none for the key. Evictions at any moment are allowed.
\<close>

definition foyer_ok :: "'c foyer \<Rightarrow> ('c \<Rightarrow> bytes \<rightharpoonup> bytes) \<Rightarrow> bool" where
  "foyer_ok fy contents \<longleftrightarrow>
     (\<forall>k c. contents (fst (fy_get fy k c)) \<subseteq>\<^sub>m contents c) \<and>
     (\<forall>k c v. snd (fy_get fy k c) = Inr (Some v) \<longrightarrow> contents c k = Some v) \<and>
     (\<forall>k v c. contents (fy_insert fy k v c) \<subseteq>\<^sub>m (contents c)(k \<mapsto> v)) \<and>
     (\<forall>k c. contents (fy_remove fy k c) \<subseteq>\<^sub>m (contents c)(k := None))"

datatype cache_op = GetOp bytes | PutOp bytes bytes | DeleteOp bytes

fun engine_op :: "'c foyer \<Rightarrow> cache_op \<Rightarrow> 'c foyer_engine \<Rightarrow> 'c foyer_engine" where
  "engine_op fy (GetOp k) e = fst (engine_get fy k e)"
| "engine_op fy (PutOp k v) e = engine_put fy k v e"
| "engine_op fy (DeleteOp k) e = engine_delete fy k e"

text \<open>The reference store: a map that never forgets.\<close>

fun map_op :: "cache_op \<Rightarrow> (bytes \<rightharpoonup> bytes) \<Rightarrow> bytes \<rightharpoonup> bytes" where
  "map_op (GetOp k) m = m"
| "map_op (PutOp k v) m = m(k \<mapsto> v)"
| "map_op (DeleteOp k) m = m(k := None)"

lemma map_le_cong: "m \<subseteq>\<^sub>m m' \<Longrightarrow> m(k := x) \<subseteq>\<^sub>m m'(k := x)"
  by (auto simp: map_le_def)

lemma map_le_at: "m \<subseteq>\<^sub>m m' \<Longrightarrow> m k = None \<or> m k = m' k"
  by (cases "m k") (auto simp: map_le_def dom_def)

lemma contents_put: "foyer_ok fy contents \<Longrightarrow> contents (inner (engine_put fy k v e)) k \<in> {None, Some v}"
  using map_le_at [of "contents (fy_insert fy k v (inner e))" "(contents (inner e))(k \<mapsto> v)" k]
  by (auto simp: foyer_ok_def engine_put_def)

lemma contents_delete: "foyer_ok fy contents \<Longrightarrow> contents (inner (engine_delete fy k e)) k = None"
  using map_le_at [of "contents (fy_remove fy k (inner e))" "(contents (inner e))(k := None)" k]
  by (auto simp: foyer_ok_def engine_delete_def)

lemma engine_op_refines:
  assumes "foyer_ok fy contents" and "contents (inner e) \<subseteq>\<^sub>m m"
  shows "contents (inner (engine_op fy a e)) \<subseteq>\<^sub>m map_op a m"
proof (cases a)
  case (GetOp k)
  have "contents (fst (fy_get fy k (inner e))) \<subseteq>\<^sub>m contents (inner e)"
    using assms(1) by (simp add: foyer_ok_def)
  then have "contents (fst (fy_get fy k (inner e))) \<subseteq>\<^sub>m m"
    using assms(2) by (rule map_le_trans)
  with GetOp show ?thesis by (simp add: engine_get_def case_prod_unfold Let_def)
next
  case (PutOp k v)
  have "contents (fy_insert fy k v (inner e)) \<subseteq>\<^sub>m (contents (inner e))(k \<mapsto> v)"
    using assms(1) by (simp add: foyer_ok_def)
  then have "contents (fy_insert fy k v (inner e)) \<subseteq>\<^sub>m m(k \<mapsto> v)"
    using map_le_cong [OF assms(2)] by (rule map_le_trans)
  with PutOp show ?thesis by (simp add: engine_put_def)
next
  case (DeleteOp k)
  have "contents (fy_remove fy k (inner e)) \<subseteq>\<^sub>m (contents (inner e))(k := None)"
    using assms(1) by (simp add: foyer_ok_def)
  then have "contents (fy_remove fy k (inner e)) \<subseteq>\<^sub>m m(k := None)"
    using map_le_cong [OF assms(2)] by (rule map_le_trans)
  with DeleteOp show ?thesis by (simp add: engine_delete_def)
qed

lemma engine_run_refines:
  assumes "foyer_ok fy contents" and "contents (inner e) \<subseteq>\<^sub>m m"
  shows "contents (inner (fold (engine_op fy) ops e)) \<subseteq>\<^sub>m fold map_op ops m"
  using assms(2)
proof (induction ops arbitrary: e m)
  case (Cons a ops)
  then show ?case using engine_op_refines [OF assms(1)] by simp
qed simp

lemma engine_get_contents:
  assumes "foyer_ok fy contents" and "snd (engine_get fy k e) = Some v"
  shows "contents (inner e) k = Some v"
  using assms by (auto simp: foyer_ok_def engine_get_def split: prod.splits sum.splits option.splits)

lemma throttle_from_into [simp]: "throttle_from (throttle_into t) = t"
  by (cases "iops_counter_of t") (simp_all add: throttle_from_def throttle_into_def)

lemma throttle_into_from [simp]: "throttle_into (throttle_from t) = t"
  by (cases "fy_iops_counter t") (simp_all add: throttle_from_def throttle_into_def)

lemma bit_len_le: "n < 2 ^ k \<Longrightarrow> bit_len n \<le> k"
proof (induction k arbitrary: n)
  case 0
  then show ?case by (simp add: bit_len.simps)
next
  case (Suc k)
  then have "bit_len (n div 2) \<le> k" by simp
  then show ?case by (subst bit_len.simps) simp
qed

lemma as_f64_exact: "n < 2 ^ 53 \<Longrightarrow> as_f64 n = n"
  using bit_len_le [of n 53] by (simp add: as_f64_def)

text \<open>Rounding moves a value by at most half a unit in the last place.\<close>

lemma round_near:
  fixes p q r :: nat
  assumes "r < p" "p \<le> 2 ^ 11"
  shows "(if 2 * r > p \<or> 2 * r = p \<and> odd q then q + 1 else q) * p \<le> q * p + r + 2 ^ 10 \<and>
    q * p + r \<le> (if 2 * r > p \<or> 2 * r = p \<and> odd q then q + 1 else q) * p + 2 ^ 10"
  using assms by auto

lemma as_f64_near:
  fixes n :: nat
  assumes "n < 2 ^ 64"
  shows "as_f64 n \<le> n + 2 ^ 10 \<and> n \<le> as_f64 n + 2 ^ 10"
proof -
  define e where "e = bit_len n - 53"
  have "e \<le> 11" using bit_len_le [OF assms] by (simp add: e_def)
  then have half: "2 ^ e \<le> (2 ^ 11 :: nat)" by (intro power_increasing) auto
  have n: "n = n div 2 ^ e * 2 ^ e + n mod 2 ^ e" by (rule div_mult_mod_eq [symmetric])
  have r: "n mod 2 ^ e < 2 ^ e" by simp
  show ?thesis
    using round_near [OF r half, of "n div 2 ^ e"] n
    unfolding as_f64_def Let_def e_def [symmetric] by (cases "e = 0") (simp_all split del: if_split)
qed

lemma available_memory_bounds:
  "mib 128 \<le> available_memory cgroup tm \<and>
   available_memory cgroup tm \<le> max (case cgroup of None \<Rightarrow> tm | Some l \<Rightarrow> l) (mib 128)"
proof -
  have sub: "saturating_sub a b \<le> a" for a b :: u64
    by (simp add: saturating_sub_def word_sub_le)
  show ?thesis
    using sub [of "case cgroup of None \<Rightarrow> tm | Some l \<Rightarrow> l" "mib 128"]
    by (simp add: available_memory_def Let_def max.coboundedI1)
qed

lemma nz_unwrap_Ok: "w \<noteq> 0 \<Longrightarrow> \<exists>n. nz_unwrap w = Inr n \<and> nz_get n = w"
  using nz_new_Some [of w] by (auto simp: nz_unwrap_def)

lemma unat_mult_bounded:
  fixes a b :: u64
  assumes "unat a * unat b < 2 ^ 64"
  shows "unat (a * b) = unat a * unat b"
  using assms by (simp add: unat_word_ariths)

text \<open>A quarter of a per-core quota for writes and the rest for reads; neither is zero.\<close>

lemma quota_split:
  fixes q n :: usize
  assumes "4 \<le> q" "q \<le> 2 ^ 31" "n \<noteq> 0" "n \<le> 2 ^ 32"
  shows "(q * n) div 4 \<noteq> 0 \<and> q * n - (q * n) div 4 \<noteq> 0 \<and>
    unat ((q * n) div 4) + unat (q * n - (q * n) div 4) = unat q * unat n \<and>
    unat ((q * n) div 4) = unat q * unat n div 4"
proof -
  have b: "4 \<le> unat q" "unat q \<le> 2 ^ 31" "1 \<le> unat n" "unat n \<le> 2 ^ 32"
    using assms by (simp_all add: word_le_nat_alt unat_gt_0 Suc_le_eq)
  then have "unat q * unat n \<le> 2 ^ 31 * 2 ^ 32" by (intro mult_le_mono)
  then have m: "unat (q * n) = unat q * unat n"
    by (intro unat_mult_bounded) simp
  have d: "unat ((q * n) div 4) = unat q * unat n div 4"
    by (simp add: unat_div m)
  have "4 * 1 \<le> unat q * unat n" using b by (intro mult_le_mono) auto
  then have pos: "0 < unat q * unat n div 4" by simp
  have le: "(q * n) div 4 \<le> q * n" by (simp add: word_le_nat_alt d m)
  have s: "unat (q * n - (q * n) div 4) = unat q * unat n - unat q * unat n div 4"
    using le by (simp add: unat_sub d m)
  have "unat ((q * n) div 4) \<noteq> 0" "unat (q * n - (q * n) div 4) \<noteq> 0"
    unfolding d s using pos by auto
  then show ?thesis using d s by (auto simp: unat_eq_zero)
qed

lemma default_throttle_Ok:
  assumes "nz_get cpus \<le> 2 ^ 32"
  shows "\<exists>wi ri wt rt. default_throttle cpus = Inr \<lparr>fy_write_iops = Some wi, fy_read_iops = Some ri,
      fy_write_throughput = Some wt, fy_read_throughput = Some rt, fy_iops_counter = FoyerPerIo\<rparr> \<and>
    unat (nz_get wi) = 10000 * unat (nz_get cpus) div 4 \<and>
    unat (nz_get wi) + unat (nz_get ri) = 10000 * unat (nz_get cpus) \<and>
    unat (nz_get wt) = 187500000 * unat (nz_get cpus) div 4 \<and>
    unat (nz_get wt) + unat (nz_get rt) = 187500000 * unat (nz_get cpus)"
proof -
  let ?n = "nz_get cpus" and ?i = "10000 :: usize" and ?t = "187500000 :: usize"
  have i: "(?i * ?n) div 4 \<noteq> 0 \<and> ?i * ?n - (?i * ?n) div 4 \<noteq> 0 \<and>
      unat ((?i * ?n) div 4) + unat (?i * ?n - (?i * ?n) div 4) = unat ?i * unat ?n \<and>
      unat ((?i * ?n) div 4) = unat ?i * unat ?n div 4"
    using assms by (intro quota_split) (simp_all add: nz_get_nonzero word_le_nat_alt)
  have t: "(?t * ?n) div 4 \<noteq> 0 \<and> ?t * ?n - (?t * ?n) div 4 \<noteq> 0 \<and>
      unat ((?t * ?n) div 4) + unat (?t * ?n - (?t * ?n) div 4) = unat ?t * unat ?n \<and>
      unat ((?t * ?n) div 4) = unat ?t * unat ?n div 4"
    using assms by (intro quota_split) (simp_all add: nz_get_nonzero word_le_nat_alt)
  obtain wi where wi: "nz_unwrap ((?i * ?n) div 4) = Inr wi" "nz_get wi = (?i * ?n) div 4"
    using nz_unwrap_Ok i by blast
  obtain ri where ri: "nz_unwrap (?i * ?n - (?i * ?n) div 4) = Inr ri" "nz_get ri = ?i * ?n - (?i * ?n) div 4"
    using nz_unwrap_Ok i by blast
  obtain wt where wt: "nz_unwrap ((?t * ?n) div 4) = Inr wt" "nz_get wt = (?t * ?n) div 4"
    using nz_unwrap_Ok t by blast
  obtain rt where rt: "nz_unwrap (?t * ?n - (?t * ?n) div 4) = Inr rt" "nz_get rt = ?t * ?n - (?t * ?n) div 4"
    using nz_unwrap_Ok t by blast
  have "default_throttle cpus = Inr \<lparr>fy_write_iops = Some wi, fy_read_iops = Some ri,
      fy_write_throughput = Some wt, fy_read_throughput = Some rt, fy_iops_counter = FoyerPerIo\<rparr>"
    unfolding default_throttle_def Let_def wi(1) ri(1) wt(1) rt(1) by simp
  then show ?thesis using i t wi(2) ri(2) wt(2) rt(2) by auto
qed

section \<open>Properties\<close>

text \<open>
  The engine is coherent: whatever sequence of operations ran since it was empty, reading a key
  returns nothing or exactly the value last put for it and not deleted since; a deleted or
  overwritten value never comes back.
\<close>
lemma engine_never_stale:
  assumes "foyer_ok fy contents" and "contents (inner e) = Map.empty"
  shows "snd (engine_get fy k (fold (engine_op fy) ops e)) \<in> {None, fold map_op ops Map.empty k}"
proof (cases "snd (engine_get fy k (fold (engine_op fy) ops e))")
  case (Some v)
  then have "contents (inner (fold (engine_op fy) ops e)) k = Some v"
    by (rule engine_get_contents [OF assms(1)])
  moreover have "contents (inner (fold (engine_op fy) ops e)) \<subseteq>\<^sub>m fold map_op ops Map.empty"
    using assms by (intro engine_run_refines) auto
  ultimately have "fold map_op ops Map.empty k = Some v"
    by (force simp: map_le_def)
  with Some show ?thesis by simp
qed simp

text \<open>A cache that keeps the last inserted entry only, for the witnesses.\<close>

definition demo_foyer :: "(bytes \<rightharpoonup> bytes) foyer" where
  "demo_foyer = \<lparr>fy_build_device = (\<lambda>_ _ _. Ok ()), fy_build = (\<lambda>_. Ok Map.empty),
     fy_get = (\<lambda>k c. (c, Ok (c k))), fy_insert = (\<lambda>k v c. [k \<mapsto> v]),
     fy_remove = (\<lambda>k c. c(k := None)),
     fy_statistics = (\<lambda>_. \<lparr>stat_disk_read_bytes = 0, stat_disk_write_bytes = 0,
       stat_disk_read_ios = 0, stat_disk_write_ios = 0\<rparr>)\<rparr>"

lemma demo_foyer_ok: "foyer_ok demo_foyer id"
  by (auto simp: foyer_ok_def demo_foyer_def map_le_def)

lemma engine_never_stale_witness:
  "snd (engine_get demo_foyer [1] (fold (engine_op demo_foyer) [PutOp [1] [7], PutOp [2] [8], DeleteOp [2]]
       \<lparr>inner = Map.empty, capacity_of = 0\<rparr>)) \<in>
     {None, fold map_op [PutOp [1] [7], PutOp [2] [8], DeleteOp [2]] Map.empty [1]}"
  by (rule engine_never_stale [OF demo_foyer_ok]) simp

text \<open>
  On a machine of up to \<open>2 ^ 32\<close> CPUs the default throttle is computed without panicking, all four
  limits are positive, a quarter of each budget is for writes and nothing of the budget is lost.
\<close>
lemma default_throttle_quotas:
  assumes "nz_get cpus \<le> 2 ^ 32"
  shows "\<exists>wi ri wt rt. default_throttle cpus = Inr \<lparr>fy_write_iops = Some wi, fy_read_iops = Some ri,
      fy_write_throughput = Some wt, fy_read_throughput = Some rt, fy_iops_counter = FoyerPerIo\<rparr> \<and>
    unat (nz_get wi) = 10000 * unat (nz_get cpus) div 4 \<and>
    unat (nz_get wi) + unat (nz_get ri) = 10000 * unat (nz_get cpus) \<and>
    unat (nz_get wt) = 187500000 * unat (nz_get cpus) div 4 \<and>
    unat (nz_get wt) + unat (nz_get rt) = 187500000 * unat (nz_get cpus)"
  using assms by (rule default_throttle_Ok)

lemma default_throttle_quotas_witness:
  "\<exists>wi ri wt rt. default_throttle nz_one = Inr \<lparr>fy_write_iops = Some wi, fy_read_iops = Some ri,
      fy_write_throughput = Some wt, fy_read_throughput = Some rt, fy_iops_counter = FoyerPerIo\<rparr> \<and>
    unat (nz_get wi) = 2500 \<and> unat (nz_get wi) + unat (nz_get ri) = 10000 \<and>
    unat (nz_get wt) = 46875000 \<and> unat (nz_get wt) + unat (nz_get rt) = 187500000"
  using default_throttle_quotas [of nz_one] by (simp add: word_le_nat_alt)

text \<open>
  The memory given to the cache is half the configured capacity, exactly below \<open>2 ^ 53\<close> bytes, and
  never further from it than the rounding of the double allows.
\<close>
lemma memory_budget_half:
  "(if unat m < 2 ^ 53 then unat (memory_budget m) = unat m div 2
    else 2 * unat (memory_budget m) \<le> unat m + 2 ^ 10 \<and> unat m \<le> 2 * unat (memory_budget m) + 2 ^ 10 + 1)"
proof -
  have m: "unat m < 2 ^ 64" using unsigned_less [of m] by simp
  have "as_f64 (unat m) div 2 < 2 ^ 64" using as_f64_near [OF m] m
    by (simp add: div_less_iff_less_mult)
  then have b: "unat (memory_budget m) = as_f64 (unat m) div 2"
    by (simp add: memory_budget_def unat_of_nat)
  show ?thesis
    using as_f64_near [OF m] as_f64_exact [of "unat m"] unfolding b by auto
qed

text \<open>
  Opening the engine never panics on a machine of up to \<open>2 ^ 32\<close> CPUs. It fails with an error before
  touching the cache when the data directory neither exists nor can be created; when it succeeds the
  directory exists, the cache was built for it with the configured capacity and throttle, half the
  memory and at least 32 shards, and the engine reports the configured capacity.
\<close>
lemma try_new_outcome:
  assumes "nz_get cpus \<le> 2 ^ 32"
  shows "\<exists>t' r. try_new fy cpus d mc dc th reg t = (t', Ok r) \<and>
    (d \<notin> set (dirs t) \<and> \<not> creatable t d \<longrightarrow>
       t' = t \<and> r = Err (EngineError (''failed to create data dir: '' @ d))) \<and>
    (\<forall>e. r = Ok e \<longrightarrow> d \<in> set (dirs t') \<and> engine_capacity e = dc \<and>
       (\<exists>cfg. fy_build fy cfg = Ok (inner e) \<and> cfg_dir cfg = d \<and> cfg_device_capacity cfg = dc \<and>
          cfg_memory cfg = memory_budget mc \<and> 32 \<le> cfg_shards cfg \<and>
          (case th of Some x \<Rightarrow> throttle_from (cfg_throttle cfg) = x
           | None \<Rightarrow> default_throttle cpus = Ok (cfg_throttle cfg))))"
proof -
  let ?th = "case th of Some x \<Rightarrow> Ok (throttle_into x) | None \<Rightarrow> default_throttle cpus"
  obtain x where x: "?th = Ok x"
    using default_throttle_Ok [OF assms] by (cases th) auto
  have th: "case th of Some y \<Rightarrow> throttle_from x = y | None \<Rightarrow> default_throttle cpus = Ok x"
    using x by (auto split: option.splits)
  let ?cfg = "engine_config d dc x reg mc (nz_get cpus)"
  obtain t' u where c: "create_dir_all d t = (t', u)" by force
  have fail: "t' = t \<and> d \<notin> set (dirs t')" if "d \<notin> set (dirs t)" "\<not> creatable t d"
    using c that by (auto simp: create_dir_all_def)
  show ?thesis
  proof (cases "d \<in> set (dirs t')")
    case False
    then show ?thesis using fail by (simp add: try_new_def c)
  next
    case True
    have built: "\<exists>cfg. fy_build fy cfg = Ok cache \<and> cfg_dir cfg = d \<and> cfg_device_capacity cfg = dc \<and>
        cfg_memory cfg = memory_budget mc \<and> 32 \<le> cfg_shards cfg \<and>
        (case th of Some x \<Rightarrow> throttle_from (cfg_throttle cfg) = x
         | None \<Rightarrow> default_throttle cpus = Ok (cfg_throttle cfg))"
      if "fy_build fy ?cfg = Ok cache" for cache
      using that th by (intro exI [of _ ?cfg]) (cases th; simp add: engine_config_def)
    from True have ok: "\<not> (d \<notin> set (dirs t) \<and> \<not> creatable t d)" using fail by blast
    show ?thesis
      unfolding try_new_def c x Let_def
      using True ok built
      by (auto simp: engine_capacity_def split: sum.splits)
  qed
qed

lemma try_new_outcome_witness:
  "\<exists>t' r. try_new demo_foyer nz_one ''/data'' 1000 2000 None True \<lparr>dirs = [''/''], creatable = (\<lambda>_. True)\<rparr>
     = (t', Ok r)"
  using try_new_outcome [of nz_one demo_foyer "''/data''" 1000 2000 None True
      "\<lparr>dirs = [''/''], creatable = (\<lambda>_. True)\<rparr>"] by (auto simp: word_le_nat_alt)

end
