(* ===== verification/Metrics.thy ===== *)
theory Metrics
  imports Engine
begin

text \<open>
  \<open>crates/metrics/src/lib.rs\<close> and \<open>crates/server/src/scheduled.rs\<close>: the instruments and the scheduled
  report of disk statistics. What \<open>opentelemetry\<close> does with a measurement is not part of the
  repository; the model keeps the measurements themselves, in order, as the log that every
  instrumented operation extends. Durations are nanoseconds; the boundaries of the histogram are
  given in tenths of a millisecond.
\<close>

section \<open>Instruments\<close>

datatype instrument_kind = U64Counter | U64Gauge | F64Histogram "nat list"

record instrument =
  ins_kind :: instrument_kind
  ins_name :: string
  ins_description :: string
  ins_unit :: "string option"

type_synonym label = "string \<times> string"

datatype measurement =
    CounterAdd instrument u64 "label list"
  | GaugeRecord instrument u64 "label list"
  | HistogramRecord instrument int "label list"

type_synonym metrics_log = "measurement list"

record storage_io_metrics =
  io_count :: instrument
  io_bytes :: instrument

record storage_metrics =
  st_capacity :: instrument
  st_used :: instrument
  st_io :: storage_io_metrics

record operation_metrics =
  op_count :: instrument
  op_bytes :: instrument
  op_duration :: instrument

record global_metrics =
  meter :: string
  storage :: storage_metrics
  operation :: operation_metrics

definition storage_io_metrics_new :: storage_io_metrics where
  "storage_io_metrics_new =
     \<lparr>io_count = \<lparr>ins_kind = U64Counter, ins_name = ''percas.storage.io.count'',
        ins_description = ''The number of IOs'', ins_unit = None\<rparr>,
      io_bytes = \<lparr>ins_kind = U64Counter, ins_name = ''percas.storage.io.bytes'',
        ins_description = ''The number of IO bytes'', ins_unit = Some ''byte''\<rparr>\<rparr>"

definition storage_metrics_new :: storage_metrics where
  "storage_metrics_new =
     \<lparr>st_capacity = \<lparr>ins_kind = U64Gauge, ins_name = ''percas.storage.capacity'',
        ins_description = ''The total capacity of the storage'', ins_unit = Some ''byte''\<rparr>,
      st_used = \<lparr>ins_kind = U64Gauge, ins_name = ''percas.storage.used'',
        ins_description = ''The used capacity of the storage'', ins_unit = Some ''byte''\<rparr>,
      st_io = storage_io_metrics_new\<rparr>"

definition operation_metrics_new :: operation_metrics where
  "operation_metrics_new =
     \<lparr>op_count = \<lparr>ins_kind = U64Counter, ins_name = ''percas.operation.count'',
        ins_description = ''The number of operations'', ins_unit = None\<rparr>,
      op_bytes = \<lparr>ins_kind = U64Counter, ins_name = ''percas.operation.bytes'',
        ins_description = ''The number of bytes'', ins_unit = Some ''byte''\<rparr>,
      op_duration = \<lparr>ins_kind = F64Histogram [1, 5, 10, 50, 100, 200, 500, 1000, 2000, 5000, 10000, 50000],
        ins_name = ''percas.operation.duration'',
        ins_description = ''The duration of the operation'', ins_unit = Some ''second''\<rparr>\<rparr>"

definition global_metrics_new :: global_metrics where
  "global_metrics_new =
     \<lparr>meter = ''percas'', storage = storage_metrics_new, operation = operation_metrics_new\<rparr>"

definition OPERATION_READ :: string where "OPERATION_READ = ''read''"
definition OPERATION_WRITE :: string where "OPERATION_WRITE = ''write''"
definition OPERATION_FLUSH :: string where "OPERATION_FLUSH = ''flush''"

definition storage_operation_labels :: "string \<Rightarrow> label list" where
  "storage_operation_labels op = [(''operation'', op)]"

definition OPERATION_GET :: string where "OPERATION_GET = ''get''"
definition OPERATION_PUT :: string where "OPERATION_PUT = ''put''"
definition OPERATION_DELETE :: string where "OPERATION_DELETE = ''delete''"
definition OPERATION_UNKNOWN :: string where "OPERATION_UNKNOWN = ''unknown''"
definition STATUS_SUCCESS :: string where "STATUS_SUCCESS = ''ok''"
definition STATUS_NOT_FOUND_LABEL :: string where "STATUS_NOT_FOUND_LABEL = ''not_found''"
definition STATUS_FAILURE :: string where "STATUS_FAILURE = ''error''"
definition STATUS_REDIRECT :: string where "STATUS_REDIRECT = ''redirect''"

definition operation_labels :: "string \<Rightarrow> string \<Rightarrow> label list" where
  "operation_labels op status = [(''operation'', op), (''status'', status)]"

section \<open>The scheduled report\<close>

record metrics_snapshot =
  disk_read_bytes :: u64
  disk_write_bytes :: u64
  disk_read_ios :: u64
  disk_write_ios :: u64

definition snapshot_default :: metrics_snapshot where
  "snapshot_default =
     \<lparr>disk_read_bytes = 0, disk_write_bytes = 0, disk_read_ios = 0, disk_write_ios = 0\<rparr>"

definition snapshot_from :: "foyer_stats \<Rightarrow> metrics_snapshot" where
  "snapshot_from stats =
     \<lparr>disk_read_bytes = stat_disk_read_bytes stats, disk_write_bytes = stat_disk_write_bytes stats,
      disk_read_ios = stat_disk_read_ios stats, disk_write_ios = stat_disk_write_ios stats\<rparr>"

text \<open>Subtraction on \<open>u64\<close>; the release profile wraps around.\<close>

definition snapshot_difference :: "metrics_snapshot \<Rightarrow> metrics_snapshot \<Rightarrow> metrics_snapshot" where
  "snapshot_difference self other =
     \<lparr>disk_read_bytes = disk_read_bytes self - disk_read_bytes other,
      disk_write_bytes = disk_write_bytes self - disk_write_bytes other,
      disk_read_ios = disk_read_ios self - disk_read_ios other,
      disk_write_ios = disk_write_ios self - disk_write_ios other\<rparr>"

record report_metrics_action =
  snapshot :: metrics_snapshot

definition report_metrics_action_new :: report_metrics_action where
  "report_metrics_action_new = \<lparr>snapshot = snapshot_default\<rparr>"

definition report_metrics_name :: string where
  "report_metrics_name = ''report_metrics''"

definition do_report ::
  "'c foyer \<Rightarrow> 'c foyer_engine \<Rightarrow> report_metrics_action \<Rightarrow> metrics_log \<Rightarrow>
   report_metrics_action \<times> metrics_log" where
  "do_report fy engine act log =
     (let metrics = global_metrics_new;
          log = log @ [GaugeRecord (st_used (storage metrics)) (engine_capacity engine) [],
                       GaugeRecord (st_capacity (storage metrics)) (engine_capacity engine) []];
          current = snapshot_from (engine_statistics fy engine);
          previous = snapshot act;
          difference = snapshot_difference current previous;
          act = act\<lparr>snapshot := current\<rparr>;
          io = st_io (storage metrics);
          read_label = storage_operation_labels OPERATION_READ;
          write_label = storage_operation_labels OPERATION_WRITE
      in (act, log @
           [CounterAdd (io_bytes io) (disk_read_bytes difference) read_label,
            CounterAdd (io_bytes io) (disk_write_bytes difference) write_label,
            CounterAdd (io_count io) (disk_read_ios difference) read_label,
            CounterAdd (io_count io) (disk_write_ios difference) write_label]))"

text \<open>The action as it is scheduled: one report per tick, on the engine of that moment.\<close>

fun run_reports ::
  "'c foyer \<Rightarrow> 'c foyer_engine list \<Rightarrow> report_metrics_action \<times> metrics_log \<Rightarrow>
   report_metrics_action \<times> metrics_log" where
  "run_reports fy [] st = st"
| "run_reports fy (e # es) (act, log) = run_reports fy es (do_report fy e act log)"

section \<open>Lemmas and properties\<close>

text \<open>The value of a counter: the sum of what was added under its name and labels.\<close>

fun added :: "string \<Rightarrow> label list \<Rightarrow> measurement \<Rightarrow> u64" where
  "added n ls (CounterAdd i v ls') = (if ins_name i = n \<and> ls' = ls then v else 0)"
| "added n ls _ = 0"

definition counter_value :: "string \<Rightarrow> label list \<Rightarrow> metrics_log \<Rightarrow> u64" where
  "counter_value n ls log = sum_list (map (added n ls) log)"

lemma counter_value_append [simp]:
  "counter_value n ls (xs @ ys) = counter_value n ls xs + counter_value n ls ys"
  by (simp add: counter_value_def)

lemma counter_value_simps [simp]:
  "counter_value n ls [] = 0" "counter_value n ls (m # ms) = added n ls m + counter_value n ls ms"
  by (simp_all add: counter_value_def)

lemmas label_defs = OPERATION_READ_def OPERATION_WRITE_def OPERATION_FLUSH_def OPERATION_GET_def
  OPERATION_PUT_def OPERATION_DELETE_def OPERATION_UNKNOWN_def STATUS_SUCCESS_def
  STATUS_NOT_FOUND_LABEL_def STATUS_FAILURE_def STATUS_REDIRECT_def operation_labels_def
  storage_operation_labels_def

lemmas instrument_defs = global_metrics_new_def storage_metrics_new_def storage_io_metrics_new_def
  operation_metrics_new_def

lemma do_report_counters:
  assumes "do_report fy e act log = (act', log')"
  shows "snapshot act' = snapshot_from (engine_statistics fy e)"
    and "counter_value ''percas.storage.io.bytes'' [(''operation'', ''read'')] log' =
      counter_value ''percas.storage.io.bytes'' [(''operation'', ''read'')] log +
      (disk_read_bytes (snapshot act') - disk_read_bytes (snapshot act))"
    and "counter_value ''percas.storage.io.bytes'' [(''operation'', ''write'')] log' =
      counter_value ''percas.storage.io.bytes'' [(''operation'', ''write'')] log +
      (disk_write_bytes (snapshot act') - disk_write_bytes (snapshot act))"
    and "counter_value ''percas.storage.io.count'' [(''operation'', ''read'')] log' =
      counter_value ''percas.storage.io.count'' [(''operation'', ''read'')] log +
      (disk_read_ios (snapshot act') - disk_read_ios (snapshot act))"
    and "counter_value ''percas.storage.io.count'' [(''operation'', ''write'')] log' =
      counter_value ''percas.storage.io.count'' [(''operation'', ''write'')] log +
      (disk_write_ios (snapshot act') - disk_write_ios (snapshot act))"
  using assms
  by (auto simp: do_report_def Let_def snapshot_difference_def instrument_defs label_defs)

lemma run_reports_snoc:
  "run_reports fy (es @ [e]) st = (let (act, log) = run_reports fy es st in do_report fy e act log)"
  by (induction fy es st rule: run_reports.induct) (simp_all add: case_prod_unfold, metis prod.collapse run_reports.simps)

text \<open>Reports never lose a byte: what was added so far is what the last snapshot shows.\<close>

definition reported :: "report_metrics_action \<times> metrics_log \<Rightarrow> bool" where
  "reported st \<longleftrightarrow>
     counter_value ''percas.storage.io.bytes'' [(''operation'', ''read'')] (snd st) = disk_read_bytes (snapshot (fst st)) \<and>
     counter_value ''percas.storage.io.bytes'' [(''operation'', ''write'')] (snd st) = disk_write_bytes (snapshot (fst st)) \<and>
     counter_value ''percas.storage.io.count'' [(''operation'', ''read'')] (snd st) = disk_read_ios (snapshot (fst st)) \<and>
     counter_value ''percas.storage.io.count'' [(''operation'', ''write'')] (snd st) = disk_write_ios (snapshot (fst st))"

lemma reported_do_report: "reported (act, log) \<Longrightarrow> reported (do_report fy e act log)"
  using do_report_counters [of fy e act log "fst (do_report fy e act log)" "snd (do_report fy e act log)"]
  by (simp add: reported_def)

lemma reported_run: "reported st \<Longrightarrow> reported (run_reports fy es st)"
  by (induction fy es st rule: run_reports.induct) (simp_all add: reported_do_report)

text \<open>
  The scheduled reports telescope: after any number of reports, the last one on the engine \<open>e\<close>, the
  disk counters of bytes and of operations are exactly the statistics of the cache at that moment, for
  reads and for writes, also when the statistics have wrapped around in between.
\<close>
lemma reports_telescope:
  "let (act, log) = run_reports fy (es @ [e]) (report_metrics_action_new, []);
       stats = engine_statistics fy e
   in counter_value ''percas.storage.io.bytes'' [(''operation'', ''read'')] log = stat_disk_read_bytes stats \<and>
      counter_value ''percas.storage.io.bytes'' [(''operation'', ''write'')] log = stat_disk_write_bytes stats \<and>
      counter_value ''percas.storage.io.count'' [(''operation'', ''read'')] log = stat_disk_read_ios stats \<and>
      counter_value ''percas.storage.io.count'' [(''operation'', ''write'')] log = stat_disk_write_ios stats"
proof -
  obtain act log where r: "run_reports fy (es @ [e]) (report_metrics_action_new, []) = (act, log)" by force
  have "reported (report_metrics_action_new, [])"
    by (simp add: reported_def report_metrics_action_new_def snapshot_default_def)
  then have "reported (act, log)" using reported_run r by metis
  moreover obtain act0 log0 where "do_report fy e act0 log0 = (act, log)"
    using r unfolding run_reports_snoc by (auto split: prod.splits)
  then have "snapshot act = snapshot_from (engine_statistics fy e)" by (rule do_report_counters(1))
  ultimately show ?thesis by (simp add: r reported_def snapshot_from_def)
qed

end
