(* ===== verification/Config.thy ===== *)
theory Config
  imports Engine "HOL-Library.Char_ord" "HOL-Library.List_Lexorder"
begin

text \<open>
  \<open>crates/core/src/config.rs\<close>: the configuration with its defaults and the table of environment
  variables that override it. Urls are a type variable, file paths are strings, socket addresses are
  an ip address and a port. The table is translated entry by entry; the properties show that its
  variable names are those derived from the paths, that names and paths are unique, and that no
  path lies below another, so that overrides cannot hide each other.
\<close>

section \<open>Addresses\<close>

datatype ip_addr = V4 u32 | V6 "128 word"

record socket_addr =
  ip :: ip_addr
  port :: "16 word"

text \<open>\<open>IpAddr::is_unspecified\<close>\<close>

fun is_unspecified :: "ip_addr \<Rightarrow> bool" where
  "is_unspecified (V4 a) = (a = 0)"
| "is_unspecified (V6 a) = (a = 0)"

section \<open>Configuration\<close>

record 'url server_config =
  cfg_server_dir :: string
  listen_data_addr :: socket_addr
  advertise_data_addr :: "socket_addr option"
  listen_ctrl_addr :: socket_addr
  advertise_ctrl_addr :: "socket_addr option"
  cfg_initial_peers :: "'url list"
  cfg_cluster_id :: string

record storage_config =
  data_dir :: string
  disk_capacity :: u64
  memory_capacity :: u64
  disk_throttle_of :: "disk_throttle option"

record file_appender_config =
  file_filter :: string
  file_dir :: string
  max_files :: "nonzero_usize option"

record stderr_appender_config =
  stderr_filter :: string

record opentelemetry_appender_config =
  otel_filter :: string
  logs_otlp_endpoint :: string

record logs_config =
  logs_file :: "file_appender_config option"
  logs_stderr :: "stderr_appender_config option"
  logs_opentelemetry :: "opentelemetry_appender_config option"

record opentelemetry_traces_config =
  traces_otlp_endpoint :: string

record traces_config =
  capture_log_filter :: string
  traces_opentelemetry :: "opentelemetry_traces_config option"

record opentelemetry_metrics_config =
  metrics_otlp_endpoint :: string
  push_interval :: int

record metrics_config =
  metrics_opentelemetry :: "opentelemetry_metrics_config option"

record telemetry_config =
  logs :: logs_config
  traces :: "traces_config option"
  metrics :: "metrics_config option"

record 'url config =
  server :: "'url server_config"
  storage_cfg :: storage_config
  telemetry :: telemetry_config

definition default_listen_data_addr :: socket_addr where
  "default_listen_data_addr = \<lparr>ip = V4 0, port = 7654\<rparr>"

definition default_listen_ctrl_addr :: socket_addr where
  "default_listen_ctrl_addr = \<lparr>ip = V4 0, port = 7655\<rparr>"

definition default_disk_capacity :: u64 where
  "default_disk_capacity = mib 512"

text \<open>\<open>available_memory()\<close> of the machine is the argument.\<close>

definition default_memory_capacity :: "u64 \<Rightarrow> u64" where
  "default_memory_capacity available = available"

definition default_dir :: string where
  "default_dir = ''/var/lib/percas''"

definition default_data_dir :: string where
  "default_data_dir = ''/var/lib/percas/data''"

definition default_cluster_id :: string where
  "default_cluster_id = ''percas-cluster''"

text \<open>Thirty seconds, in nanoseconds.\<close>

definition default_metrics_push_interval :: int where
  "default_metrics_push_interval = 30 * 1000000000"

text \<open>\<open>#[derive(Default)]\<close> of the logs section.\<close>

definition logs_config_default :: logs_config where
  "logs_config_default = \<lparr>logs_file = None, logs_stderr = None, logs_opentelemetry = None\<rparr>"

definition config_default :: "u64 \<Rightarrow> 'url config" where
  "config_default available =
     \<lparr>server =
        \<lparr>cfg_server_dir = default_dir, listen_data_addr = default_listen_data_addr,
         advertise_data_addr = None, listen_ctrl_addr = default_listen_ctrl_addr,
         advertise_ctrl_addr = None, cfg_initial_peers = [], cfg_cluster_id = default_cluster_id\<rparr>,
      storage_cfg =
        \<lparr>data_dir = default_data_dir, disk_capacity = default_disk_capacity,
         memory_capacity = default_memory_capacity available, disk_throttle_of = None\<rparr>,
      telemetry =
        \<lparr>logs =
           \<lparr>logs_file = Some \<lparr>file_filter = ''INFO'', file_dir = ''logs'', max_files = nz_new 64\<rparr>,
            logs_stderr = Some \<lparr>stderr_filter = ''INFO''\<rparr>,
            logs_opentelemetry =
              Some \<lparr>otel_filter = ''INFO'', logs_otlp_endpoint = ''http://127.0.0.1:4317''\<rparr>\<rparr>,
         traces = Some
           \<lparr>capture_log_filter = ''INFO'',
            traces_opentelemetry = Some \<lparr>traces_otlp_endpoint = ''http://127.0.0.1:4317''\<rparr>\<rparr>,
         metrics = Some
           \<lparr>metrics_opentelemetry = Some
              \<lparr>metrics_otlp_endpoint = ''http://127.0.0.1:4317'',
               push_interval = default_metrics_push_interval\<rparr>\<rparr>\<rparr>\<rparr>"

section \<open>Known options\<close>

datatype option_entry = OptionEntry (env_name: string) (ent_path: string) (ent_type: string)

definition known_option_entries :: "option_entry list" where
  "known_option_entries =
     [OptionEntry ''PERCAS_CONFIG_SERVER_ADVERTISE_CTRL_ADDR''
        ''server.advertise_ctrl_addr'' ''string'',
      OptionEntry ''PERCAS_CONFIG_SERVER_ADVERTISE_DATA_ADDR''
        ''server.advertise_data_addr'' ''string'',
      OptionEntry ''PERCAS_CONFIG_SERVER_CLUSTER_ID''
        ''server.cluster_id'' ''string'',
      OptionEntry ''PERCAS_CONFIG_SERVER_DIR''
        ''server.dir'' ''string'',
      OptionEntry ''PERCAS_CONFIG_SERVER_INITIAL_PEERS''
        ''server.initial_peers'' ''array'',
      OptionEntry ''PERCAS_CONFIG_SERVER_LISTEN_CTRL_ADDR''
        ''server.listen_ctrl_addr'' ''string'',
      OptionEntry ''PERCAS_CONFIG_SERVER_LISTEN_DATA_ADDR''
        ''server.listen_data_addr'' ''string'',
      OptionEntry ''PERCAS_CONFIG_STORAGE_DATA_DIR''
        ''storage.data_dir'' ''string'',
      OptionEntry ''PERCAS_CONFIG_STORAGE_DISK_CAPACITY''
        ''storage.disk_capacity'' ''string'',
      OptionEntry ''PERCAS_CONFIG_STORAGE_DISK_THROTTLE_IOPS_COUNTER_MODE''
        ''storage.disk_throttle.iops_counter.mode'' ''string'',
      OptionEntry ''PERCAS_CONFIG_STORAGE_DISK_THROTTLE_IOPS_COUNTER_SIZE''
        ''storage.disk_throttle.iops_counter.size'' ''integer'',
      OptionEntry ''PERCAS_CONFIG_STORAGE_DISK_THROTTLE_READ_IOPS''
        ''storage.disk_throttle.read_iops'' ''integer'',
      OptionEntry ''PERCAS_CONFIG_STORAGE_DISK_THROTTLE_READ_THROUGHPUT''
        ''storage.disk_throttle.read_throughput'' ''integer'',
      OptionEntry ''PERCAS_CONFIG_STORAGE_DISK_THROTTLE_WRITE_IOPS''
        ''storage.disk_throttle.write_iops'' ''integer'',
      OptionEntry ''PERCAS_CONFIG_STORAGE_DISK_THROTTLE_WRITE_THROUGHPUT''
        ''storage.disk_throttle.write_throughput'' ''integer'',
      OptionEntry ''PERCAS_CONFIG_STORAGE_MEMORY_CAPACITY''
        ''storage.memory_capacity'' ''string'',
      OptionEntry ''PERCAS_CONFIG_TELEMETRY_LOGS_FILE_DIR''
        ''telemetry.logs.file.dir'' ''string'',
      OptionEntry ''PERCAS_CONFIG_TELEMETRY_LOGS_FILE_FILTER''
        ''telemetry.logs.file.filter'' ''string'',
      OptionEntry ''PERCAS_CONFIG_TELEMETRY_LOGS_FILE_MAX_FILES''
        ''telemetry.logs.file.max_files'' ''integer'',
      OptionEntry ''PERCAS_CONFIG_TELEMETRY_LOGS_OPENTELEMETRY_FILTER''
        ''telemetry.logs.opentelemetry.filter'' ''string'',
      OptionEntry ''PERCAS_CONFIG_TELEMETRY_LOGS_OPENTELEMETRY_OTLP_ENDPOINT''
        ''telemetry.logs.opentelemetry.otlp_endpoint'' ''string'',
      OptionEntry ''PERCAS_CONFIG_TELEMETRY_LOGS_STDERR_FILTER''
        ''telemetry.logs.stderr.filter'' ''string'',
      OptionEntry ''PERCAS_CONFIG_TELEMETRY_METRICS_OPENTELEMETRY_OTLP_ENDPOINT''
        ''telemetry.metrics.opentelemetry.otlp_endpoint'' ''string'',
      OptionEntry ''PERCAS_CONFIG_TELEMETRY_METRICS_OPENTELEMETRY_PUSH_INTERVAL''
        ''telemetry.metrics.opentelemetry.push_interval'' ''string'',
      OptionEntry ''PERCAS_CONFIG_TELEMETRY_TRACES_CAPTURE_LOG_FILTER''
        ''telemetry.traces.capture_log_filter'' ''string'',
      OptionEntry ''PERCAS_CONFIG_TELEMETRY_TRACES_OPENTELEMETRY_OTLP_ENDPOINT''
        ''telemetry.traces.opentelemetry.otlp_endpoint'' ''string'']"

text \<open>\<open>#[derive(Ord)]\<close>: lexicographic in the fields.\<close>

definition entry_key :: "option_entry \<Rightarrow> string \<times> string \<times> string" where
  "entry_key e = (env_name e, ent_path e, ent_type e)"

lemma entry_key_inject: "entry_key a = entry_key b \<longleftrightarrow> a = b"
  by (cases a; cases b) (simp add: entry_key_def)

instantiation option_entry :: linorder
begin

definition less_eq_option_entry :: "option_entry \<Rightarrow> option_entry \<Rightarrow> bool" where
  "less_eq_option_entry a b \<longleftrightarrow> entry_key a \<le> entry_key b"

definition less_option_entry :: "option_entry \<Rightarrow> option_entry \<Rightarrow> bool" where
  "less_option_entry a b \<longleftrightarrow> entry_key a < entry_key b"

instance
  by standard (auto simp: less_option_entry_def less_eq_option_entry_def entry_key_inject [symmetric])

end

text \<open>\<open>path.split('.')\<close>\<close>

fun split_on :: "char \<Rightarrow> string \<Rightarrow> string list" where
  "split_on d [] = [[]]"
| "split_on d (c # cs) =
     (if c = d then [] # split_on d cs
      else case split_on d cs of [] \<Rightarrow> [[c]] | p # ps \<Rightarrow> (c # p) # ps)"

text \<open>The name of a variable as the code generation test derives it from the path.\<close>

definition upper :: "char \<Rightarrow> char" where
  "upper c = (if CHR ''a'' \<le> c \<and> c \<le> CHR ''z'' then
     (case c of Char b0 b1 b2 b3 b4 b5 b6 b7 \<Rightarrow> Char b0 b1 b2 b3 b4 False b6 b7) else c)"

definition env_name_of :: "string \<Rightarrow> string" where
  "env_name_of path = ''PERCAS_CONFIG_'' @ map (\<lambda>c. if upper c = CHR ''.'' then CHR ''_'' else upper c) path"

text \<open>Two paths that differ before either of them ends: setting one cannot touch the other.\<close>

fun apart :: "'a list \<Rightarrow> 'a list \<Rightarrow> bool" where
  "apart (x # xs) (y # ys) = (x \<noteq> y \<or> apart xs ys)"
| "apart _ _ = False"

definition entry_parts :: "option_entry \<Rightarrow> string list" where
  "entry_parts e = split_on (CHR ''.'') (ent_path e)"

lemma known_names: "list_all (\<lambda>e. env_name e = env_name_of (ent_path e)) known_option_entries"
  by code_simp

lemma known_sorted: "sorted_wrt (<) known_option_entries"
proof -
  have "transp ((<) :: option_entry \<Rightarrow> option_entry \<Rightarrow> bool)"
    by (auto intro: transpI)
  note step = sorted_wrt2 [OF this]
  show ?thesis
    unfolding known_option_entries_def step sorted_wrt1 by code_simp
qed

lemma known_paths_apart: "sorted_wrt apart (map entry_parts known_option_entries)"
  by code_simp

lemma apart_sym: "apart xs ys \<Longrightarrow> apart ys xs"
  by (induction xs ys rule: apart.induct) auto

lemma known_entries_apart:
  assumes "e \<in> set known_option_entries" "e' \<in> set known_option_entries" "e \<noteq> e'"
  shows "apart (entry_parts e) (entry_parts e')"
proof -
  let ?R = "\<lambda>x y. apart (entry_parts x) (entry_parts y)"
  have "sorted_wrt R xs \<Longrightarrow> x \<in> set xs \<Longrightarrow> y \<in> set xs \<Longrightarrow> x \<noteq> y \<Longrightarrow> R x y \<or> R y x"
    for R and xs :: "option_entry list" and x y
    by (induction xs) auto
  from this [of ?R known_option_entries e e'] known_paths_apart assms
  have "?R e e' \<or> ?R e' e" by (simp add: sorted_wrt_map)
  then show ?thesis using apart_sym by blast
qed

lemma known_name_unique:
  assumes "e \<in> set known_option_entries" "e' \<in> set known_option_entries" "env_name e = env_name e'"
  shows "e = e'"
proof -
  have "distinct (map env_name known_option_entries)" by code_simp
  with assms show ?thesis by (simp add: distinct_map inj_on_def)
qed

text \<open>
  The table of environment variables is consistent: every name is derived from its path the way the
  schema test derives it, the entries are strictly increasing in the derived order (so none occurs twice),
  and any two paths part before either ends, so that setting one option never replaces another.
\<close>
lemma known_options_consistent:
  "list_all (\<lambda>e. env_name e = env_name_of (ent_path e)) known_option_entries \<and>
   sorted_wrt (<) known_option_entries \<and> sorted_wrt apart (map entry_parts known_option_entries)"
  using known_names known_sorted known_paths_apart by blast

end
