(* ===== verification/Server.thy ===== *)
theory Server
  imports Proxy Metrics Http Config
begin

text \<open>
  \<open>crates/server/src/server.rs\<close>, \<open>middleware.rs\<close> and \<open>crates/version/src/lib.rs\<close>: the data endpoints behind
  the cluster proxy, the control endpoints, the initialisation of the node, and the advertised
  addresses. The state of the data server is the engine and the log of measurements. The web
  framework (\<open>poem\<close>), the operations on urls, the JSON encoder and the text of a status are the fields
  of \<open>server_env\<close>.
\<close>

section \<open>Environment, requests and state\<close>

datatype poem_error = PoemError nat

text \<open>
  A request as the data route sees it: the path of its uri as sent, the key decoded from the path (the
  extractor may refuse it), and the body, missing when it cannot be read.
\<close>

record data_request =
  dr_method :: http_method
  dr_path :: string
  dr_key :: "string option"
  dr_body :: "bytes option"

record ('id, 'url) server_member =
  sm_node_id :: 'id
  sm_cluster_id :: string
  sm_advertise_data_url :: 'url
  sm_advertise_ctrl_url :: 'url
  sm_incarnation :: u64
  sm_status :: member_status
  sm_heartbeat :: timestamp
  sm_vnodes :: "u32 list"

record ('id, 'url) list_members_response =
  lm_members :: "('id, 'url) server_member list"

record build_info =
  bi_branch :: string
  bi_commit :: string
  bi_commit_short :: string
  bi_clean :: bool
  bi_source_time :: string
  bi_build_time :: string
  bi_rustc :: string
  bi_target :: string
  bi_version :: string

text \<open>The constants that \<open>shadow_rs\<close> generates and the variables the build script sets.\<close>

record build_consts =
  BRANCH :: string
  COMMIT_HASH :: string
  SHORT_COMMIT :: string
  GIT_CLEAN :: bool
  RUST_VERSION :: string
  BUILD_TARGET :: string
  PKG_VERSION :: string

definition build_info_of :: "build_consts \<Rightarrow> string \<Rightarrow> string \<Rightarrow> build_info" where
  "build_info_of b SOURCE_TIMESTAMP BUILD_TIMESTAMP =
     \<lparr>bi_branch = BRANCH b, bi_commit = COMMIT_HASH b, bi_commit_short = SHORT_COMMIT b,
      bi_clean = GIT_CLEAN b, bi_source_time = SOURCE_TIMESTAMP, bi_build_time = BUILD_TIMESTAMP,
      bi_rustc = RUST_VERSION b, bi_target = BUILD_TARGET b, bi_version = PKG_VERSION b\<rparr>"

record ('id, 'url) server_env =
  sx_status_text :: "nat \<Rightarrow> string"
  sx_set_path :: "'url \<Rightarrow> string \<Rightarrow> 'url"
  sx_url_str :: "'url \<Rightarrow> string"
  sx_path_error :: poem_error
  sx_json_type :: string
  sx_members_json :: "('id, 'url) list_members_response \<Rightarrow> bytes"
  sx_message_json :: "('id, 'url) gossip_message \<Rightarrow> bytes"
  sx_build_info_json :: "build_info \<Rightarrow> bytes"

record 'c percas_context =
  engine :: "'c foyer_engine"

record 'c server_world =
  ctx :: "'c percas_context"
  measured :: metrics_log

definition percas_context_new :: "'c foyer_engine \<Rightarrow> 'c percas_context" where
  "percas_context_new e = \<lparr>engine = e\<rparr>"

section \<open>Responses\<close>

abbreviation "TEXT \<equiv> Some ''text/plain''"
abbreviation "OCTET_STREAM \<equiv> Some ''application/octet-stream''"

definition text_response :: "('id, 'url) server_env \<Rightarrow> nat \<Rightarrow> http_response" where
  "text_response sx code =
     \<lparr>http_status = code, content_type = TEXT, location = None,
      http_body = Some (str_bytes (sx_status_text sx code))\<rparr>"

definition too_many_requests :: "('id, 'url) server_env \<Rightarrow> http_response" where
  "too_many_requests sx = text_response sx STATUS_TOO_MANY_REQUESTS"

definition temporary_redirect :: "('id, 'url) server_env \<Rightarrow> string \<Rightarrow> http_response" where
  "temporary_redirect sx loc = (text_response sx STATUS_TEMPORARY_REDIRECT)\<lparr>location := Some loc\<rparr>"

definition get_success :: "bytes \<Rightarrow> http_response" where
  "get_success body =
     \<lparr>http_status = STATUS_OK, content_type = OCTET_STREAM, location = None, http_body = Some body\<rparr>"

definition get_not_found :: "('id, 'url) server_env \<Rightarrow> http_response" where
  "get_not_found sx = text_response sx STATUS_NOT_FOUND"

definition put_success :: "('id, 'url) server_env \<Rightarrow> http_response" where
  "put_success sx = text_response sx STATUS_CREATED"

definition put_bad_request :: "('id, 'url) server_env \<Rightarrow> http_response" where
  "put_bad_request sx = text_response sx STATUS_BAD_REQUEST"

definition delete_success :: http_response where
  "delete_success =
     \<lparr>http_status = STATUS_NO_CONTENT, content_type = None, location = None, http_body = Some []\<rparr>"

section \<open>Data handlers\<close>

text \<open>\<open>count.add(1)\<close>, the bytes where there are any, and \<open>duration.record(elapsed)\<close>, in this order.\<close>

definition record_operation :: "string \<Rightarrow> string \<Rightarrow> nat option \<Rightarrow> int \<Rightarrow> 'c server_world \<Rightarrow> 'c server_world" where
  "record_operation op st len elapsed w =
     (let metrics = operation global_metrics_new;
          labels = operation_labels op st
      in w\<lparr>measured := measured w @ [CounterAdd (op_count metrics) 1 labels] @
             (case len of None \<Rightarrow> [] | Some n \<Rightarrow> [CounterAdd (op_bytes metrics) (of_nat n) labels]) @
             [HistogramRecord (op_duration metrics) elapsed labels]\<rparr>)"

abbreviation set_engine :: "'c foyer_engine \<Rightarrow> 'c server_world \<Rightarrow> 'c server_world" where
  "set_engine e w \<equiv> w\<lparr>ctx := (ctx w)\<lparr>engine := e\<rparr>\<rparr>"

definition handle_get ::
  "('id, 'url) server_env \<Rightarrow> 'c foyer \<Rightarrow> int \<Rightarrow> string \<Rightarrow> 'c server_world \<Rightarrow> 'c server_world \<times> http_response" where
  "handle_get sx fy elapsed key w =
     (case engine_get fy (str_bytes key) (engine (ctx w)) of
        (e, Some val) \<Rightarrow>
          (record_operation OPERATION_GET STATUS_SUCCESS (Some (length val)) elapsed (set_engine e w), get_success val)
      | (e, None) \<Rightarrow>
          (record_operation OPERATION_GET STATUS_NOT_FOUND_LABEL None elapsed (set_engine e w), get_not_found sx))"

definition handle_put ::
  "('id, 'url) server_env \<Rightarrow> 'c foyer \<Rightarrow> int \<Rightarrow> string \<Rightarrow> bytes option \<Rightarrow> 'c server_world \<Rightarrow>
   'c server_world \<times> http_response" where
  "handle_put sx fy elapsed key body w =
     (case body of
        Some bytes \<Rightarrow>
          (record_operation OPERATION_PUT STATUS_SUCCESS (Some (length bytes)) elapsed
             (set_engine (engine_put fy (str_bytes key) bytes (engine (ctx w))) w), put_success sx)
      | None \<Rightarrow>
          (record_operation OPERATION_PUT STATUS_FAILURE None elapsed w, put_bad_request sx))"

definition handle_delete ::
  "'c foyer \<Rightarrow> int \<Rightarrow> string \<Rightarrow> 'c server_world \<Rightarrow> 'c server_world \<times> http_response" where
  "handle_delete fy elapsed key w =
     (record_operation OPERATION_DELETE STATUS_SUCCESS None elapsed
        (set_engine (engine_delete fy (str_bytes key) (engine (ctx w))) w), delete_success)"

text \<open>
  \<open>poem::get(get).put(put).delete(delete)\<close> on \<open>/*key\<close>: what the framework does with any other method is
  the argument \<open>other\<close>; a key the extractor refuses is an error of the framework.
\<close>

type_synonym 'c endpoint = "data_request \<Rightarrow> 'c server_world \<Rightarrow> 'c server_world \<times> (poem_error + http_response)"

definition data_endpoint ::
  "('id, 'url) server_env \<Rightarrow> 'c foyer \<Rightarrow> int \<Rightarrow> 'c endpoint \<Rightarrow> 'c endpoint" where
  "data_endpoint sx fy elapsed other req w =
     (case dr_key req of
        None \<Rightarrow> (w, Err (sx_path_error sx))
      | Some key \<Rightarrow>
          (case dr_method req of
             GET \<Rightarrow> map_prod id Ok (handle_get sx fy elapsed key w)
           | PUT \<Rightarrow> map_prod id Ok (handle_put sx fy elapsed key (dr_body req) w)
           | DELETE \<Rightarrow> map_prod id Ok (handle_delete fy elapsed key w)
           | _ \<Rightarrow> other req w))"

section \<open>Middleware\<close>

text \<open>A middleware wraps an endpoint; \<open>LoggerMiddleware\<close> writes to the log only.\<close>

datatype 'c logger_endpoint = LoggerEndpoint "'c endpoint"

definition logger_transform :: "'c endpoint \<Rightarrow> 'c logger_endpoint" where
  "logger_transform ep = LoggerEndpoint ep"

fun logger_call :: "'c logger_endpoint \<Rightarrow> 'c endpoint" where
  "logger_call (LoggerEndpoint inner_ep) req w =
     (case inner_ep req w of
        (w', Inl err) \<Rightarrow> (w', Err err)
      | (w', Inr resp) \<Rightarrow> (w', Ok resp))"

record ('id, 'url) cluster_proxy_middleware =
  cm_proxy :: "('id, 'url) proxy"

record ('id, 'url, 'c) cluster_proxy_endpoint =
  ce_proxy :: "('id, 'url) proxy"
  ce_endpoint :: "'c endpoint"

definition cluster_proxy_new :: "('id, 'url) proxy \<Rightarrow> ('id, 'url) cluster_proxy_middleware" where
  "cluster_proxy_new p = \<lparr>cm_proxy = p\<rparr>"

definition cluster_proxy_transform ::
  "('id, 'url) cluster_proxy_middleware \<Rightarrow> 'c endpoint \<Rightarrow> ('id, 'url, 'c) cluster_proxy_endpoint" where
  "cluster_proxy_transform mw ep = \<lparr>ce_proxy = cm_proxy mw, ce_endpoint = ep\<rparr>"

definition redirect_operation :: "http_method \<Rightarrow> string" where
  "redirect_operation m =
     (if method_as_str m = ''GET'' then OPERATION_GET
      else if method_as_str m = ''PUT'' then OPERATION_PUT
      else if method_as_str m = ''DELETE'' then OPERATION_DELETE
      else OPERATION_UNKNOWN)"

definition cluster_proxy_call ::
  "('id, 'url) server_env \<Rightarrow> ('id, 'url) gossip_ext \<Rightarrow> ('id::linorder, 'url, 'c) cluster_proxy_endpoint \<Rightarrow>
   'c endpoint" where
  "cluster_proxy_call sx ext e req w =
     (case dr_key req of
        None \<Rightarrow> (w, Err (sx_path_error sx))
      | Some key \<Rightarrow>
          (case proxy_route ext (ce_proxy e) (str_bytes key) of
             Local \<Rightarrow> ce_endpoint e req w
           | RemoteAddr url \<Rightarrow>
               let w' = w\<lparr>measured := measured w @
                     [CounterAdd (op_count (operation global_metrics_new)) 1
                        (operation_labels (redirect_operation (dr_method req)) STATUS_REDIRECT)]\<rparr>
               in (w', Ok (temporary_redirect sx (sx_url_str sx (sx_set_path sx url (dr_path req)))))))"

text \<open>The data server: the route wrapped in the proxy, wrapped in the logger.\<close>

definition data_server ::
  "('id, 'url) server_env \<Rightarrow> ('id, 'url) gossip_ext \<Rightarrow> 'c foyer \<Rightarrow> ('id::linorder, 'url) gossip_state \<Rightarrow>
   int \<Rightarrow> 'c endpoint \<Rightarrow> 'c endpoint" where
  "data_server sx ext fy g elapsed other =
     (let proxy_middleware = cluster_proxy_new (proxy_new g);
          route = cluster_proxy_transform proxy_middleware (data_endpoint sx fy elapsed other)
      in logger_call (logger_transform (cluster_proxy_call sx ext route)))"

section \<open>Control handlers\<close>

definition empty_response :: http_response where
  "empty_response = \<lparr>http_status = STATUS_OK, content_type = None, location = None, http_body = Some []\<rparr>"

definition json_response :: "('id, 'url) server_env \<Rightarrow> bytes \<Rightarrow> http_response" where
  "json_response sx b = \<lparr>http_status = STATUS_OK, content_type = Some (sx_json_type sx), location = None, http_body = Some b\<rparr>"

definition gossip_handler ::
  "('id, 'url) server_env \<Rightarrow> ('id, 'url) gossip_ext \<Rightarrow> timestamp \<Rightarrow> ('id, 'url) gossip_message \<Rightarrow>
   ('id::linorder, 'url) gossip_state \<Rightarrow> file_system \<Rightarrow>
   ('id, 'url) gossip_state \<times> file_system \<times> (panic + http_response)" where
  "gossip_handler sx ext now msg g fs =
     (case handle_message ext now g fs msg of
        (g', fs', Inl p) \<Rightarrow> (g', fs', Err p)
      | (g', fs', Inr (Some response)) \<Rightarrow> (g', fs', Ok (json_response sx (sx_message_json sx response)))
      | (g', fs', Inr None) \<Rightarrow> (g', fs', Ok empty_response))"

definition server_member_of ::
  "('id, 'url) gossip_ext \<Rightarrow> ('id::linorder) hash_ring \<Rightarrow> ('id, 'url) member_state \<Rightarrow> ('id, 'url) server_member" where
  "server_member_of ext r m =
     \<lparr>sm_node_id = node_id (info m), sm_cluster_id = cluster_id (info m),
      sm_advertise_data_url = advertise_data_url (info m),
      sm_advertise_ctrl_url = advertise_ctrl_url (info m),
      sm_incarnation = incarnation (info m), sm_status = status m, sm_heartbeat = heartbeat m,
      sm_vnodes = list_vnodes (ext_mur3 ext) (ext_as_ref ext) r (node_id (info m))\<rparr>"

definition list_members ::
  "('id, 'url) gossip_ext \<Rightarrow> ('id::linorder, 'url) gossip_state \<Rightarrow> ('id, 'url) list_members_response" where
  "list_members ext g =
     \<lparr>lm_members = map (server_member_of ext (ring_cell g)) (bt_values (members (membership_cell g)))\<rparr>"

definition list_members_handler ::
  "('id, 'url) server_env \<Rightarrow> ('id, 'url) gossip_ext \<Rightarrow> ('id::linorder, 'url) gossip_state \<Rightarrow> http_response" where
  "list_members_handler sx ext g = json_response sx (sx_members_json sx (list_members ext g))"

definition fetch_version :: "('id, 'url) server_env \<Rightarrow> build_info \<Rightarrow> http_response" where
  "fetch_version sx bi = json_response sx (sx_build_info_json sx bi)"

text \<open>\<open>percas_version::version\<close>: the text of \<open>--version\<close>.\<close>

definition bool_text :: "bool \<Rightarrow> string" where
  "bool_text b = (if b then ''true'' else ''false'')"

definition version_text :: "build_info \<Rightarrow> string" where
  "version_text bi =
     [CHR 0x0A] @ ''version: '' @ bi_version bi @ [CHR 0x0A] @ ''branch: '' @ bi_branch bi @
     [CHR 0x0A] @ ''commit: '' @ bi_commit bi @ [CHR 0x0A] @ ''clean: '' @ bool_text (bi_clean bi) @
     [CHR 0x0A] @ ''source_time: '' @ bi_source_time bi @ [CHR 0x0A] @ ''build_time: '' @ bi_build_time bi @
     [CHR 0x0A] @ ''rustc: '' @ bi_rustc bi @ [CHR 0x0A] @ ''target: '' @ bi_target bi"

section \<open>Addresses\<close>

text \<open>
  \<open>make_acceptor_and_advertise_url\<close>: binding yields the acceptor's local addresses; the sources take the
  first, which may not be a socket address.
\<close>

record 'url net_env =
  nx_bind :: "socket_addr \<Rightarrow> io_error + socket_addr option"
  nx_local_ip :: "io_error + ip_addr"
  nx_url_of :: "socket_addr \<Rightarrow> 'url option"

definition make_acceptor_and_advertise_url ::
  "'url net_env \<Rightarrow> socket_addr \<Rightarrow> socket_addr option \<Rightarrow> io_error + (socket_addr \<times> 'url)" where
  "make_acceptor_and_advertise_url nx listen_addr advertise_addr =
     (case nx_bind nx listen_addr of
        Inl e \<Rightarrow> Err e
      | Inr None \<Rightarrow> Err IoError
      | Inr (Some listen_addr) \<Rightarrow>
          (case (case advertise_addr of
                   None \<Rightarrow>
                     if is_unspecified (ip listen_addr) then
                       (case nx_local_ip nx of
                          Inl e \<Rightarrow> Err e
                        | Inr local \<Rightarrow> Ok \<lparr>ip = local, port = port listen_addr\<rparr>)
                     else Ok listen_addr
                 | Some a \<Rightarrow> Ok a) of
             Inl e \<Rightarrow> Err e
           | Inr addr \<Rightarrow>
               (case nx_url_of nx addr of
                  None \<Rightarrow> Err IoError
                | Some url \<Rightarrow> Ok (listen_addr, url))))"

section \<open>Starting the gossip\<close>

text \<open>
  The first part of \<open>start_gossip\<close>: the identity of the node is read from its file and advanced, or
  created, and written back before anything is announced.
\<close>

definition init_node ::
  "'id node_codec \<Rightarrow> file_system \<Rightarrow> 'url server_config \<Rightarrow> 'id \<Rightarrow> 'url \<Rightarrow> 'url \<Rightarrow>
   panic + (('id, 'url) node_info \<times> file_system)" where
  "init_node codec fs config fresh_id data_url ctrl_url =
     (let path = node_file_path (cfg_server_dir config) in
      case node_load codec fs path data_url ctrl_url of
        Inl p \<Rightarrow> Err p
      | Inr (Some node) \<Rightarrow>
          (let node = node_advance_incarnation node in
           case node_persist codec fs path node of Inl p \<Rightarrow> Err p | Inr fs' \<Rightarrow> Ok (node, fs'))
      | Inr None \<Rightarrow>
          (let node = node_new fresh_id (cfg_cluster_id config) data_url ctrl_url in
           case node_persist codec fs path node of Inl p \<Rightarrow> Err p | Inr fs' \<Rightarrow> Ok (node, fs')))"

datatype server_error = ServerError string

text \<open>The futures the caller joins: the control server and the tasks of the gossip.\<close>

datatype gossip_future = ControlServer socket_addr | GossipTask gossip_task

definition start_gossip ::
  "('id, 'url) gossip_ext \<Rightarrow> (nat \<Rightarrow> ('id, 'url) network) \<Rightarrow> timestamp \<Rightarrow> (nat \<Rightarrow> timestamp) \<Rightarrow>
   'url server_config \<Rightarrow> ('id::linorder) \<Rightarrow> socket_addr \<Rightarrow> 'url \<Rightarrow> 'url \<Rightarrow> file_system \<Rightarrow>
   file_system \<times> (panic + (server_error + (('id, 'url) gossip_state \<times> gossip_future list)))" where
  "start_gossip ext net now0 now config fresh_id acceptor data_url ctrl_url fs =
     (case init_node (ext_codec ext) fs config fresh_id data_url ctrl_url of
        Inl p \<Rightarrow> (fs, Err p)
      | Inr (current, fs1) \<Rightarrow>
          (let g = gossip_new current (cfg_initial_peers config) (cfg_server_dir config) in
           case gossip_start ext net now0 now g fs1 of
             (g', fs2, Inl p) \<Rightarrow> (fs2, Err p)
           | (g', fs2, Inr (Inl e)) \<Rightarrow> (fs2, Ok (Err (ServerError ''failed to start gossip'')))
           | (g', fs2, Inr (Inr tasks)) \<Rightarrow>
               (fs2, Ok (Ok (g', ControlServer acceptor # map GossipTask tasks)))))"

section \<open>Lemmas\<close>

lemmas response_defs [http_simps] = text_response_def too_many_requests_def temporary_redirect_def
  get_success_def get_not_found_def put_success_def put_bad_request_def delete_success_def
  empty_response_def json_response_def

lemma record_operation_ctx [simp]: "ctx (record_operation op st len elapsed w) = ctx w"
  by (simp add: record_operation_def Let_def)

text \<open>The operation on the store that a request stands for, when it is served here.\<close>

fun request_op :: "data_request \<Rightarrow> cache_op option" where
  "request_op req =
     (case dr_key req of
        None \<Rightarrow> None
      | Some k \<Rightarrow>
          (case dr_method req of
             GET \<Rightarrow> Some (GetOp (str_bytes k))
           | PUT \<Rightarrow> map_option (PutOp (str_bytes k)) (dr_body req)
           | DELETE \<Rightarrow> Some (DeleteOp (str_bytes k))
           | _ \<Rightarrow> None))"

declare request_op.simps [simp del]

definition standard_method :: "http_method \<Rightarrow> bool" where
  "standard_method m \<longleftrightarrow> m = GET \<or> m = PUT \<or> m = DELETE"

text \<open>Requests of the three methods change the engine by the operation they stand for, and nothing else.\<close>

lemma data_endpoint_engine:
  assumes "standard_method (dr_method req)"
  shows "engine (ctx (fst (data_endpoint sx fy elapsed other req w))) =
    (case request_op req of None \<Rightarrow> engine (ctx w) | Some a \<Rightarrow> engine_op fy a (engine (ctx w)))"
  using assms
  by (auto simp: data_endpoint_def request_op.simps standard_method_def handle_get_def handle_put_def
      handle_delete_def split: option.split prod.split)

definition served_here ::
  "('id, 'url) gossip_ext \<Rightarrow> ('id::linorder, 'url) gossip_state \<Rightarrow> data_request \<Rightarrow> bool" where
  "served_here ext g req \<longleftrightarrow>
     (case dr_key req of None \<Rightarrow> False | Some k \<Rightarrow> proxy_route ext (proxy_new g) (str_bytes k) = Local)"

lemma logger_call_eq [simp]: "logger_call (logger_transform ep) req w = ep req w"
  by (simp add: logger_transform_def split: prod.split sum.split)

lemmas data_server_defs = data_server_def cluster_proxy_call_def cluster_proxy_transform_def
  cluster_proxy_new_def Let_def

lemma data_server_local:
  "served_here ext g req \<Longrightarrow>
   data_server sx ext fy g elapsed other req w = data_endpoint sx fy elapsed other req w"
  by (auto simp: data_server_defs served_here_def split: option.splits)

lemma data_server_remote_engine:
  "\<not> served_here ext g req \<Longrightarrow> ctx (fst (data_server sx ext fy g elapsed other req w)) = ctx w"
  by (auto simp: data_server_defs served_here_def
      split: option.splits route_dest.splits)

lemma data_server_redirect:
  assumes "dr_key req = Some k" "proxy_route ext (proxy_new g) (str_bytes k) = RemoteAddr url"
  shows "data_server sx ext fy g elapsed other req w =
    (w\<lparr>measured := measured w @ [CounterAdd (op_count operation_metrics_new) 1
        [(''operation'', redirect_operation (dr_method req)), (''status'', ''redirect'')]]\<rparr>,
     Ok (temporary_redirect sx (sx_url_str sx (sx_set_path sx url (dr_path req)))))"
  using assms
  by (simp add: data_server_defs global_metrics_new_def operation_labels_def
      STATUS_REDIRECT_def)

text \<open>The operations a run of requests performs on the store of this node.\<close>

definition store_ops ::
  "('id, 'url) gossip_ext \<Rightarrow> (('id::linorder, 'url) gossip_state \<times> data_request) list \<Rightarrow> cache_op list" where
  "store_ops ext rs = List.map_filter (\<lambda>(g, req). if served_here ext g req then request_op req else None) rs"

definition serve ::
  "('id, 'url) server_env \<Rightarrow> ('id, 'url) gossip_ext \<Rightarrow> 'c foyer \<Rightarrow> 'c endpoint \<Rightarrow>
   ('id::linorder, 'url) gossip_state \<times> data_request \<Rightarrow> 'c server_world \<Rightarrow> 'c server_world" where
  "serve sx ext fy other r w = fst (data_server sx ext fy (fst r) 0 other (snd r) w)"

lemma serve_engine:
  assumes "standard_method (dr_method (snd r))"
  shows "engine (ctx (serve sx ext fy other r w)) = fold (engine_op fy) (store_ops ext [r]) (engine (ctx w))"
proof (cases "served_here ext (fst r) (snd r)")
  case True
  then show ?thesis
    by (cases "request_op (snd r)")
      (simp_all add: serve_def data_server_local store_ops_def map_filter_simps case_prod_unfold
        data_endpoint_engine [OF assms])
next
  case False
  then show ?thesis
    by (simp add: serve_def data_server_remote_engine store_ops_def map_filter_simps case_prod_unfold)
qed

lemma store_ops_Cons: "store_ops ext (r # rs) = store_ops ext [r] @ store_ops ext rs"
  by (simp add: store_ops_def map_filter_simps split: option.split)

lemma serve_run_engine:
  assumes "list_all (\<lambda>r. standard_method (dr_method (snd r))) rs"
  shows "engine (ctx (fold (serve sx ext fy other) rs w)) = fold (engine_op fy) (store_ops ext rs) (engine (ctx w))"
  using assms
proof (induction rs arbitrary: w)
  case Nil
  then show ?case by (simp add: store_ops_def map_filter_simps)
next
  case (Cons r rs)
  then show ?case by (simp add: store_ops_Cons [of ext r rs] serve_engine)
qed

text \<open>Opening the node's file, both ways.\<close>

lemma init_node_restart:
  assumes "codec_ok codec" "readable fs (node_file_path (cfg_server_dir config))"
    and "node_file_holds codec fs (node_file_path (cfg_server_dir config)) n"
    and "init_node codec fs config fresh du cu = Inr (n', fs')"
  shows "n' = (node_advance_incarnation n)\<lparr>advertise_data_url := du, advertise_ctrl_url := cu\<rparr> \<and>
    node_file_holds codec fs' (node_file_path (cfg_server_dir config)) n'"
  using assms(4) node_load_holds [OF assms(3,2), of du cu] node_persist_holds [OF assms(1)]
  by (auto simp: init_node_def Let_def node_advance_incarnation_def split: sum.splits)

lemma init_node_fresh:
  assumes "codec_ok codec" "\<not> path_exists fs (node_file_path (cfg_server_dir config))"
    and "init_node codec fs config fresh du cu = Inr (n', fs')"
  shows "n' = node_new fresh (cfg_cluster_id config) du cu \<and>
    node_file_holds codec fs' (node_file_path (cfg_server_dir config)) n'"
  using assms node_persist_holds [OF assms(1)]
  by (auto simp: init_node_def Let_def node_load_def persistent_load_def split: sum.splits)

lemma init_node_holds:
  assumes "codec_ok codec" and "init_node codec fs config fresh du cu = Inr (n', fs')"
  shows "node_file_holds codec fs' (node_file_path (cfg_server_dir config)) n'"
  using assms node_persist_holds [OF assms(1)]
  by (auto simp: init_node_def Let_def split: sum.splits option.splits)

section \<open>Properties\<close>

text \<open>
  A restart is announced with a higher incarnation than anything announced before. From whatever
  state the previous process reached, its successor takes the same id and the same cluster from
  \<open>node.json\<close>, the incarnation after the one last announced, the urls of the new process, and has
  written this identity before it is used; the cluster id and the fresh id of the new process are
  ignored.
\<close>
lemma restart_advances_incarnation:
  fixes node node' :: "('id::linorder, 'url) node_info"
  assumes "codec_ok (ext_codec ext)"
    and "init_node (ext_codec ext) fs0 config first du0 cu0 = Inr (node, fs1)"
    and "(gossip_step ext)\<^sup>*\<^sup>* (gossip_new node peers (cfg_server_dir config), fs1) (s, fs)"
    and "cfg_server_dir config' = cfg_server_dir config"
    and "readable fs (node_file_path (cfg_server_dir config))"
    and "init_node (ext_codec ext) fs config' fresh du cu = Inr (node', fs')"
  shows "node_id node' = node_id node \<and> cluster_id node' = cluster_id node \<and>
    incarnation node' = incarnation (current_node s) + 1 \<and>
    advertise_data_url node' = du \<and> advertise_ctrl_url node' = cu \<and>
    node_file_holds (ext_codec ext) fs' (node_file_path (cfg_server_dir config)) node'"
proof -
  let ?path = "node_file_path (cfg_server_dir config)"
  have "gossip_booting ext (node_id node) (gossip_new node peers (cfg_server_dir config), fs1)"
    using assms(1) init_node_holds [OF assms(1,2)] by (auto simp: gossip_booting_def)
  then have inv: "gossip_inv ext (node_id node) (s, fs)" using assms(3) by (rule gossip.reachable_inv)
  have "dir s = cfg_server_dir config"
    using gossip_run_dir [OF assms(3)] by (simp add: gossip_new_def)
  with inv have "node_file_holds (ext_codec ext) fs ?path (current_node s)"
    by (simp add: gossip_inv_def)
  with assms have n': "node' = (node_advance_incarnation (current_node s))
        \<lparr>advertise_data_url := du, advertise_ctrl_url := cu\<rparr> \<and>
      node_file_holds (ext_codec ext) fs' ?path node'"
    by (metis init_node_restart)
  obtain k where "current_node s = (node_advance_incarnation ^^ k) node"
    using gossip_run_identity [OF assms(3)] by (auto simp: gossip_new_def)
  with n' show ?thesis by (auto simp: iterate_advance)
qed

text \<open>
  C6: a node never serves a stale value. Whatever requests of the three methods it has served or
  redirected since its store was empty, under whatever changes of the ring and the table in between, a
  GET served here answers 404, or 200 with exactly the value of the last PUT served here for that key
  that no DELETE served here has followed.
\<close>
theorem data_server_never_stale:
  assumes "foyer_ok fy contents" and "contents (inner (engine (ctx w))) = Map.empty"
    and "list_all (\<lambda>r. standard_method (dr_method (snd r))) rs"
    and "served_here ext g req" and "dr_method req = GET" and "dr_key req = Some k"
  shows "\<exists>w' resp. data_server sx ext fy g elapsed other req (fold (serve sx ext fy other) rs w) = (w', Ok resp) \<and>
    (http_status resp = STATUS_NOT_FOUND \<or>
     http_status resp = STATUS_OK \<and> http_body resp = fold map_op (store_ops ext rs) Map.empty (str_bytes k))"
proof -
  let ?w = "fold (serve sx ext fy other) rs w"
  obtain e r where g: "engine_get fy (str_bytes k) (engine (ctx ?w)) = (e, r)" by force
  have "contents (inner (engine (ctx ?w))) \<subseteq>\<^sub>m fold map_op (store_ops ext rs) Map.empty"
    unfolding serve_run_engine [OF assms(3)] using assms(1,2) by (intro engine_run_refines) auto
  then have "fold map_op (store_ops ext rs) Map.empty (str_bytes k) = Some v" if "r = Some v" for v
    using engine_get_contents [OF assms(1), of "str_bytes k" "engine (ctx ?w)" v] g that
    by (force simp: map_le_def)
  with assms(4-6) g show ?thesis
    by (cases r) (simp_all add: data_server_local data_endpoint_def handle_get_def http_simps)
qed

definition demo_config :: "string server_config" where
  "demo_config = (server (config_default 0))\<lparr>cfg_server_dir := ''/d''\<rparr>"

lemma demo_persist_writable:
  assumes "writable fs p"
  shows "\<exists>fs'. node_persist (ext_codec demo_ext) fs p n = Inr fs' \<and> readable fs' = readable fs \<and> writable fs' = writable fs"
  using assms
  by (simp add: node_persist_def persistent_persist_def demo_ext_def fs_write_def)

lemma demo_init:
  assumes "readable fs = (\<lambda>_. True)" "writable fs = (\<lambda>_. True)"
  shows "\<exists>n fs'. init_node (ext_codec demo_ext) fs c i du cu = Inr (n, fs') \<and>
    readable fs' = (\<lambda>_. True) \<and> writable fs' = (\<lambda>_. True)"
proof -
  let ?p = "node_file_path (cfg_server_dir c)"
  have load: "\<exists>m. node_load (ext_codec demo_ext) fs ?p du cu = Inr m"
    using assms by (auto simp: node_load_def persistent_load_def read_to_string_def path_exists_def
        demo_ext_def Let_def split: option.splits)
  have per: "\<exists>fs'. node_persist (ext_codec demo_ext) fs ?p n = Inr fs' \<and> readable fs' = readable fs \<and>
      writable fs' = writable fs" for n
    using assms by (intro demo_persist_writable) simp
  from load obtain m where m: "node_load (ext_codec demo_ext) fs ?p du cu = Inr m" by blast
  show ?thesis
  proof (cases m)
    case None
    with m per [of "node_new i (cfg_cluster_id c) du cu"] assms show ?thesis
      by (auto simp: init_node_def)
  next
    case (Some n)
    with m per [of "node_advance_incarnation n"] assms show ?thesis
      by (auto simp: init_node_def)
  qed
qed

lemma restart_advances_incarnation_witness:
  "\<exists>node fs1 node' fs'. init_node (ext_codec demo_ext) demo_fs demo_config 1 ''u'' ''v'' = Inr (node, fs1) \<and>
     init_node (ext_codec demo_ext) fs1 demo_config 2 ''x'' ''y'' = Inr (node', fs') \<and>
     node_id node' = node_id node \<and> incarnation node' = incarnation node + 1"
proof -
  obtain node fs1 where a: "init_node (ext_codec demo_ext) demo_fs demo_config 1 ''u'' ''v'' = Inr (node, fs1)"
      "readable fs1 = (\<lambda>_. True)" "writable fs1 = (\<lambda>_. True)"
    using demo_init [of demo_fs demo_config 1 "''u''" "''v''"] by (auto simp: demo_fs_def)
  obtain node' fs' where b: "init_node (ext_codec demo_ext) fs1 demo_config 2 ''x'' ''y'' = Inr (node', fs')"
    using demo_init [OF a(2,3), of demo_config 2 "''x''" "''y''"] by blast
  have "node_id node' = node_id node \<and> incarnation node' =
      incarnation (current_node (gossip_new node [] (cfg_server_dir demo_config))) + 1"
    using restart_advances_incarnation [OF demo_ext_codec_ok a(1) rtranclp.rtrancl_refl refl _ b] a(2)
    by simp
  with a b show ?thesis by (auto simp: gossip_new_def)
qed

text \<open>A node alone in the demonstration environment, with an empty ring: it serves every key.\<close>

definition demo_sx :: "(nat, string) server_env" where
  "demo_sx = \<lparr>sx_status_text = (\<lambda>_. ''status''), sx_set_path = (\<lambda>u p. u @ p), sx_url_str = id,
     sx_path_error = PoemError 400, sx_json_type = ''json'', sx_members_json = (\<lambda>_. []),
     sx_message_json = (\<lambda>_. []), sx_build_info_json = (\<lambda>_. [])\<rparr>"

definition demo_world :: "(bytes \<rightharpoonup> bytes) server_world" where
  "demo_world = \<lparr>ctx = percas_context_new \<lparr>inner = Map.empty, capacity_of = 0\<rparr>, measured = []\<rparr>"

definition demo_request :: "http_method \<Rightarrow> bytes \<Rightarrow> data_request" where
  "demo_request m b = \<lparr>dr_method = m, dr_path = ''/k'', dr_key = Some ''k'', dr_body = Some b\<rparr>"

lemma demo_served: "served_here demo_ext (demo_state []) (demo_request m b)"
proof -
  have "membership_wf (membership_cell (demo_state []))"
    by (simp add: membership_from_iter_def)
  moreover have "serving_node demo_ext (demo_state []) key = None" for key
    by (simp add: serving_node_def alive_points_def ring_default_new successor_None_iff)
  ultimately show ?thesis
    by (simp add: served_here_def demo_request_def proxy_route_serving)
qed

theorem data_server_never_stale_witness:
  "\<exists>w' resp. data_server demo_sx demo_ext demo_foyer (demo_state []) 3 (\<lambda>req w. (w, Err (PoemError 405)))
       (demo_request GET []) (fold (serve demo_sx demo_ext demo_foyer (\<lambda>req w. (w, Err (PoemError 405))))
         [(demo_state [], demo_request PUT [7]), (demo_state [], demo_request PUT [8])] demo_world) = (w', Ok resp) \<and>
    (http_status resp = STATUS_NOT_FOUND \<or>
     http_status resp = STATUS_OK \<and> http_body resp = fold map_op (store_ops demo_ext
       [(demo_state [], demo_request PUT [7]), (demo_state [], demo_request PUT [8])]) Map.empty (str_bytes ''k''))"
  by (rule data_server_never_stale [OF demo_foyer_ok])
    (simp_all add: demo_served demo_world_def percas_context_new_def standard_method_def, simp_all add: demo_request_def)

text \<open>
  What a client may find in the response to a request of one of the three methods.
\<close>

definition response_type :: "data_request \<Rightarrow> http_response \<Rightarrow> bool" where
  "response_type req resp \<longleftrightarrow>
     http_status resp \<in> (case dr_method req of
         GET \<Rightarrow> {STATUS_OK, STATUS_NOT_FOUND, STATUS_TEMPORARY_REDIRECT}
       | PUT \<Rightarrow> {STATUS_CREATED, STATUS_BAD_REQUEST, STATUS_TEMPORARY_REDIRECT}
       | DELETE \<Rightarrow> {STATUS_NO_CONTENT, STATUS_TEMPORARY_REDIRECT}
       | _ \<Rightarrow> {}) \<and>
     (location resp \<noteq> None \<longleftrightarrow> http_status resp = STATUS_TEMPORARY_REDIRECT) \<and>
     (http_status resp = STATUS_BAD_REQUEST \<longleftrightarrow> dr_method req = PUT \<and> dr_body req = None \<and>
        http_status resp \<noteq> STATUS_TEMPORARY_REDIRECT) \<and>
     (http_status resp = STATUS_OK \<longrightarrow> content_type resp = OCTET_STREAM) \<and> http_body resp \<noteq> None"

text \<open>
  C33: the type of the data server. A request of one of the three methods with a usable key is answered,
  never failed, with one of the statuses its method can have; a location is given exactly with a redirect,
  400 is the answer exactly to a PUT served here whose body could not be read, and every answer leaves its
  measurements. Without a usable key the framework's error comes back and nothing is touched.
\<close>
theorem data_server_typed:
  assumes "standard_method (dr_method req)"
  shows "case data_server sx ext fy g elapsed other req w of
      (w', Inr resp) \<Rightarrow> dr_key req \<noteq> None \<and> response_type req resp \<and>
        (\<exists>ms. ms \<noteq> [] \<and> measured w' = measured w @ ms)
    | (w', Inl e) \<Rightarrow> dr_key req = None \<and> e = sx_path_error sx \<and> w' = w"
proof (cases "dr_key req")
  case None
  then show ?thesis by (simp add: data_server_defs)
next
  case (Some k)
  show ?thesis
  proof (cases "proxy_route ext (proxy_new g) (str_bytes k)")
    case Local
    with Some have "served_here ext g req" by (simp add: served_here_def)
    note simps = Some data_server_local [OF this] data_endpoint_def handle_get_def handle_put_def handle_delete_def
      record_operation_def response_type_def response_defs
    from assms consider "dr_method req = GET" | "dr_method req = PUT" | "dr_method req = DELETE"
      by (auto simp: standard_method_def)
    then show ?thesis
    proof cases
      case 1
      obtain e v where "engine_get fy (str_bytes k) (engine (ctx w)) = (e, v)" by (cases "engine_get fy (str_bytes k) (engine (ctx w))")
      with 1 show ?thesis by (cases v) (simp_all add: simps Let_def)
    next
      case 2
      then show ?thesis by (cases "dr_body req") (simp_all add: simps Let_def)
    qed (simp add: simps Let_def)
  next
    case (RemoteAddr url)
    with Some assms show ?thesis
      by (auto simp: data_server_redirect standard_method_def response_type_def response_defs)
  qed
qed

theorem data_server_typed_witness:
  "case data_server demo_sx demo_ext demo_foyer (demo_state []) 3 (\<lambda>req w. (w, Err (PoemError 405)))
      (demo_request PUT [7]) demo_world of
     (w', Inr resp) \<Rightarrow> dr_key (demo_request PUT [7]) \<noteq> None \<and> response_type (demo_request PUT [7]) resp \<and>
       (\<exists>ms. ms \<noteq> [] \<and> measured w' = measured demo_world @ ms)
   | (w', Inl e) \<Rightarrow> dr_key (demo_request PUT [7]) = None \<and> e = sx_path_error demo_sx \<and> w' = demo_world"
  by (rule data_server_typed) (simp add: demo_request_def standard_method_def)

text \<open>
  A request is served where the cluster wants it after one redirect. A node that does not serve a
  key itself leaves its store alone, counts the redirect and answers 307 with the path of the request
  on the data url of an alive member of its ring other than itself; that member, when it has the same
  view of ring and table, serves the request, and then its store performs the operation.
\<close>
lemma redirect_then_served:
  assumes "membership_wf (membership_cell g)" and "dr_key req = Some k" and "\<not> served_here ext g req"
    and "standard_method (dr_method req)"
  shows "\<exists>c w' resp. data_server sx ext fy g elapsed other req w = (w', Ok resp) \<and> ctx w' = ctx w \<and>
    measured w' = measured w @ [CounterAdd (op_count operation_metrics_new) 1
      [(''operation'', redirect_operation (dr_method req)), (''status'', ''redirect'')]] \<and>
    http_status resp = STATUS_TEMPORARY_REDIRECT \<and>
    location resp = Some (sx_url_str sx (sx_set_path sx (advertise_data_url (info c)) (dr_path req))) \<and>
    member_of (membership_cell g) (node_id (info c)) = Some c \<and> status c = Alive \<and>
    node_id (info c) \<noteq> node_id (current_node g) \<and>
    (\<forall>t w2. engine (ctx (fst (data_server sx ext fy (t\<lparr>ring_cell := ring_cell g,
          membership_cell := membership_cell g, current_node := info c\<rparr>) elapsed other req w2))) =
       (case request_op req of None \<Rightarrow> engine (ctx w2) | Some a \<Rightarrow> engine_op fy a (engine (ctx w2))))"
proof -
  obtain url where url: "proxy_route ext (proxy_new g) (str_bytes k) = RemoteAddr url"
    using assms(2,3) by (cases "proxy_route ext (proxy_new g) (str_bytes k)") (auto simp: served_here_def)
  obtain c where c: "member_of (membership_cell g) (node_id (info c)) = Some c" "status c = Alive"
      "advertise_data_url (info c) = url" "node_id (info c) \<noteq> node_id (current_node g)"
      and local: "\<And>t. proxy_route ext (proxy_new (t\<lparr>ring_cell := ring_cell g,
        membership_cell := membership_cell g, current_node := info c\<rparr>)) (str_bytes k) = Local"
    using redirect_target [OF assms(1) url] by blast
  have served: "served_here ext (t\<lparr>ring_cell := ring_cell g, membership_cell := membership_cell g,
      current_node := info c\<rparr>) req" for t
    using assms(2) local by (simp add: served_here_def)
  have ops: "engine (ctx (fst (data_server sx ext fy (t\<lparr>ring_cell := ring_cell g,
          membership_cell := membership_cell g, current_node := info c\<rparr>) elapsed other req w2))) =
       (case request_op req of None \<Rightarrow> engine (ctx w2) | Some a \<Rightarrow> engine_op fy a (engine (ctx w2)))" for t w2
    unfolding data_server_local [OF served] using data_endpoint_engine [OF assms(4)] .
  note answer = data_server_redirect [OF assms(2) url, of sx fy elapsed other w]
  show ?thesis
    unfolding answer
    by (rule exI [of _ c], rule exI [of _ "w\<lparr>measured := measured w @ [CounterAdd (op_count operation_metrics_new) 1
        [(''operation'', redirect_operation (dr_method req)), (''status'', ''redirect'')]]\<rparr>"],
        rule exI [of _ "temporary_redirect sx (sx_url_str sx (sx_set_path sx url (dr_path req)))"])
      (use c ops in \<open>simp add: http_simps\<close>)
qed

lemma demo_view_redirects: "\<not> served_here demo_ext demo_view (demo_request m b)"
  by (simp add: served_here_def demo_request_def proxy_route_serving [OF demo_view_wf] demo_view_serving)

lemma redirect_then_served_witness:
  "\<exists>c w' resp. data_server demo_sx demo_ext demo_foyer demo_view 3 (\<lambda>req w. (w, Err (PoemError 405)))
      (demo_request PUT [7]) demo_world = (w', Ok resp) \<and> ctx w' = ctx demo_world \<and>
    http_status resp = STATUS_TEMPORARY_REDIRECT \<and>
    location resp = Some (advertise_data_url (info c) @ ''/k'') \<and>
    member_of (membership_cell demo_view) (node_id (info c)) = Some c \<and> status c = Alive \<and> node_id (info c) \<noteq> 1"
proof -
  have key: "dr_key (demo_request PUT [7]) = Some ''k''" and m: "standard_method (dr_method (demo_request PUT [7]))"
    by (simp_all add: demo_request_def standard_method_def)
  from redirect_then_served [OF demo_view_wf key demo_view_redirects m, of demo_sx demo_foyer 3
      "\<lambda>req w. (w, Err (PoemError 405))" demo_world]
  show ?thesis by (simp add: demo_sx_def demo_request_def) blast
qed

text \<open>
  An advertised address can be dialled: it is the configured one, or it carries the port that was
  bound and an address that is not the wildcard, given that the machine reports such an address.
\<close>
lemma advertised_address_specified:
  assumes "make_acceptor_and_advertise_url nx listen adv = Inr (bound, url)"
    and "\<And>a. nx_local_ip nx = Inr a \<Longrightarrow> \<not> is_unspecified a"
  shows "\<exists>a. nx_url_of nx a = Some url \<and> nx_bind nx listen = Inr (Some bound) \<and>
    (case adv of Some x \<Rightarrow> a = x | None \<Rightarrow> port a = port bound \<and> \<not> is_unspecified (ip a))"
  using assms
  by (cases adv) (auto simp: make_acceptor_and_advertise_url_def split: sum.splits option.splits if_splits)

definition demo_net_env :: "socket_addr net_env" where
  "demo_net_env = \<lparr>nx_bind = (\<lambda>a. Ok (Some a)), nx_local_ip = Ok (V4 0x0A000001), nx_url_of = Some\<rparr>"

lemma advertised_address_specified_witness:
  "\<exists>a. nx_url_of demo_net_env a = Some \<lparr>ip = V4 0x0A000001, port = 7654\<rparr> \<and>
    nx_bind demo_net_env default_listen_data_addr = Inr (Some default_listen_data_addr) \<and>
    (case (None :: socket_addr option) of Some x \<Rightarrow> a = x
     | None \<Rightarrow> port a = port default_listen_data_addr \<and> \<not> is_unspecified (ip a))"
  by (rule advertised_address_specified)
    (auto simp: demo_net_env_def make_acceptor_and_advertise_url_def default_listen_data_addr_def)

end
