(* ===== verification/Wire.thy ===== *)
theory Wire
  imports Json Client Server "HOL-Library.Monad_Syntax"
begin

text \<open>
  What the types of the program look like as JSON: the file of a node, the gossip messages, the members and
  the version as the server sends them and as the client reads them. The encoders and decoders are those
  that \<open>serde\<close> derives from the declarations, by their field names and the attributes in the sources
  (\<open>rename_all = "lowercase"\<close> for the status; messages are tagged with the name of their variant). The texts
  of ids, urls and timestamps and the text of a JSON value belong to libraries and are the record
  \<open>wire_env\<close>; \<open>wire_ok\<close> says of them that what is written is read back and that nothing is read from an empty text. The decoders are written for the shapes
  the encoders produce: that \<open>serde\<close> also takes a struct from an array is left out.
\<close>

record ('id, 'url) wire_env =
  id_text :: "'id \<Rightarrow> string"
  id_of_text :: "string \<Rightarrow> 'id option"
  url_text :: "'url \<Rightarrow> string"
  url_of_text :: "string \<Rightarrow> 'url option"
  time_text :: "timestamp \<Rightarrow> string"
  time_of_text :: "string \<Rightarrow> timestamp option"
  json_text :: "json \<Rightarrow> string"
  json_of_text :: "string \<Rightarrow> json option"

definition wire_ok :: "('id, 'url) wire_env \<Rightarrow> bool" where
  "wire_ok we \<longleftrightarrow> (\<forall>i. id_of_text we (id_text we i) = Some i) \<and> (\<forall>u. url_of_text we (url_text we u) = Some u) \<and>
     (\<forall>t. time_of_text we (time_text we t) = Some t) \<and> (\<forall>j. json_of_text we (json_text we j) = Some j) \<and>
     json_of_text we [] = None"

section \<open>Leaves\<close>

definition id_json :: "('id, 'url) wire_env \<Rightarrow> 'id \<Rightarrow> json" where
  "id_json we i = JStr (id_text we i)"

definition id_of_json :: "('id, 'url) wire_env \<Rightarrow> json \<Rightarrow> 'id option" where
  "id_of_json we j = Option.bind (text_of j) (id_of_text we)"

definition url_json :: "('id, 'url) wire_env \<Rightarrow> 'url \<Rightarrow> json" where
  "url_json we u = JStr (url_text we u)"

definition url_of_json :: "('id, 'url) wire_env \<Rightarrow> json \<Rightarrow> 'url option" where
  "url_of_json we j = Option.bind (text_of j) (url_of_text we)"

definition time_json :: "('id, 'url) wire_env \<Rightarrow> timestamp \<Rightarrow> json" where
  "time_json we t = JStr (time_text we t)"

definition time_of_json :: "('id, 'url) wire_env \<Rightarrow> json \<Rightarrow> timestamp option" where
  "time_of_json we j = Option.bind (text_of j) (time_of_text we)"

fun status_json :: "member_status \<Rightarrow> json" where
  "status_json Alive = JStr ''alive''"
| "status_json Dead = JStr ''dead''"

definition status_of_json :: "json \<Rightarrow> member_status option" where
  "status_of_json j =
     (case text_of j of
        Some s \<Rightarrow> if s = ''alive'' then Some Alive else if s = ''dead'' then Some Dead else None
      | None \<Rightarrow> None)"

interpretation id_wire: wire_type "wire_ok we" "id_json we" "id_of_json we" id for we
  by unfold_locales (simp add: wire_ok_def id_json_def id_of_json_def)

interpretation url_wire: wire_type "wire_ok we" "url_json we" "url_of_json we" id for we
  by unfold_locales (simp add: wire_ok_def url_json_def url_of_json_def)

interpretation time_wire: wire_type "wire_ok we" "time_json we" "time_of_json we" id for we
  by unfold_locales (simp add: wire_ok_def time_json_def time_of_json_def)

interpretation status_wire: wire_type True status_json status_of_json id
proof unfold_locales
  show "status_of_json (status_json s) = Some (id s)" for s
    by (cases s) (simp_all add: status_of_json_def)
qed

section \<open>Nodes and messages\<close>

definition persistent_json :: "('id, 'url) wire_env \<Rightarrow> 'id persistent_node_info \<Rightarrow> json" where
  "persistent_json we p = JObj
     [(''node_id'', id_json we (p_node_id p)), (''cluster_id'', JStr (p_cluster_id p)),
      (''incarnation'', word_json (p_incarnation p))]"

definition persistent_of_json :: "('id, 'url) wire_env \<Rightarrow> json \<Rightarrow> 'id persistent_node_info option" where
  "persistent_of_json we j = do {
     kvs \<leftarrow> object_of j;
     i \<leftarrow> field (id_of_json we) kvs ''node_id'';
     c \<leftarrow> field text_of kvs ''cluster_id'';
     n \<leftarrow> field word_of_json kvs ''incarnation'';
     Some \<lparr>p_node_id = i, p_cluster_id = c, p_incarnation = n\<rparr>
   }"

definition node_json :: "('id, 'url) wire_env \<Rightarrow> ('id, 'url) node_info \<Rightarrow> json" where
  "node_json we n = JObj
     [(''node_id'', id_json we (node_id n)), (''cluster_id'', JStr (cluster_id n)),
      (''advertise_data_url'', url_json we (advertise_data_url n)),
      (''advertise_ctrl_url'', url_json we (advertise_ctrl_url n)),
      (''incarnation'', word_json (incarnation n))]"

definition node_of_json :: "('id, 'url) wire_env \<Rightarrow> json \<Rightarrow> ('id, 'url) node_info option" where
  "node_of_json we j = do {
     kvs \<leftarrow> object_of j;
     i \<leftarrow> field (id_of_json we) kvs ''node_id'';
     c \<leftarrow> field text_of kvs ''cluster_id'';
     du \<leftarrow> field (url_of_json we) kvs ''advertise_data_url'';
     cu \<leftarrow> field (url_of_json we) kvs ''advertise_ctrl_url'';
     n \<leftarrow> field word_of_json kvs ''incarnation'';
     Some \<lparr>node_id = i, cluster_id = c, advertise_data_url = du, advertise_ctrl_url = cu, incarnation = n\<rparr>
   }"

definition member_state_json :: "('id, 'url) wire_env \<Rightarrow> ('id, 'url) member_state \<Rightarrow> json" where
  "member_state_json we m = JObj
     [(''info'', node_json we (info m)), (''status'', status_json (status m)),
      (''heartbeat'', time_json we (heartbeat m))]"

definition member_state_of_json :: "('id, 'url) wire_env \<Rightarrow> json \<Rightarrow> ('id, 'url) member_state option" where
  "member_state_of_json we j = do {
     kvs \<leftarrow> object_of j;
     n \<leftarrow> field (node_of_json we) kvs ''info'';
     s \<leftarrow> field status_of_json kvs ''status'';
     t \<leftarrow> field (time_of_json we) kvs ''heartbeat'';
     Some \<lparr>info = n, status = s, heartbeat = t\<rparr>
   }"

fun message_json :: "('id, 'url) wire_env \<Rightarrow> ('id, 'url) gossip_message \<Rightarrow> json" where
  "message_json we (Ping n) = JObj [(''Ping'', node_json we n)]"
| "message_json we (Ack n) = JObj [(''Ack'', node_json we n)]"
| "message_json we (Sync ms) = JObj [(''Sync'', JObj [(''members'', list_json (member_state_json we) ms)])]"

fun message_of_json :: "('id, 'url) wire_env \<Rightarrow> json \<Rightarrow> ('id, 'url) gossip_message option" where
  "message_of_json we (JObj [(tag, v)]) =
     (if tag = ''Ping'' then map_option Ping (node_of_json we v)
      else if tag = ''Ack'' then map_option Ack (node_of_json we v)
      else if tag = ''Sync'' then
        Option.bind (object_of v) (\<lambda>kvs. map_option Sync (field (list_of_json (member_state_of_json we)) kvs ''members''))
      else None)"
| "message_of_json we _ = None"

lemmas wire_reads_back = id_wire.field_reads_back url_wire.field_reads_back time_wire.field_reads_back
  status_wire.field_reads_back [OF TrueI] text_wire.field_reads_back [OF TrueI]
  word_wire.field_reads_back [OF TrueI] bool_wire.field_reads_back [OF TrueI]

interpretation persistent_wire: wire_type "wire_ok we" "persistent_json we" "persistent_of_json we" id for we
  by unfold_locales (simp add: persistent_json_def persistent_of_json_def wire_reads_back)

interpretation node_wire: wire_type "wire_ok we" "node_json we" "node_of_json we" id for we
  by unfold_locales (simp add: node_json_def node_of_json_def wire_reads_back)

interpretation member_wire: wire_type "wire_ok we" "member_state_json we" "member_state_of_json we" id for we
  by unfold_locales
    (simp add: member_state_json_def member_state_of_json_def wire_reads_back node_wire.field_reads_back)

interpretation message_wire: wire_type "wire_ok we" "message_json we" "message_of_json we" id for we
proof unfold_locales
  assume "wire_ok we"
  then show "message_of_json we (message_json we m) = Some (id m)" for m
    by (cases m) (simp_all add: node_wire.reads_back field_def member_wire.list_reads_back)
qed

section \<open>Members and version\<close>

definition server_member_json :: "('id, 'url) wire_env \<Rightarrow> ('id, 'url) server_member \<Rightarrow> json" where
  "server_member_json we m = JObj
     [(''node_id'', id_json we (sm_node_id m)), (''cluster_id'', JStr (sm_cluster_id m)),
      (''advertise_data_url'', url_json we (sm_advertise_data_url m)),
      (''advertise_ctrl_url'', url_json we (sm_advertise_ctrl_url m)),
      (''incarnation'', word_json (sm_incarnation m)), (''status'', status_json (sm_status m)),
      (''heartbeat'', time_json we (sm_heartbeat m)), (''vnodes'', list_json word_json (sm_vnodes m))]"

definition list_members_json :: "('id, 'url) wire_env \<Rightarrow> ('id, 'url) list_members_response \<Rightarrow> json" where
  "list_members_json we r = JObj [(''members'', list_json (server_member_json we) (lm_members r))]"

definition build_info_json :: "build_info \<Rightarrow> json" where
  "build_info_json b = JObj
     [(''branch'', JStr (bi_branch b)), (''commit'', JStr (bi_commit b)),
      (''commit_short'', JStr (bi_commit_short b)), (''clean'', JBool (bi_clean b)),
      (''source_time'', JStr (bi_source_time b)), (''build_time'', JStr (bi_build_time b)),
      (''rustc'', JStr (bi_rustc b)), (''target'', JStr (bi_target b)), (''version'', JStr (bi_version b))]"

text \<open>The types of the client name fewer fields for a member; it ignores the others.\<close>

definition client_member_of_json :: "('id, 'url) wire_env \<Rightarrow> json \<Rightarrow> ('id, 'url) client_member option" where
  "client_member_of_json we j = do {
     kvs \<leftarrow> object_of j;
     i \<leftarrow> field (id_of_json we) kvs ''node_id'';
     du \<leftarrow> field (url_of_json we) kvs ''advertise_data_url'';
     cu \<leftarrow> field (url_of_json we) kvs ''advertise_ctrl_url'';
     n \<leftarrow> field word_of_json kvs ''incarnation'';
     vs \<leftarrow> field (list_of_json word_of_json) kvs ''vnodes'';
     Some \<lparr>cm_node_id = i, cm_advertise_data_url = du, cm_advertise_ctrl_url = cu, cm_incarnation = n,
       cm_vnodes = vs\<rparr>
   }"

definition client_members_of_json :: "('id, 'url) wire_env \<Rightarrow> json \<Rightarrow> ('id, 'url) client_member list option" where
  "client_members_of_json we j = do {
     kvs \<leftarrow> object_of j;
     field (list_of_json (client_member_of_json we)) kvs ''members''
   }"

definition client_version_of_json :: "json \<Rightarrow> client_version option" where
  "client_version_of_json j = do {
     kvs \<leftarrow> object_of j;
     a \<leftarrow> field text_of kvs ''branch'';
     b \<leftarrow> field text_of kvs ''commit'';
     c \<leftarrow> field text_of kvs ''commit_short'';
     d \<leftarrow> field bool_of kvs ''clean'';
     e \<leftarrow> field text_of kvs ''source_time'';
     f \<leftarrow> field text_of kvs ''build_time'';
     g \<leftarrow> field text_of kvs ''rustc'';
     h \<leftarrow> field text_of kvs ''target'';
     i \<leftarrow> field text_of kvs ''version'';
     Some \<lparr>v_branch = a, v_commit = b, v_commit_short = c, v_clean = d, v_source_time = e,
       v_build_time = f, v_rustc = g, v_target = h, v_version = i\<rparr>
   }"

text \<open>The fields of a member that the client's own type declares, and the version as it sees it.\<close>

definition client_view :: "('id, 'url) server_member \<Rightarrow> ('id, 'url) client_member" where
  "client_view m =
     \<lparr>cm_node_id = sm_node_id m, cm_advertise_data_url = sm_advertise_data_url m,
      cm_advertise_ctrl_url = sm_advertise_ctrl_url m, cm_incarnation = sm_incarnation m,
      cm_vnodes = sm_vnodes m\<rparr>"

definition version_view :: "build_info \<Rightarrow> client_version" where
  "version_view b =
     \<lparr>v_branch = bi_branch b, v_commit = bi_commit b, v_commit_short = bi_commit_short b, v_clean = bi_clean b,
      v_source_time = bi_source_time b, v_build_time = bi_build_time b, v_rustc = bi_rustc b,
      v_target = bi_target b, v_version = bi_version b\<rparr>"

interpretation vnodes_wire: wire_type True "list_json (word_json :: 'w::len word \<Rightarrow> json)" "list_of_json word_of_json" id
  by unfold_locales (simp add: word_wire.list_reads_back)

interpretation server_member_wire: wire_type "wire_ok we" "server_member_json we" "client_member_of_json we" client_view
  for we
  by unfold_locales
    (simp add: server_member_json_def client_member_of_json_def client_view_def wire_reads_back
      vnodes_wire.field_reads_back [OF TrueI])

interpretation members_wire: wire_type "wire_ok we" "list_members_json we" "client_members_of_json we"
  "\<lambda>r. map client_view (lm_members r)" for we
  by unfold_locales
    (simp add: list_members_json_def client_members_of_json_def field_def server_member_wire.list_reads_back)

interpretation version_wire: wire_type True build_info_json client_version_of_json version_view
  by unfold_locales (simp add: build_info_json_def client_version_of_json_def version_view_def wire_reads_back)

section \<open>Server and client with this encoding\<close>

definition body_of :: "('id, 'url) wire_env \<Rightarrow> json \<Rightarrow> bytes" where
  "body_of we j = str_bytes (json_text we j)"

definition read_body :: "('id, 'url) wire_env \<Rightarrow> bytes \<Rightarrow> json option" where
  "read_body we b = json_of_text we (map (\<lambda>w. char_of (unat w)) b)"

definition wired_server :: "('id, 'url) wire_env \<Rightarrow> ('id, 'url) server_env \<Rightarrow> ('id, 'url) server_env" where
  "wired_server we sx = sx\<lparr>sx_members_json := \<lambda>r. body_of we (list_members_json we r),
     sx_message_json := \<lambda>m. body_of we (message_json we m),
     sx_build_info_json := \<lambda>b. body_of we (build_info_json b)\<rparr>"

definition decoded :: "(json \<Rightarrow> 'a option) \<Rightarrow> json option \<Rightarrow> string + 'a" where
  "decoded dec j = (case Option.bind j dec of None \<Rightarrow> Err ''error decoding response body'' | Some x \<Rightarrow> Ok x)"

definition wired_client ::
  "('id, 'url) wire_env \<Rightarrow> ('id, 'url, 'w) client_env \<Rightarrow> ('id, 'url, 'w) client_env" where
  "wired_client we cx = cx\<lparr>cx_members := \<lambda>b. decoded (client_members_of_json we) (read_body we b),
     cx_version := \<lambda>b. decoded client_version_of_json (read_body we b)\<rparr>"

text \<open>The codec of the node file.\<close>

definition wired_codec :: "('id, 'url) wire_env \<Rightarrow> 'id node_codec" where
  "wired_codec we =
     \<lparr>to_string_pretty = (\<lambda>p. Some (json_text we (persistent_json we p))),
      from_str = (\<lambda>s. Option.bind (json_of_text we s) (persistent_of_json we))\<rparr>"

lemma char_of_byte [simp]: "char_of (unat (of_char c :: u8)) = c"
proof -
  have "(of_char c :: u8) = of_nat (of_char c)" by (cases c) (simp add: of_char_def)
  then have "unat (of_char c :: u8) = of_char c mod 256" by (simp only: unat_of_nat) simp
  then show ?thesis by simp
qed

lemma read_body_of: "wire_ok we \<Longrightarrow> read_body we (body_of we j) = Some j"
  by (simp add: wire_ok_def read_body_def body_of_def str_bytes_def comp_def)

lemma wired_codec_ok: "wire_ok we \<Longrightarrow> codec_ok (wired_codec we)"
  by (auto simp: codec_ok_def wired_codec_def wire_ok_def persistent_wire.reads_back)

end
