(* ===== verification/WireLink.thy ===== *)
theory WireLink
  imports Wire
begin

text \<open>
  Server and client, and two gossip nodes, connected by the encodings of \<open>Wire\<close>: what one side writes into a
  body the other side reads from it. The first section is a concrete text for JSON values, numbers and
  strings, a prefix code with numbers in unary, which shows that \<open>wire_ok\<close> can hold. The last one holds the
  serialization tests of \<open>member.rs\<close> and \<open>server.rs\<close>.
\<close>

section \<open>A text for JSON\<close>

definition nat_text :: "nat \<Rightarrow> string" where
  "nat_text n = replicate n (CHR ''1'') @ ''0''"

fun read_nat :: "string \<Rightarrow> (nat \<times> string) option" where
  "read_nat [] = None"
| "read_nat (c # cs) = (if c = CHR ''1'' then map_option (map_prod Suc id) (read_nat cs) else Some (0, cs))"

lemma read_nat_text [simp]: "read_nat (nat_text n @ s) = Some (n, s)"
  by (induction n) (simp_all add: nat_text_def)

definition int_text :: "int \<Rightarrow> string" where
  "int_text i = nat_text (nat i) @ nat_text (nat (- i))"

definition read_int :: "string \<Rightarrow> (int \<times> string) option" where
  "read_int s = Option.bind (read_nat s) (\<lambda>(a, s). map_option (\<lambda>(b, s). (int a - int b, s)) (read_nat s))"

lemma read_int_text [simp]: "read_int (int_text i @ s) = Some (i, s)"
  by (simp add: read_int_def int_text_def)

definition str_text :: "string \<Rightarrow> string" where
  "str_text x = nat_text (length x) @ x"

definition read_str :: "string \<Rightarrow> (string \<times> string) option" where
  "read_str s = map_option (\<lambda>(n, s). (take n s, drop n s)) (read_nat s)"

lemma read_str_text [simp]: "read_str (str_text x @ s) = Some (x, s)"
  by (simp add: read_str_def str_text_def)

fun demo_json_text :: "json \<Rightarrow> string" where
  "demo_json_text JNull = ''n''"
| "demo_json_text (JBool b) = (if b then ''t'' else ''f'')"
| "demo_json_text (JNum i) = CHR ''i'' # int_text i"
| "demo_json_text (JStr x) = CHR ''s'' # str_text x"
| "demo_json_text (JArr vs) = CHR ''a'' # nat_text (length vs) @ concat (map demo_json_text vs)"
| "demo_json_text (JObj kvs) =
     CHR ''o'' # nat_text (length kvs) @ concat (map (\<lambda>(k, v). str_text k @ demo_json_text v) kvs)"

fun read_many :: "(string \<Rightarrow> ('a \<times> string) option) \<Rightarrow> nat \<Rightarrow> string \<Rightarrow> ('a list \<times> string) option" where
  "read_many f 0 s = Some ([], s)"
| "read_many f (Suc n) s =
     Option.bind (f s) (\<lambda>(x, s). map_option (map_prod (\<lambda>xs. x # xs) id) (read_many f n s))"

definition read_entry :: "(string \<Rightarrow> (json \<times> string) option) \<Rightarrow> string \<Rightarrow> ((string \<times> json) \<times> string) option" where
  "read_entry f s = Option.bind (read_str s) (\<lambda>(k, s). map_option (map_prod (\<lambda>v. (k, v)) id) (f s))"

fun read_json :: "nat \<Rightarrow> string \<Rightarrow> (json \<times> string) option" where
  "read_json (Suc n) (c # s) =
     (if c = CHR ''n'' then Some (JNull, s)
      else if c = CHR ''t'' then Some (JBool True, s)
      else if c = CHR ''f'' then Some (JBool False, s)
      else if c = CHR ''i'' then map_option (map_prod JNum id) (read_int s)
      else if c = CHR ''s'' then map_option (map_prod JStr id) (read_str s)
      else if c = CHR ''a'' then
        Option.bind (read_nat s) (\<lambda>(k, s). map_option (map_prod JArr id) (read_many (read_json n) k s))
      else if c = CHR ''o'' then
        Option.bind (read_nat s) (\<lambda>(k, s). map_option (map_prod JObj id) (read_many (read_entry (read_json n)) k s))
      else None)"
| "read_json _ _ = None"

lemma read_many_texts:
  "(\<And>x s. x \<in> set xs \<Longrightarrow> f (g x @ s) = Some (x, s)) \<Longrightarrow> read_many f (length xs) (concat (map g xs) @ s) = Some (xs, s)"
  by (induction xs) simp_all

lemma part_shorter: "x \<in> set xs \<Longrightarrow> length (f x) \<le> length (concat (map f xs))"
  by (induction xs) auto

lemma read_json_text: "length (demo_json_text j) \<le> n \<Longrightarrow> read_json n (demo_json_text j @ s) = Some (j, s)"
proof (induction j arbitrary: n s rule: demo_json_text.induct)
  case (5 vs)
  then obtain m where n: "n = Suc m" "length (concat (map demo_json_text vs)) \<le> m" by (cases n) auto
  have "read_many (read_json m) (length vs) (concat (map demo_json_text vs) @ s) = Some (vs, s)"
  proof (rule read_many_texts)
    fix v s assume "v \<in> set vs"
    with 5(1) part_shorter [of v vs demo_json_text] n show "read_json m (demo_json_text v @ s) = Some (v, s)" by simp
  qed
  with n show ?case by simp
next
  case (6 kvs)
  let ?f = "\<lambda>(k, v). str_text k @ demo_json_text v"
  from 6(2) obtain m where n: "n = Suc m" "length (concat (map ?f kvs)) \<le> m" by (cases n) auto
  have "read_many (read_entry (read_json m)) (length kvs) (concat (map ?f kvs) @ s) = Some (kvs, s)"
  proof (rule read_many_texts)
    fix e s assume e: "e \<in> set kvs"
    obtain k v where kv: "e = (k, v)" by (cases e)
    have "length (demo_json_text v) \<le> m"
      using part_shorter [OF e, of ?f] n kv by simp
    with 6(1) [OF e] kv show "read_entry (read_json m) (?f e @ s) = Some (e, s)"
      by (simp add: read_entry_def)
  qed
  with n show ?case by simp
qed (auto simp: neq_Nil_conv Suc_le_length_iff dest!: Suc_le_D)

definition demo_wire :: "(nat, string) wire_env" where
  "demo_wire =
     \<lparr>id_text = nat_text, id_of_text = (\<lambda>s. map_option fst (read_nat s)),
      url_text = id, url_of_text = Some,
      time_text = int_text, time_of_text = (\<lambda>s. map_option fst (read_int s)),
      json_text = demo_json_text, json_of_text = (\<lambda>s. map_option fst (read_json (length s) s))\<rparr>"

lemma demo_wire_ok: "wire_ok demo_wire"
  using read_nat_text [of _ "[]"] read_int_text [of _ "[]"] read_json_text [of _ _ "[]"]
  by (simp add: wire_ok_def demo_wire_def)

section \<open>Gossip over HTTP\<close>

text \<open>
  The body of a POST to \<open>/gossip\<close> on the way: the sender writes the message, the extractor \<open>Json\<close> of the
  receiver reads it and answers 400 when it cannot, the handler runs, and the sender reads the body of the
  response. A panic of the handler closes the connection.
\<close>

definition gossip_post ::
  "('id, 'url) wire_env \<Rightarrow> ('id, 'url) server_env \<Rightarrow> ('id, 'url) gossip_ext \<Rightarrow> timestamp \<Rightarrow>
   ('id::linorder, 'url) gossip_state \<Rightarrow> file_system \<Rightarrow> ('id, 'url) gossip_message \<Rightarrow>
   ('id, 'url) gossip_state \<times> file_system \<times> ('id, 'url) gossip_response option" where
  "gossip_post we sx ext now g fs msg =
     (case Option.bind (read_body we (body_of we (message_json we msg))) (message_of_json we) of
        None \<Rightarrow> (g, fs, Some \<lparr>resp_status = STATUS_BAD_REQUEST, resp_json = None\<rparr>)
      | Some received \<Rightarrow>
          (case gossip_handler (wired_server we sx) ext now received g fs of
             (g', fs', Inl p) \<Rightarrow> (g', fs', None)
           | (g', fs', Inr resp) \<Rightarrow>
               (g', fs', Some \<lparr>resp_status = http_status resp,
                  resp_json = Option.bind (Option.bind (http_body resp) (read_body we)) (message_of_json we)\<rparr>)))"

lemma message_read: "wire_ok we \<Longrightarrow> Option.bind (read_body we (body_of we (message_json we m))) (message_of_json we) = Some m"
  by (simp add: read_body_of message_wire.reads_back)

lemma read_empty_body: "wire_ok we \<Longrightarrow> read_body we [] = None"
  by (simp add: wire_ok_def read_body_def)

text \<open>
  C10: gossip over HTTP and JSON is a call of the handler. When a message is posted to a node, the node's
  state and file become those \<open>handle_message\<close> leaves for exactly this message, and \<open>Transport::send\<close> of the
  sender returns exactly the reply of the handler; it fails when the handler has no reply or panics.
\<close>
theorem gossip_over_http:
  assumes "wire_ok we" and "ext_join ext url ''gossip'' = Some url'"
    and "handle_message ext now g fs msg = (g', fs', r)"
  shows "\<exists>resp. gossip_post we sx ext now g fs msg = (g', fs', resp) \<and>
    transport_send ext (\<lambda>_ _. resp) url msg =
      (case r of Inr (Some reply) \<Rightarrow> Ok reply | _ \<Rightarrow> Err (GossipError ''failed to send message''))"
proof -
  have sx: "sx_message_json (wired_server we sx) m = body_of we (message_json we m)" for m
    by (simp add: wired_server_def)
  consider p where "r = Inl p" | "r = Inr None" | reply where "r = Inr (Some reply)"
    by (metis obj_sumE option.exhaust)
  then show ?thesis
    by cases (simp_all add: gossip_post_def message_read [OF assms(1)] gossip_handler_def assms transport_send_def
        json_response_def empty_response_def sx read_empty_body)
qed

lemma demo_wire_ext: "ext_join (demo_ext\<lparr>ext_join := \<lambda>u p. Some (u @ p)\<rparr>) ''u'' ''gossip'' = Some ''ugossip''"
  by simp

theorem gossip_over_http_witness:
  "\<exists>g' fs' resp. gossip_post demo_wire demo_sx (demo_ext\<lparr>ext_join := \<lambda>u p. Some (u @ p)\<rparr>) 4 (demo_state []) demo_fs
      (Ping (demo_node 2 0)) = (g', fs', resp) \<and>
    transport_send (demo_ext\<lparr>ext_join := \<lambda>u p. Some (u @ p)\<rparr>) (\<lambda>_ _. resp) ''u'' (Ping (demo_node 2 0)) =
      Ok (Ack (demo_node 1 0))"
proof -
  obtain g' fs' r where h: "handle_message (demo_ext\<lparr>ext_join := \<lambda>u p. Some (u @ p)\<rparr>) 4 (demo_state []) demo_fs
      (Ping (demo_node 2 0)) = (g', fs', r)" using prod_cases3 by blast
  then have "r = Inr (Some (Ack (demo_node 1 0)))"
    by (auto simp: handle_message_def is_dead_def member_of_merge membership_from_iter_def Let_def)
  with gossip_over_http [OF demo_wire_ok demo_wire_ext h, of demo_sx] show ?thesis by auto
qed

section \<open>Members and version\<close>

definition client_members ::
  "('id, 'url) gossip_ext \<Rightarrow> ('id::linorder, 'url) gossip_state \<Rightarrow> ('id, 'url) client_member list" where
  "client_members ext g = map client_view (lm_members (list_members ext g))"

lemma client_reads_members:
  "wire_ok we \<Longrightarrow> cx_members (wired_client we cx) (body_of we (list_members_json we r)) = Ok (map client_view (lm_members r))"
  by (simp add: wired_client_def decoded_def read_body_of members_wire.reads_back)

lemma client_reads_version:
  "wire_ok we \<Longrightarrow> cx_version (wired_client we cx) (body_of we (build_info_json b)) = Ok (version_view b)"
  by (simp add: wired_client_def decoded_def read_body_of version_wire.reads_back [OF TrueI])

text \<open>
  C18: what the program writes as JSON it reads back. A gossip message is the same on the other side; the
  file of a node gives the information that was written to it; from the bodies of the server's \<open>members\<close> and
  \<open>version\<close> endpoints the client reads every member with the fields its own type declares, and every field
  of the build information.
\<close>
theorem json_round_trips:
  assumes "wire_ok we"
  shows "Option.bind (read_body we (body_of we (message_json we m))) (message_of_json we) = Some m \<and>
    codec_ok (wired_codec we) \<and>
    (\<exists>b. http_body (list_members_handler (wired_server we sx) ext g) = Some b \<and>
      cx_members (wired_client we cx) b = Ok (client_members ext g)) \<and>
    (\<exists>b. http_body (fetch_version (wired_server we sx) bi) = Some b \<and>
      cx_version (wired_client we cx) b = Ok (version_view bi))"
proof -
  have "http_body (list_members_handler (wired_server we sx) ext g) = Some (body_of we (list_members_json we (list_members ext g)))"
      "http_body (fetch_version (wired_server we sx) bi) = Some (body_of we (build_info_json bi))"
    by (simp_all add: list_members_handler_def fetch_version_def json_response_def wired_server_def)
  with assms show ?thesis
    by (simp add: message_read wired_codec_ok client_members_def client_reads_members client_reads_version)
qed

theorem json_round_trips_witness:
  "Option.bind (read_body demo_wire (body_of demo_wire (message_json demo_wire (Ping (demo_node 2 0)))))
     (message_of_json demo_wire) = Some (Ping (demo_node 2 0)) \<and> codec_ok (wired_codec demo_wire)"
  using json_round_trips [OF demo_wire_ok, of "Ping (demo_node 2 0)"] by blast

section \<open>The serialization tests\<close>

text \<open>
  \<open>test_member_serde\<close> and \<open>test_list_members_serde\<close>: \<open>assert_json_snapshot!\<close> compares the JSON of a value, with
  its fields in order, with the recorded one. \<open>Uuid::from_u64_pair\<close>, \<open>Uuid::nil\<close> and the parser of urls are
  arguments; \<open>Timestamp::constant\<close> is a number of nanoseconds.
\<close>

definition timestamp_constant :: "int \<Rightarrow> int \<Rightarrow> timestamp" where
  "timestamp_constant secs nanos = secs * 1000000000 + nanos"

definition test_member_serde ::
  "('id, 'url) wire_env \<Rightarrow> (u64 \<Rightarrow> u64 \<Rightarrow> 'id) \<Rightarrow> (string \<Rightarrow> 'url option) \<Rightarrow> panic + unit" where
  "test_member_serde we from_u64_pair parse =
     panic_bind (unwrap (parse ''http://127.0.0.1:7654'')) (\<lambda>data_url.
     panic_bind (unwrap (parse ''http://127.0.0.1:7655'')) (\<lambda>ctrl_url.
     let member = \<lparr>info = \<lparr>node_id = from_u64_pair 1234 5678, cluster_id = ''cluster'',
             advertise_data_url = data_url, advertise_ctrl_url = ctrl_url, incarnation = 1\<rparr>,
           status = Alive, heartbeat = timestamp_constant 12345 6789\<rparr>
     in rust_assert (member_state_json we member = JObj
          [(''info'', JObj
             [(''node_id'', JStr ''00000000-0000-04d2-0000-00000000162e''),
              (''cluster_id'', JStr ''cluster''),
              (''advertise_data_url'', JStr ''http://127.0.0.1:7654/''),
              (''advertise_ctrl_url'', JStr ''http://127.0.0.1:7655/''),
              (''incarnation'', JNum 1)]),
           (''status'', JStr ''alive''),
           (''heartbeat'', JStr ''1970-01-01T03:25:45.000006789Z'')])))"

definition test_list_members_serde ::
  "('id, 'url) wire_env \<Rightarrow> 'id \<Rightarrow> (string \<Rightarrow> 'url option) \<Rightarrow> panic + unit" where
  "test_list_members_serde we nil parse =
     panic_bind (unwrap (parse ''http://127.0.0.1:7654'')) (\<lambda>data_url.
     panic_bind (unwrap (parse ''http://127.0.0.1:7655'')) (\<lambda>ctrl_url.
     let resp = \<lparr>lm_members =
           [\<lparr>sm_node_id = nil, sm_cluster_id = ''cluster'', sm_advertise_data_url = data_url,
             sm_advertise_ctrl_url = ctrl_url, sm_incarnation = 2, sm_status = Alive,
             sm_heartbeat = timestamp_constant 123 456, sm_vnodes = [1, 2, 3]\<rparr>]\<rparr>
     in rust_assert (list_members_json we resp = JObj
          [(''members'', JArr
             [JObj
               [(''node_id'', JStr ''00000000-0000-0000-0000-000000000000''),
                (''cluster_id'', JStr ''cluster''),
                (''advertise_data_url'', JStr ''http://127.0.0.1:7654/''),
                (''advertise_ctrl_url'', JStr ''http://127.0.0.1:7655/''),
                (''incarnation'', JNum 2),
                (''status'', JStr ''alive''),
                (''heartbeat'', JStr ''1970-01-01T00:02:03.000000456Z''),
                (''vnodes'', JArr [JNum 1, JNum 2, JNum 3])]])])))"

text \<open>
  The tests pass when ids, urls and timestamps are written as \<open>uuid\<close>, \<open>url\<close> and \<open>jiff\<close> write them: names,
  order and shape of the fields are those of the recorded documents.
\<close>
lemma serde_tests_pass:
  assumes "parse ''http://127.0.0.1:7654'' = Some du" "url_text we du = ''http://127.0.0.1:7654/''"
    and "parse ''http://127.0.0.1:7655'' = Some cu" "url_text we cu = ''http://127.0.0.1:7655/''"
    and "id_text we (from_u64_pair 1234 5678) = ''00000000-0000-04d2-0000-00000000162e''"
    and "id_text we nil = ''00000000-0000-0000-0000-000000000000''"
    and "time_text we 12345000006789 = ''1970-01-01T03:25:45.000006789Z''"
    and "time_text we 123000000456 = ''1970-01-01T00:02:03.000000456Z''"
  shows "test_member_serde we from_u64_pair parse = Ok ()" and "test_list_members_serde we nil parse = Ok ()"
  using assms
  by (simp_all add: test_member_serde_def test_list_members_serde_def Let_def member_state_json_def node_json_def
      list_members_json_def server_member_json_def list_json_def id_json_def url_json_def time_json_def
      word_json_def timestamp_constant_def)

end
