(* ===== verification/RingTests.thy ===== *)
theory RingTests
  imports Ring Http Decimal "HOL-Library.Char_ord" "HOL-Library.List_Lexorder"
begin

text \<open>
  The \<open>Debug\<close> output and the unit test of \<open>crates/gossip/src/ring.rs\<close>. The test compares a ring of three
  names with recorded snapshots. Here it is a program over the model, with the hash function as its
  argument; it is run with MurmurHash3, and passes: the model of the ring reproduces the hashes, the order
  and the owners that are recorded in the repository.
\<close>

section \<open>Debug output\<close>

fun comma_separated :: "string list \<Rightarrow> string" where
  "comma_separated [] = []"
| "comma_separated [s] = s"
| "comma_separated (s # ss) = s @ '', '' @ comma_separated ss"

text \<open>\<open>Debug\<close> of \<open>u32\<close>, \<open>BTreeSet\<close> and \<open>BTreeMap\<close>.\<close>

definition debug_u32 :: "u32 \<Rightarrow> string" where
  "debug_u32 w = decimal (uint w)"

definition debug_set :: "('t \<Rightarrow> string) \<Rightarrow> 't::linorder btree_set \<Rightarrow> string" where
  "debug_set dbg s = ''{'' @ comma_separated (map dbg (bt_keys s)) @ ''}''"

definition debug_map :: "('k \<Rightarrow> string) \<Rightarrow> ('v \<Rightarrow> string) \<Rightarrow> ('k::linorder, 'v) btree_map \<Rightarrow> string" where
  "debug_map dk dv m = ''{'' @ comma_separated (map (\<lambda>(k, v). dk k @ '': '' @ dv v) (bt_entries m)) @ ''}''"

definition debug_ring :: "('t \<Rightarrow> string) \<Rightarrow> 't::linorder hash_ring \<Rightarrow> string" where
  "debug_ring dbg r =
     ''HashRing { vnodes: '' @ debug_u32 (vnodes r) @ '', nodes: '' @ debug_map debug_u32 (debug_set dbg) (nodes r) @ '' }''"

section \<open>The test\<close>

text \<open>\<open>Debug\<close> of a \<open>str\<close> when no character needs an escape.\<close>

definition debug_str :: "string \<Rightarrow> string" where
  "debug_str s = ''\"'' @ s @ ''\"''"

definition make_ring :: "(bytes \<Rightarrow> u32 \<Rightarrow> u32) \<Rightarrow> string list \<Rightarrow> u32 \<Rightarrow> string hash_ring" where
  "make_ring mur3 names vnode = fold (add_node mur3 str_bytes) names (ring_new vnode)"

definition snapshot_is :: "string \<Rightarrow> string \<Rightarrow> panic + unit" where
  "snapshot_is got expected = rust_assert (got = expected)"

text \<open>\<open>assert_compact_debug_snapshot!\<close> on the owner of a key.\<close>

definition owner_snapshot :: "(bytes \<Rightarrow> u32 \<Rightarrow> u32) \<Rightarrow> string hash_ring \<Rightarrow> string \<Rightarrow> string option \<Rightarrow> panic + unit" where
  "owner_snapshot mur3 ring key expected = rust_assert (lookup mur3 ring (str_bytes key) = expected)"

definition test_hash_ring :: "(bytes \<Rightarrow> u32 \<Rightarrow> u32) \<Rightarrow> panic + unit" where
  "test_hash_ring mur3 =
     (let ring = make_ring mur3 [''node1'', ''node2'', ''node3''] 3 in
      panic_bind (snapshot_is (debug_ring debug_str ring)
        ''HashRing { vnodes: 3, nodes: {1272787373: {\"node3\"}, 1289029168: {\"node3\"}, 1791529263: {\"node2\"}, 1990303436: {\"node1\"}, 2055369648: {\"node1\"}, 2070135716: {\"node2\"}, 2770348452: {\"node2\"}, 2867117499: {\"node1\"}, 3314592930: {\"node3\"}} }'') (\<lambda>_.
      panic_bind (owner_snapshot mur3 ring ''key1'' (Some ''node2'')) (\<lambda>_.
      panic_bind (owner_snapshot mur3 ring ''key2'' (Some ''node1'')) (\<lambda>_.
      panic_bind (owner_snapshot mur3 ring ''key3'' (Some ''node1'')) (\<lambda>_.
      let ring = make_ring mur3 [''node1'', ''node2'', ''node3''] 1 in
      panic_bind (snapshot_is (debug_ring debug_str ring)
        ''HashRing { vnodes: 1, nodes: {1791529263: {\"node2\"}, 2055369648: {\"node1\"}, 3314592930: {\"node3\"}} }'') (\<lambda>_.
      panic_bind (owner_snapshot mur3 ring ''key1'' (Some ''node3'')) (\<lambda>_.
      panic_bind (owner_snapshot mur3 ring ''key2'' (Some ''node1'')) (\<lambda>_.
      owner_snapshot mur3 ring ''key3'' (Some ''node3'')))))))))"

section \<open>MurmurHash3\<close>

text \<open>
  The published algorithm, 32 bits for x86, as an instance of the argument \<open>mur3\<close>: blocks of four bytes, up
  to three bytes of a tail, and the final mix of the length.
\<close>

definition rotl32 :: "nat \<Rightarrow> u32 \<Rightarrow> u32" where
  "rotl32 r w = or (push_bit r w) (drop_bit (32 - r) w)"

definition murmur_scramble :: "u32 \<Rightarrow> u32" where
  "murmur_scramble k = rotl32 15 (k * 0xcc9e2d51) * 0x1b873593"

fun le_word :: "bytes \<Rightarrow> u32" where
  "le_word [] = 0"
| "le_word (b # bs) = ucast b + push_bit 8 (le_word bs)"

fun murmur_body :: "u32 \<Rightarrow> bytes \<Rightarrow> u32" where
  "murmur_body h (b0 # b1 # b2 # b3 # bs) =
     murmur_body (rotl32 13 (xor h (murmur_scramble (le_word [b0, b1, b2, b3]))) * 5 + 0xe6546b64) bs"
| "murmur_body h bs = (if bs = [] then h else xor h (murmur_scramble (le_word bs)))"

definition murmur_final :: "u32 \<Rightarrow> u32" where
  "murmur_final h =
     (let h = xor h (drop_bit 16 h) * 0x85ebca6b;
          h = xor h (drop_bit 13 h) * 0xc2b2ae35
      in xor h (drop_bit 16 h))"

definition murmurhash3_x86_32 :: "bytes \<Rightarrow> u32 \<Rightarrow> u32" where
  "murmurhash3_x86_32 key seed = murmur_final (xor (murmur_body seed key) (word_of_nat (length key)))"

section \<open>The test passes\<close>

abbreviation three_names :: "string list" where
  "three_names \<equiv> [''node1'', ''node2'', ''node3'']"

lemma node_hashes:
  "hash_node murmurhash3_x86_32 str_bytes ''node1'' 0 = 2055369648"
  "hash_node murmurhash3_x86_32 str_bytes ''node1'' 1 = 2867117499"
  "hash_node murmurhash3_x86_32 str_bytes ''node1'' 2 = 1990303436"
  "hash_node murmurhash3_x86_32 str_bytes ''node2'' 0 = 1791529263"
  "hash_node murmurhash3_x86_32 str_bytes ''node2'' 1 = 2770348452"
  "hash_node murmurhash3_x86_32 str_bytes ''node2'' 2 = 2070135716"
  "hash_node murmurhash3_x86_32 str_bytes ''node3'' 0 = 3314592930"
  "hash_node murmurhash3_x86_32 str_bytes ''node3'' 1 = 1289029168"
  "hash_node murmurhash3_x86_32 str_bytes ''node3'' 2 = 1272787373"
  by code_simp+

lemma key_hashes:
  "hash_key murmurhash3_x86_32 (str_bytes ''key1'') = 2610364709"
  "hash_key murmurhash3_x86_32 (str_bytes ''key2'') = 1936800180"
  "hash_key murmurhash3_x86_32 (str_bytes ''key3'') = 2789796696"
  by code_simp+

lemma ranges: "u32_range 3 = [0, 1, 2]" "u32_range 1 = [0]"
  by code_simp+

lemmas ring_eval = make_ring_def add_node_def ring_new_def ranges node_hashes add_point_def bs_insert_def

lemma snapshot_of_three: "snapshot_is (debug_ring debug_str (make_ring murmurhash3_x86_32 three_names 3))
  ''HashRing { vnodes: 3, nodes: {1272787373: {\"node3\"}, 1289029168: {\"node3\"}, 1791529263: {\"node2\"}, 1990303436: {\"node1\"}, 2055369648: {\"node1\"}, 2070135716: {\"node2\"}, 2770348452: {\"node2\"}, 2867117499: {\"node1\"}, 3314592930: {\"node3\"}} }'' = Ok ()"
  by code_simp

lemma snapshot_of_one: "snapshot_is (debug_ring debug_str (make_ring murmurhash3_x86_32 three_names 1))
  ''HashRing { vnodes: 1, nodes: {1791529263: {\"node2\"}, 2055369648: {\"node1\"}, 3314592930: {\"node3\"}} }'' = Ok ()"
  by code_simp

lemma owners_of_three:
  "owner_snapshot murmurhash3_x86_32 (make_ring murmurhash3_x86_32 three_names 3) ''key1'' (Some ''node2'') = Ok ()"
  "owner_snapshot murmurhash3_x86_32 (make_ring murmurhash3_x86_32 three_names 3) ''key2'' (Some ''node1'') = Ok ()"
  "owner_snapshot murmurhash3_x86_32 (make_ring murmurhash3_x86_32 three_names 3) ''key3'' (Some ''node1'') = Ok ()"
  by (simp_all add: owner_snapshot_def lookup_def key_hashes ring_eval bt_range_from_def bt_keys_def btree_simps)

lemma owners_of_one:
  "owner_snapshot murmurhash3_x86_32 (make_ring murmurhash3_x86_32 three_names 1) ''key1'' (Some ''node3'') = Ok ()"
  "owner_snapshot murmurhash3_x86_32 (make_ring murmurhash3_x86_32 three_names 1) ''key2'' (Some ''node1'') = Ok ()"
  "owner_snapshot murmurhash3_x86_32 (make_ring murmurhash3_x86_32 three_names 1) ''key3'' (Some ''node3'') = Ok ()"
  by (simp_all add: owner_snapshot_def lookup_def key_hashes ring_eval bt_range_from_def bt_keys_def btree_simps)


end
