(* ===== verification/CrashSafety.thy ===== *)
theory CrashSafety
  imports Server
begin

text \<open>
  The node file under crashes. \<open>PersistentNodeInfo::persist\<close> (\<open>crates/gossip/src/node.rs\<close>) writes with
  \<open>std::fs::write\<close>, which truncates the file and then fills it: a process killed in between leaves a
  proper prefix of the document. The history of a directory is the sequence of the processes that ran
  in it, each started by \<open>init_node\<close>, run by the steps of the gossip, and killed anywhere, in the middle
  of a write too. The first part gives what a kill can leave on the disk, the second the history and its
  invariant.
\<close>

section \<open>Writes cut short\<close>

definition torn_write :: "file_system \<Rightarrow> string \<Rightarrow> string \<Rightarrow> nat \<Rightarrow> file_system" where
  "torn_write fs path data k = fs\<lparr>files := (files fs)(path \<mapsto> take k data)\<rparr>"

text \<open>What is on the disk when the process is killed during \<open>std::fs::write\<close>, from before the open to after the last byte.\<close>

definition write_crashes :: "file_system \<Rightarrow> string \<Rightarrow> string \<Rightarrow> file_system list" where
  "write_crashes fs path data =
     fs # (if writable fs path then map (torn_write fs path data) [0..<Suc (length data)] else [])"

definition persist_crashes ::
  "'id node_codec \<Rightarrow> file_system \<Rightarrow> string \<Rightarrow> ('id, 'url) node_info \<Rightarrow> file_system list" where
  "persist_crashes codec fs path n =
     (case to_string_pretty codec (persistent_from n) of
        None \<Rightarrow> [fs]
      | Some data \<Rightarrow> write_crashes fs path data)"

text \<open>A kill during \<open>handle_message\<close>, which writes only to refute the node's own death.\<close>

definition message_crashes ::
  "('id, 'url) gossip_ext \<Rightarrow> timestamp \<Rightarrow> ('id::linorder, 'url) gossip_state \<Rightarrow> file_system \<Rightarrow>
   ('id, 'url) gossip_message \<Rightarrow> file_system list" where
  "message_crashes ext now s fs msg =
     (let s1 = fst (apply_message now s msg) in
      if is_dead (membership_cell s1) (node_id (current_node s1)) then
        persist_crashes (ext_codec ext) fs (node_file_path (dir s1)) (node_advance_incarnation (current_node s1))
      else [fs])"

text \<open>A kill during the first part of \<open>start_gossip\<close>.\<close>

definition init_crashes ::
  "'id node_codec \<Rightarrow> file_system \<Rightarrow> 'url server_config \<Rightarrow> 'id \<Rightarrow> 'url \<Rightarrow> 'url \<Rightarrow> file_system list" where
  "init_crashes codec fs config fresh_id data_url ctrl_url =
     (let path = node_file_path (cfg_server_dir config) in
      case node_load codec fs path data_url ctrl_url of
        Inl p \<Rightarrow> [fs]
      | Inr (Some node) \<Rightarrow> persist_crashes codec fs path (node_advance_incarnation node)
      | Inr None \<Rightarrow>
          persist_crashes codec fs path (node_new fresh_id (cfg_cluster_id config) data_url ctrl_url))"

text \<open>
  Asked of \<open>serde_json\<close>: a document cut short is not a document. It holds for every JSON object, whose
  last character closes it.
\<close>

definition prefix_free :: "'id node_codec \<Rightarrow> bool" where
  "prefix_free codec \<longleftrightarrow> (\<forall>ident data k.
     to_string_pretty codec ident = Some data \<longrightarrow> k < length data \<longrightarrow> from_str codec (take k data) = None)"

section \<open>What is left on the disk\<close>

text \<open>What the next process reads: nothing, a file it cannot read, or an identity.\<close>

definition disk_identity :: "'id node_codec \<Rightarrow> file_system \<Rightarrow> string \<Rightarrow> 'id persistent_node_info option" where
  "disk_identity codec fs path = Option.bind (files fs path) (from_str codec)"

lemma node_file_holds_identity:
  "node_file_holds codec fs path n \<longleftrightarrow> disk_identity codec fs path = Some (persistent_from n)"
  by (simp add: node_file_holds_def disk_identity_def)

lemma torn_write_identity:
  assumes "codec_ok codec" "prefix_free codec" "to_string_pretty codec ident = Some data"
  shows "files (torn_write fs path data k) path \<noteq> None \<and>
    disk_identity codec (torn_write fs path data k) path = (if k < length data then None else Some ident)"
  using assms by (auto simp: torn_write_def disk_identity_def codec_ok_def prefix_free_def)

text \<open>A kill leaves the old file, the new one, or one that nobody can read.\<close>

lemma persist_crashes_identity:
  assumes "codec_ok codec" "prefix_free codec" "fs' \<in> set (persist_crashes codec fs path n)"
  shows "fs' = fs \<or> files fs' path \<noteq> None \<and>
    (disk_identity codec fs' path = None \<or> disk_identity codec fs' path = Some (persistent_from n))"
proof (cases "to_string_pretty codec (persistent_from n)")
  case None
  with assms(3) show ?thesis by (simp add: persist_crashes_def)
next
  case (Some data)
  then have "fs' = fs \<or> (\<exists>k. fs' = torn_write fs path data k)"
    using assms(3) by (auto simp: persist_crashes_def write_crashes_def simp del: upt_Suc split: if_splits)
  with torn_write_identity [OF assms(1,2) Some, of fs path] show ?thesis by (auto split: if_splits)
qed

text \<open>Starting on a file: the identity in it, advanced; without one, a new identity.\<close>

lemma init_node_identity:
  assumes "init_node codec fs config fresh du cu = Inr (node, fs')"
  shows "(case files fs (node_file_path (cfg_server_dir config)) of
      None \<Rightarrow> incarnation node = 0
    | Some _ \<Rightarrow> (\<exists>ident. disk_identity codec fs (node_file_path (cfg_server_dir config)) = Some ident \<and>
        persistent_from node = ident\<lparr>p_incarnation := p_incarnation ident + 1\<rparr>))"
  using assms
  by (auto simp: init_node_def node_load_def persistent_load_def path_exists_def read_to_string_def
      disk_identity_def persistent_from_def node_new_def Let_def split: option.splits sum.splits if_splits)

lemma init_crashes_identity:
  assumes "codec_ok codec" "prefix_free codec"
    and "fs' \<in> set (init_crashes codec fs config fresh du cu)"
  defines "path \<equiv> node_file_path (cfg_server_dir config)"
  shows "fs' = fs \<or> files fs' path \<noteq> None \<and>
    (disk_identity codec fs' path = None \<or>
     (case files fs path of
        None \<Rightarrow> \<exists>ident. disk_identity codec fs' path = Some ident \<and> p_incarnation ident = 0
      | Some _ \<Rightarrow> \<exists>ident. disk_identity codec fs path = Some ident \<and>
          disk_identity codec fs' path = Some (ident\<lparr>p_incarnation := p_incarnation ident + 1\<rparr>)))"
proof (cases "node_load codec fs path du cu")
  case (Inl p)
  with assms(3) show ?thesis by (simp add: init_crashes_def path_def)
next
  case (Inr m)
  let ?node = "case m of None \<Rightarrow> node_new fresh (cfg_cluster_id config) du cu
    | Some node \<Rightarrow> node_advance_incarnation node"
  have c: "fs' \<in> set (persist_crashes codec fs path ?node)"
    using Inr assms(3) by (simp add: init_crashes_def path_def Let_def split: option.splits)
  have n: "(case files fs path of
        None \<Rightarrow> p_incarnation (persistent_from ?node) = 0
      | Some _ \<Rightarrow> \<exists>ident. disk_identity codec fs path = Some ident \<and>
          persistent_from ?node = ident\<lparr>p_incarnation := p_incarnation ident + 1\<rparr>)"
    using Inr
    by (auto simp: node_load_def persistent_load_def path_exists_def read_to_string_def
        disk_identity_def persistent_from_def node_new_def split: option.splits sum.splits if_splits)
  from persist_crashes_identity [OF assms(1,2) c] n show ?thesis
    by (auto split: option.splits)
qed

section \<open>The history of a directory\<close>

text \<open>
  A directory: the process that runs in it, if any, its disk, and the identities its processes have
  announced so far, oldest first. The configuration may change from one process to the next, except for
  the directory.
\<close>

datatype ('id, 'url) process = Off | On "('id, 'url) gossip_state"

inductive life_step ::
  "('id, 'url) gossip_ext \<Rightarrow> string \<Rightarrow>
   ('id::linorder, 'url) process \<times> file_system \<times> ('id, 'url) node_info list \<Rightarrow>
   ('id, 'url) process \<times> file_system \<times> ('id, 'url) node_info list \<Rightarrow> bool" for ext d where
  boot: "cfg_server_dir config = d \<Longrightarrow> init_node (ext_codec ext) fs config fresh du cu = Inr (node, fs') \<Longrightarrow>
    life_step ext d (Off, fs, A) (On (gossip_new node (cfg_initial_peers config) d), fs', A @ [node])"
| killed_at_boot: "cfg_server_dir (config :: 'url server_config) = d \<Longrightarrow>
    fs' \<in> set (init_crashes (ext_codec ext) fs config fresh du cu) \<Longrightarrow>
    life_step ext d (Off, fs, A) (Off, fs', A)"
| work: "gossip_step ext (s, fs) (s', fs') \<Longrightarrow>
    life_step ext d (On s, fs, A) (On s', fs', A @ [current_node s'])"
| killed: "fs' \<in> set (message_crashes ext now s fs msg) \<Longrightarrow>
    life_step ext d (On s, fs, A) (Off, fs', A)"

inductive_cases life_stepE: "life_step ext d (p, fs, A) (p', fs', A')"

definition same_node_later :: "('id, 'url) node_info \<Rightarrow> ('id, 'url) node_info \<Rightarrow> bool" where
  "same_node_later a b \<longleftrightarrow>
     node_id a = node_id b \<and> cluster_id a = cluster_id b \<and> incarnation a \<le> incarnation b"

definition announced_before :: "('id, 'url) node_info list \<Rightarrow> 'id persistent_node_info \<Rightarrow> bool" where
  "announced_before A ident \<longleftrightarrow> (\<forall>a\<in>set A. node_id a = p_node_id ident \<and>
     cluster_id a = p_cluster_id ident \<and> incarnation a \<le> p_incarnation ident)"

text \<open>
  The invariant after \<open>n\<close> steps: the announced identities are those of one node, in order; the disk
  holds nothing only when nothing was announced, and an identity it holds is at least as new as all of
  them. A running process has its identity on the disk.
\<close>

fun life_inv ::
  "('id, 'url) gossip_ext \<Rightarrow> string \<Rightarrow> nat \<Rightarrow>
   ('id::linorder, 'url) process \<times> file_system \<times> ('id, 'url) node_info list \<Rightarrow> bool" where
  "life_inv ext d n (On s, fs, A) \<longleftrightarrow>
     sorted_wrt same_node_later A \<and> announced_before A (persistent_from (current_node s)) \<and>
     gossip_inv ext (node_id (current_node s)) (s, fs) \<and> dir s = d \<and>
     unat (incarnation (current_node s)) < n"
| "life_inv ext d n (Off, fs, A) \<longleftrightarrow>
     sorted_wrt same_node_later A \<and>
     (files fs (node_file_path d) = None \<longrightarrow> A = []) \<and>
     (\<forall>ident. disk_identity (ext_codec ext) fs (node_file_path d) = Some ident \<longrightarrow>
        announced_before A ident \<and> unat (p_incarnation ident) < n)"

lemma unat_plus_one: "unat (x :: u64) < n \<Longrightarrow> n < 2 ^ 64 \<Longrightarrow> unat (x + 1) = Suc (unat x)"
  by (simp add: unat_word_ariths)

lemma word_le_plus_one: "unat (x :: u64) < n \<Longrightarrow> n < 2 ^ 64 \<Longrightarrow> a \<le> x \<Longrightarrow> a < x + 1"
  using unat_plus_one [of x n] by (simp add: word_le_nat_alt word_less_nat_alt)

lemma announced_before_advance:
  assumes "announced_before A ident" "unat (p_incarnation ident) < n" "n < 2 ^ 64"
  shows "announced_before A (ident\<lparr>p_incarnation := p_incarnation ident + 1\<rparr>)"
  using assms(1) word_le_plus_one [OF assms(2,3)] by (auto simp: announced_before_def intro: less_imp_le)

lemma sorted_announce:
  "sorted_wrt same_node_later A \<Longrightarrow> announced_before A (persistent_from b) \<Longrightarrow>
   sorted_wrt same_node_later (A @ [b])"
  by (auto simp: sorted_wrt_append announced_before_def persistent_from_def same_node_later_def)

lemma announced_before_self: "announced_before [b] (persistent_from b)"
  by (simp add: announced_before_def persistent_from_def)

lemma announced_before_append [simp]:
  "announced_before (A @ B) ident \<longleftrightarrow> announced_before A ident \<and> announced_before B ident"
  by (auto simp: announced_before_def)

lemma boot_inv:
  assumes "codec_ok (ext_codec ext)" "n < 2 ^ 64" "life_inv ext d n (Off, fs, A)"
    and "cfg_server_dir config = d" "init_node (ext_codec ext) fs config fresh du cu = Inr (node, fs')"
  shows "life_inv ext d (Suc n) (On (gossip_new node peers d), fs', A @ [node]) \<and>
    (\<forall>a\<in>set A. node_id a = node_id node \<and> cluster_id a = cluster_id node \<and>
       incarnation a < incarnation node)"
proof -
  have booting: "gossip_booting ext (node_id node) (gossip_new node peers d, fs')"
    using assms(1,4) init_node_holds [OF assms(1,5)] by (auto simp: gossip_booting_def)
  have new: "announced_before A (persistent_from node) \<and> unat (incarnation node) < Suc n \<and>
      (\<forall>a\<in>set A. node_id a = node_id node \<and> cluster_id a = cluster_id node \<and> incarnation a < incarnation node)"
  proof (cases "files fs (node_file_path d)")
    case None
    with assms(3-5) show ?thesis
      using init_node_identity [OF assms(5)] by (simp add: announced_before_def)
  next
    case (Some data)
    then obtain ident where i: "disk_identity (ext_codec ext) fs (node_file_path d) = Some ident"
        and n: "persistent_from node = ident\<lparr>p_incarnation := p_incarnation ident + 1\<rparr>"
      using init_node_identity [OF assms(5)] assms(4) by auto
    then have a: "announced_before A ident" "unat (p_incarnation ident) < n"
      using assms(3) by simp_all
    then have "announced_before A (persistent_from node)"
      unfolding n using assms(2) by (rule announced_before_advance)
    moreover have "node_id node = p_node_id ident" "cluster_id node = p_cluster_id ident"
        "incarnation node = p_incarnation ident + 1"
      using n by (cases ident; simp add: persistent_from_def)+
    ultimately show ?thesis
      using a assms(2) unat_plus_one [OF a(2) assms(2)] word_le_plus_one [OF a(2) assms(2)]
      by (auto simp: announced_before_def)
  qed
  with assms(3) booting show ?thesis
    by (simp add: sorted_announce announced_before_self gossip_booting_inv gossip_new_def)
qed

lemma boot_killed_inv:
  assumes "codec_ok (ext_codec ext)" "prefix_free (ext_codec ext)" "n < 2 ^ 64"
    and "life_inv ext d n (Off, fs, A)" "cfg_server_dir config = d"
    and "fs' \<in> set (init_crashes (ext_codec ext) fs config fresh du cu)"
  shows "life_inv ext d (Suc n) (Off, fs', A)"
proof -
  let ?id = "\<lambda>fs. disk_identity (ext_codec ext) fs (node_file_path d)"
  have sorted: "sorted_wrt same_node_later A" using assms(4) by simp
  have left: "fs' = fs \<or> files fs' (node_file_path d) \<noteq> None \<and>
      (?id fs' = None \<or>
       (case files fs (node_file_path d) of
          None \<Rightarrow> \<exists>ident. ?id fs' = Some ident \<and> p_incarnation ident = 0
        | Some _ \<Rightarrow> \<exists>ident. ?id fs = Some ident \<and>
            ?id fs' = Some (ident\<lparr>p_incarnation := p_incarnation ident + 1\<rparr>)))"
    using init_crashes_identity [OF assms(1,2,6)] unfolding assms(5) .
  show ?thesis
  proof (cases "fs' = fs \<or> ?id fs' = None")
    case True
    with left assms(4) show ?thesis by (auto simp: less_Suc_eq)
  next
    case False
    show ?thesis
    proof (cases "files fs (node_file_path d)")
      case None
      with False left assms(4) show ?thesis by (auto simp: announced_before_def)
    next
      case (Some data)
      with False left obtain ident where i: "?id fs = Some ident"
          "?id fs' = Some (ident\<lparr>p_incarnation := p_incarnation ident + 1\<rparr>)" by auto
      then have a: "announced_before A ident" "unat (p_incarnation ident) < n" using assms(4) by simp_all
      show ?thesis
        using i(2) False left sorted announced_before_advance [OF a assms(3)] unat_plus_one [OF a(2) assms(3)] a(2)
        by auto
    qed
  qed
qed

lemma work_inv:
  assumes "n < 2 ^ 64" "life_inv ext d n (On s, fs, A)" "gossip_step ext (s, fs) (s', fs')"
  shows "life_inv ext d (Suc n) (On s', fs', A @ [current_node s'])"
proof -
  have cur: "current_node s' = current_node s \<or> current_node s' = node_advance_incarnation (current_node s)"
    using assms(3) by (rule gossip_step_identity)
  then have adv: "persistent_from (current_node s') = persistent_from (current_node s) \<or>
      persistent_from (current_node s') = (persistent_from (current_node s))
        \<lparr>p_incarnation := p_incarnation (persistent_from (current_node s)) + 1\<rparr>"
    by (auto simp: persistent_from_def)
  have old: "announced_before A (persistent_from (current_node s))"
      "unat (p_incarnation (persistent_from (current_node s))) < n"
    using assms(2) by (simp_all add: persistent_from_def)
  have "announced_before A (persistent_from (current_node s'))"
    using adv old announced_before_advance [OF old assms(1)] by auto
  moreover have "unat (incarnation (current_node s')) < Suc n"
    using cur assms(1,2) unat_plus_one [of "incarnation (current_node s)" n] by auto
  moreover have "node_id (current_node s') = node_id (current_node s)" using cur by auto
  ultimately show ?thesis
    using assms(2) gossip_step_inv [OF assms(3)] gossip_step_dir [OF assms(3)]
    by (simp add: sorted_announce announced_before_self)
qed

lemma killed_inv:
  assumes "codec_ok (ext_codec ext)" "prefix_free (ext_codec ext)" "n < 2 ^ 64"
    and "life_inv ext d n (On s, fs, A)" "fs' \<in> set (message_crashes ext now s fs msg)"
  shows "life_inv ext d (Suc n) (Off, fs', A)"
proof -
  let ?adv = "node_advance_incarnation (current_node s)"
  have held: "disk_identity (ext_codec ext) fs (node_file_path d) = Some (persistent_from (current_node s))"
    using assms(4) by (auto simp: gossip_inv_def node_file_holds_identity)
  then have there: "files fs (node_file_path d) \<noteq> None"
    by (cases "files fs (node_file_path d)") (simp_all add: disk_identity_def)
  have old: "announced_before A (persistent_from (current_node s))"
      "unat (p_incarnation (persistent_from (current_node s))) < n"
    using assms(4) by (simp_all add: persistent_from_def)
  have s1: "dir (fst (apply_message now s msg)) = d" "current_node (fst (apply_message now s msg)) = current_node s"
    using assms(4) by (cases msg; simp add: Let_def)+
  then have "fs' = fs \<or> fs' \<in> set (persist_crashes (ext_codec ext) fs (node_file_path d) ?adv)"
    using assms(5) by (auto simp: message_crashes_def Let_def split: if_splits)
  then have "fs' = fs \<or> files fs' (node_file_path d) \<noteq> None \<and>
      (disk_identity (ext_codec ext) fs' (node_file_path d) = None \<or>
       disk_identity (ext_codec ext) fs' (node_file_path d) = Some (persistent_from ?adv))"
    using persist_crashes_identity [OF assms(1,2)] by blast
  moreover have "announced_before A (persistent_from ?adv) \<and> unat (p_incarnation (persistent_from ?adv)) < Suc n"
    using announced_before_advance [OF old assms(3)] unat_plus_one [OF old(2) assms(3)] old(2)
    by (simp add: persistent_from_def)
  ultimately show ?thesis
    using assms(4) held there old by auto
qed

lemma life_step_inv:
  assumes "codec_ok (ext_codec ext)" "prefix_free (ext_codec ext)" "n < 2 ^ 64"
    and "life_step ext d c c'" "life_inv ext d n c"
  shows "life_inv ext d (Suc n) c'"
  using assms(4,5)
proof (cases rule: life_step.cases)
  case (boot config fs fresh du cu node fs' A)
  have "life_inv ext d n (Off, fs, A)" using assms(5) by (simp only: boot(1))
  from boot_inv [OF assms(1,3) this boot(3,4)] show ?thesis by (simp only: boot(2))
next
  case (killed_at_boot config fs' fs fresh du cu A)
  have "life_inv ext d n (Off, fs, A)" using assms(5) by (simp only: killed_at_boot(1))
  from boot_killed_inv [OF assms(1-3) this killed_at_boot(3,4)] show ?thesis by (simp only: killed_at_boot(2))
next
  case (work s fs s' fs' A)
  have "life_inv ext d n (On s, fs, A)" using assms(5) by (simp only: work(1))
  from work_inv [OF assms(3) this work(3)] show ?thesis by (simp only: work(2))
next
  case (killed fs' now s fs msg A)
  have "life_inv ext d n (On s, fs, A)" using assms(5) by (simp only: killed(1))
  from killed_inv [OF assms(1-3) this killed(3)] show ?thesis by (simp only: killed(2))
qed

lemma life_run_inv:
  assumes "codec_ok (ext_codec ext)" "prefix_free (ext_codec ext)" "n \<le> 2 ^ 64"
    and "files fs0 (node_file_path d) = None" "(life_step ext d ^^ n) (Off, fs0, []) c"
  shows "life_inv ext d n c"
  using assms(3,5)
proof (induction n arbitrary: c)
  case 0
  then have "c = (Off, fs0, [])" by simp
  with assms(4) show ?case by (simp add: disk_identity_def)
next
  case (Suc n)
  then obtain b where "(life_step ext d ^^ n) (Off, fs0, []) b" "life_step ext d b c" by auto
  with Suc life_step_inv [OF assms(1,2)] show ?case by (simp add: less_eq_Suc_le)
qed

lemma persist_crashes_start: "fs \<in> set (persist_crashes codec fs path n)"
  by (simp add: persist_crashes_def write_crashes_def split: option.splits)

lemma message_crashes_start: "fs \<in> set (message_crashes ext now s fs msg)"
  by (simp add: message_crashes_def Let_def persist_crashes_start)

lemma torn_load_fails:
  assumes "prefix_free codec" "to_string_pretty codec ident = Some data" "k < length data"
  shows "node_load codec (torn_write fs path data k) path du cu = Err LoadFailed"
  using assms
  by (auto simp: prefix_free_def node_load_def persistent_load_def path_exists_def read_to_string_def torn_write_def)

lemma node_persist_InrD:
  assumes "node_persist codec fs path n = Inr fs'"
  obtains data where "to_string_pretty codec (persistent_from n) = Some data" "writable fs path"
  using assms
  by (auto simp: node_persist_def persistent_persist_def fs_write_def persistent_from_def Let_def
      split: option.splits sum.splits if_splits)

text \<open>The message that advanced the incarnation: the node was dead in its own table, and the file was written.\<close>

lemma advanced_message:
  assumes "handle_message ext now s fs msg = (s', fs', Inr r)" "current_node s' \<noteq> current_node s"
  shows "current_node s' = node_advance_incarnation (current_node s) \<and>
    message_crashes ext now s fs msg =
      persist_crashes (ext_codec ext) fs (node_file_path (dir s)) (current_node s') \<and>
    node_persist (ext_codec ext) fs (node_file_path (dir s)) (current_node s') = Inr fs'"
  using assms
  by (cases rule: handle_message_cases [of now s msg ext fs])
    (auto simp: message_crashes_def apply_message_eq Let_def)

section \<open>Properties\<close>

text \<open>
  C14: whatever happens to the processes of a directory, no incarnation is announced twice by two of them.
  In every history of starts, gossip steps and kills, in the middle of a write of \<open>node.json\<close> too, all
  identities announced are those of one node, with incarnations that never go back, and a process that
  starts takes an incarnation above all that were announced before it.
\<close>
theorem kills_never_reuse_incarnation:
  assumes "codec_ok (ext_codec ext)" "prefix_free (ext_codec ext)"
    and "files fs0 (node_file_path d) = None" and "n < 2 ^ 64"
    and "(life_step ext d ^^ n) (Off, fs0, []) (Off, fs, A)"
    and "cfg_server_dir config = d" "init_node (ext_codec ext) fs config fresh du cu = Inr (node, fs')"
  shows "sorted_wrt same_node_later (A @ [node]) \<and> (\<forall>a\<in>set A. incarnation a < incarnation node)"
proof -
  have "life_inv ext d n (Off, fs, A)"
    using life_run_inv [OF assms(1,2) _ assms(3,5)] assms(4) by simp
  from boot_inv [OF assms(1,4) this assms(6,7)] show ?thesis by simp
qed

text \<open>
  C30: a process killed while it writes \<open>node.json\<close> may leave a file that stops every later start. When a
  message makes the node refute its own death, every proper prefix of the new document is a state a kill
  can leave, and from each of them \<open>start_gossip\<close> panics, under any configuration of the directory, and
  leaves the file as it is: only removing it by hand, and with it the identity, lets the node start again.
\<close>
theorem torn_node_file_stops_every_start:
  assumes "prefix_free (ext_codec ext)"
    and "handle_message ext now s fs msg = (s', fs', Inr r)" "current_node s' \<noteq> current_node s"
    and "cfg_server_dir config = dir s"
  shows "\<exists>data. to_string_pretty (ext_codec ext) (persistent_from (current_node s')) = Some data \<and>
    (\<forall>k < length data. let torn = torn_write fs (node_file_path (dir s)) data k in
       torn \<in> set (message_crashes ext now s fs msg) \<and>
       start_gossip ext net now0 now' config fresh acceptor du cu torn = (torn, Err LoadFailed))"
proof -
  let ?path = "node_file_path (dir s)"
  obtain data where data: "to_string_pretty (ext_codec ext) (persistent_from (current_node s')) = Some data"
      and w: "writable fs ?path"
    using advanced_message [OF assms(2,3)] by (blast elim: node_persist_InrD)
  have "torn_write fs ?path data k \<in> set (message_crashes ext now s fs msg)" if "k < length data" for k
    using advanced_message [OF assms(2,3)] data w that
    by (simp add: persist_crashes_def write_crashes_def del: upt_Suc)
  moreover have "start_gossip ext net now0 now' config fresh acceptor du cu (torn_write fs ?path data k) =
      (torn_write fs ?path data k, Err LoadFailed)" if "k < length data" for k
    by (simp add: start_gossip_def init_node_def assms(4) torn_load_fails [OF assms(1) data that])
  ultimately show ?thesis using data by (simp add: Let_def)
qed

lemma death_refuted:
  assumes "is_dead (fold merge_member (reports now (current_node s) msg) (membership_cell s)) (node_id (current_node s))"
    and "\<exists>fs'. node_persist (ext_codec ext) fs (node_file_path (dir s)) (node_advance_incarnation (current_node s)) = Inr fs'"
  shows "\<exists>s' fs' r. handle_message ext now s fs msg = (s', fs', Inr r) \<and>
    current_node s' = node_advance_incarnation (current_node s)"
  using assms by (cases rule: handle_message_cases [of now s msg ext fs]) auto

text \<open>A codec that announces the length of the document, so that a part of one is not one.\<close>

definition seal :: "string \<Rightarrow> string" where
  "seal t = replicate (length t) CHR ''1'' @ CHR ''0'' # t"

definition unseal :: "string \<Rightarrow> string option" where
  "unseal d = (let n = length (takeWhile (\<lambda>c. c = CHR ''1'') d) in
     if length d = 2 * n + 1 then Some (drop (Suc n) d) else None)"

definition sealed :: "'id node_codec \<Rightarrow> 'id node_codec" where
  "sealed codec =
     \<lparr>to_string_pretty = (\<lambda>i. map_option seal (to_string_pretty codec i)),
      from_str = (\<lambda>d. Option.bind (unseal d) (from_str codec))\<rparr>"

lemma length_takeWhile_sealed:
  "length (takeWhile (\<lambda>c. c = CHR ''1'') (take k (replicate n CHR ''1'' @ CHR ''0'' # t))) = min k n"
proof (induction n arbitrary: k)
  case 0
  then show ?case by (cases k) simp_all
next
  case (Suc n)
  then show ?case by (cases k) simp_all
qed

lemma unseal_seal: "unseal (seal t) = Some t"
  using length_takeWhile_sealed [of "length (seal t)" "length t" t]
  by (simp add: unseal_def seal_def Let_def)

lemma unseal_part:
  assumes "k < length (seal t)"
  shows "unseal (take k (seal t)) = None"
proof -
  have "length (takeWhile (\<lambda>c. c = CHR ''1'') (take k (seal t))) = min k (length t)"
    unfolding seal_def by (rule length_takeWhile_sealed)
  moreover have "length (take k (seal t)) = k" "k < 2 * length t + 1"
    using assms by (simp_all add: seal_def)
  ultimately show ?thesis unfolding unseal_def Let_def by simp
qed

lemma sealed_ok: "codec_ok codec \<Longrightarrow> codec_ok (sealed codec)"
  by (auto simp: codec_ok_def sealed_def unseal_seal)

lemma sealed_prefix_free: "prefix_free (sealed codec)"
  by (auto simp: prefix_free_def sealed_def unseal_part)

definition sealed_ext :: "(nat, string) gossip_ext" where
  "sealed_ext = demo_ext\<lparr>ext_codec := sealed (ext_codec demo_ext)\<rparr>"

lemma sealed_ext_ok: "codec_ok (ext_codec sealed_ext)" "prefix_free (ext_codec sealed_ext)"
  by (simp_all add: sealed_ext_def sealed_ok sealed_prefix_free demo_ext_codec_ok)

lemma sealed_persist:
  "writable fs p \<Longrightarrow> \<exists>fs'. node_persist (ext_codec sealed_ext) fs p n = Inr fs'"
  by (simp add: node_persist_def persistent_persist_def sealed_ext_def sealed_def demo_ext_def fs_write_def)

text \<open>A start, a kill, and a start.\<close>

theorem kills_never_reuse_incarnation_witness:
  "\<exists>a fs1 node fs2. init_node (ext_codec sealed_ext) demo_fs demo_config 1 ''u'' ''v'' = Inr (a, fs1) \<and>
     (life_step sealed_ext ''/d'' ^^ 2) (Off, demo_fs, []) (Off, fs1, [a]) \<and>
     init_node (ext_codec sealed_ext) fs1 demo_config 2 ''x'' ''y'' = Inr (node, fs2) \<and>
     same_node_later a node \<and> incarnation a < incarnation node"
proof -
  let ?path = "node_file_path ''/d''" and ?a = "node_new 1 (cfg_cluster_id demo_config) ''u'' ''v''"
  have dir: "cfg_server_dir demo_config = ''/d''" by (simp add: demo_config_def)
  have empty: "files demo_fs ?path = None" by (simp add: demo_fs_def)
  obtain fs1 where p: "node_persist (ext_codec sealed_ext) demo_fs ?path ?a = Inr fs1"
    using sealed_persist [of demo_fs] by (auto simp: demo_fs_def)
  then have a: "init_node (ext_codec sealed_ext) demo_fs demo_config 1 ''u'' ''v'' = Inr (?a, fs1)"
    using empty dir by (simp add: init_node_def node_load_def persistent_load_def path_exists_def)
  have frame: "readable fs1 = readable demo_fs" "writable fs1 = writable demo_fs"
    using node_persist_frame [OF p] by simp_all
  have "node_load (ext_codec sealed_ext) fs1 ?path ''x'' ''y'' =
      Ok (Some (?a\<lparr>advertise_data_url := ''x'', advertise_ctrl_url := ''y''\<rparr>))"
    using node_load_holds [OF node_persist_holds [OF sealed_ext_ok(1) p]] frame by (simp add: demo_fs_def)
  moreover obtain fs2 where "node_persist (ext_codec sealed_ext) fs1 ?path
      (node_advance_incarnation (?a\<lparr>advertise_data_url := ''x'', advertise_ctrl_url := ''y''\<rparr>)) = Inr fs2"
    using sealed_persist [of fs1 ?path] frame by (auto simp: demo_fs_def)
  ultimately obtain node where b: "init_node (ext_codec sealed_ext) fs1 demo_config 2 ''x'' ''y'' = Inr (node, fs2)"
    by (simp add: init_node_def dir)
  let ?s = "gossip_new ?a (cfg_initial_peers demo_config) ''/d''"
  have "life_step sealed_ext ''/d'' (Off, demo_fs, []) (On ?s, fs1, [?a])"
    using life_step.boot [OF dir a, of "[]"] by simp
  moreover have "life_step sealed_ext ''/d'' (On ?s, fs1, [?a]) (Off, fs1, [?a])"
    by (rule life_step.killed) (rule message_crashes_start [of _ _ 5 _ "Sync []"])
  ultimately have run: "(life_step sealed_ext ''/d'' ^^ 2) (Off, demo_fs, []) (Off, fs1, [?a])"
    by (auto simp: numeral_2_eq_2)
  from kills_never_reuse_incarnation [OF sealed_ext_ok empty _ run dir b] a b run
  show ?thesis by (intro exI [of _ ?a] exI [of _ fs1] exI [of _ node] exI [of _ fs2]) simp
qed

text \<open>A node told that it is dead, and killed while it writes its next incarnation.\<close>

theorem torn_node_file_stops_every_start_witness:
  "\<exists>s' fs' r data. handle_message sealed_ext 7 (demo_state [demo_dead 1 0 5]) demo_fs (Ping (demo_node 2 0)) =
       (s', fs', Inr r) \<and> data \<noteq> [] \<and>
     to_string_pretty (ext_codec sealed_ext) (persistent_from (current_node s')) = Some data \<and>
     (\<forall>k < length data. let torn = torn_write demo_fs (node_file_path ''/d'') data k in
       torn \<in> set (message_crashes sealed_ext 7 (demo_state [demo_dead 1 0 5]) demo_fs (Ping (demo_node 2 0))) \<and>
       start_gossip sealed_ext (\<lambda>_ _ _ _. None) 8 (\<lambda>_. 9) demo_config 2 (listen_ctrl_addr demo_config) ''x'' ''y'' torn =
         (torn, Err LoadFailed))"
proof -
  let ?s = "demo_state [demo_dead 1 0 5]" and ?m = "Ping (demo_node 2 0)"
  have dead: "is_dead (fold merge_member (reports 7 (current_node ?s) ?m) (membership_cell ?s)) (node_id (current_node ?s))"
    by (simp add: is_dead_def member_of_merge)
  have "writable demo_fs (node_file_path (dir ?s))" by (simp add: demo_fs_def)
  from death_refuted [OF dead sealed_persist [OF this]] obtain s' fs' r
    where h: "handle_message sealed_ext 7 ?s demo_fs ?m = (s', fs', Inr r)"
      "current_node s' = node_advance_incarnation (current_node ?s)" by blast
  have "incarnation (current_node s') \<noteq> incarnation (current_node ?s)" by (simp add: h(2))
  then have changed: "current_node s' \<noteq> current_node ?s" by auto
  have dir: "cfg_server_dir demo_config = dir ?s" by (simp add: demo_config_def)
  have "to_string_pretty (ext_codec sealed_ext) i \<noteq> Some []" for i
    by (simp add: sealed_ext_def sealed_def demo_ext_def seal_def)
  then have full: "data \<noteq> []" if "to_string_pretty (ext_codec sealed_ext) (persistent_from (current_node s')) = Some data"
    for data using that by metis
  note stops = torn_node_file_stops_every_start [OF sealed_ext_ok(2) h(1) changed dir,
      of "\<lambda>_ _ _ _. None" 8 "\<lambda>_. 9" 2 "listen_ctrl_addr demo_config" "''x''" "''y''",
      unfolded demo_state_simps(3)]
  then obtain data where "to_string_pretty (ext_codec sealed_ext) (persistent_from (current_node s')) = Some data"
    by (elim exE conjE)
  with stops h(1) full show ?thesis
    by (elim exE conjE, intro exI conjI) assumption+
qed

end
