(* ===== verification/RateLimit.thy ===== *)
theory RateLimit
  imports GossipSteps Server
begin

text \<open>
  The rate limiter of \<open>crates/server/src/middleware.rs\<close> as a state machine. The semaphore of \<open>mea\<close> is the
  record \<open>sem_ops\<close>, with \<open>sem_ok\<close> for the counting it promises. One request goes through the segments of
  \<open>RateLimitEndpoint::call\<close> between its \<open>await\<close> points; requests interleave freely, and a request that
  waits may be cancelled, which drops its permit. The invariant of \<open>invariant_system\<close> gives the bounds. \<open>rate_limit_call\<close> is a single call as a whole,
  as the middleware wraps it around an endpoint.
\<close>

record 's sem_ops =
  sem_new :: "usize \<Rightarrow> 's"
  sem_try_acquire :: "'s \<Rightarrow> 's option"
  sem_release :: "'s \<Rightarrow> 's"

text \<open>The two semaphores, and how many requests hold a permit of each.\<close>

record 's rate_limit =
  wait_permit :: 's
  run_permit :: 's
  waiting :: nat
  running :: nat

definition rate_limit_new :: "'s sem_ops \<Rightarrow> nonzero_usize \<Rightarrow> 's rate_limit" where
  "rate_limit_new ops cpus =
     (let run_limit = nz_get cpus * 4;
          wait_limit = run_limit * 100
      in \<lparr>wait_permit = sem_new ops wait_limit, run_permit = sem_new ops run_limit,
          waiting = 0, running = 0\<rparr>)"

text \<open>
  \<open>call\<close> up to the first \<open>await\<close>: the request is refused with 429 or holds a wait permit.
\<close>

definition call_arrive ::
  "('id, 'url) server_env \<Rightarrow> 's sem_ops \<Rightarrow> 's rate_limit \<Rightarrow> 's rate_limit \<times> http_response option" where
  "call_arrive sx ops l =
     (case sem_try_acquire ops (wait_permit l) of
        None \<Rightarrow> (l, Some (too_many_requests sx))
      | Some p \<Rightarrow> (l\<lparr>wait_permit := p, waiting := waiting l + 1\<rparr>, None))"

text \<open>\<open>run_permit.acquire(1)\<close> completes when a permit is free.\<close>

definition call_begin :: "'s sem_ops \<Rightarrow> 's rate_limit \<Rightarrow> 's rate_limit option" where
  "call_begin ops l =
     (if waiting l = 0 then None
      else case sem_try_acquire ops (run_permit l) of
        None \<Rightarrow> None
      | Some p \<Rightarrow> Some (l\<lparr>run_permit := p, waiting := waiting l - 1, running := running l + 1\<rparr>))"

text \<open>The endpoint has answered: both permits are dropped, the run permit first.\<close>

definition call_end :: "'s sem_ops \<Rightarrow> 's rate_limit \<Rightarrow> 's rate_limit option" where
  "call_end ops l =
     (if running l = 0 then None
      else Some (l\<lparr>run_permit := sem_release ops (run_permit l),
                   wait_permit := sem_release ops (wait_permit l), running := running l - 1\<rparr>))"

text \<open>A request dropped while it waits.\<close>

definition call_cancel :: "'s sem_ops \<Rightarrow> 's rate_limit \<Rightarrow> 's rate_limit option" where
  "call_cancel ops l =
     (if waiting l = 0 then None
      else Some (l\<lparr>wait_permit := sem_release ops (wait_permit l), waiting := waiting l - 1\<rparr>))"

section \<open>The middleware\<close>

text \<open>
  The middleware and the endpoints it makes hold \<open>Arc\<close> pointers to the two semaphores, of type \<open>'h\<close>; the
  semaphores themselves are the state of the machine above.
\<close>

record 'h rate_limit_middleware =
  rm_wait_permit :: 'h
  rm_run_permit :: 'h

record ('h, 'c) rate_limit_endpoint =
  re_wait_permit :: 'h
  re_run_permit :: 'h
  re_endpoint :: "'c endpoint"

definition rate_limit_transform :: "'h rate_limit_middleware \<Rightarrow> 'c endpoint \<Rightarrow> ('h, 'c) rate_limit_endpoint" where
  "rate_limit_transform mw ep =
     \<lparr>re_wait_permit = rm_wait_permit mw, re_run_permit = rm_run_permit mw, re_endpoint = ep\<rparr>"

text \<open>
  \<open>call\<close> from its first line to its last when nothing else happens meanwhile; \<open>None\<close> when it is left waiting
  for a run permit.
\<close>

definition rate_limit_call ::
  "('id, 'url) server_env \<Rightarrow> 's sem_ops \<Rightarrow> ('h, 'c) rate_limit_endpoint \<Rightarrow> data_request \<Rightarrow>
   's rate_limit \<times> 'c server_world \<Rightarrow> ('s rate_limit \<times> 'c server_world) \<times> (poem_error + http_response) option" where
  "rate_limit_call sx ops ep req st =
     (case st of (l, w) \<Rightarrow>
        (case call_arrive sx ops l of
           (l1, Some resp) \<Rightarrow> ((l1, w), Some (Ok resp))
         | (l1, None) \<Rightarrow>
             (case call_begin ops l1 of
                None \<Rightarrow> ((l1, w), None)
              | Some l2 \<Rightarrow>
                  (case re_endpoint ep req w of
                     (w', r) \<Rightarrow>
                       ((case call_end ops l2 of Some l3 \<Rightarrow> l3 | None \<Rightarrow> l2, w'), Some r)))))"

section \<open>Steps and invariant\<close>

inductive limiter_step :: "('id, 'url) server_env \<Rightarrow> 's sem_ops \<Rightarrow> 's rate_limit \<Rightarrow> 's rate_limit \<Rightarrow> bool"
  for sx ops where
  arrive: "call_arrive sx ops l = (l', r) \<Longrightarrow> limiter_step sx ops l l'"
| start: "call_begin ops l = Some l' \<Longrightarrow> limiter_step sx ops l l'"
| finish: "call_end ops l = Some l' \<Longrightarrow> limiter_step sx ops l l'"
| cancel: "call_cancel ops l = Some l' \<Longrightarrow> limiter_step sx ops l l'"

inductive_cases limiter_stepE: "limiter_step sx ops l l'"

definition sem_ok :: "'s sem_ops \<Rightarrow> ('s \<Rightarrow> nat) \<Rightarrow> bool" where
  "sem_ok ops avail \<longleftrightarrow>
     (\<forall>n. avail (sem_new ops n) = unat n) \<and>
     (\<forall>s. sem_try_acquire ops s = None \<longleftrightarrow> avail s = 0) \<and>
     (\<forall>s s'. sem_try_acquire ops s = Some s' \<longrightarrow> avail s = Suc (avail s')) \<and>
     (\<forall>s. avail (sem_release ops s) = Suc (avail s))"

definition limiter_inv :: "'s sem_ops \<Rightarrow> ('s \<Rightarrow> nat) \<Rightarrow> nat \<Rightarrow> 's rate_limit \<Rightarrow> bool" where
  "limiter_inv ops avail n l \<longleftrightarrow> sem_ok ops avail \<and>
     avail (run_permit l) + running l = 4 * n \<and>
     avail (wait_permit l) + waiting l + running l = 400 * n"

definition limiter_init :: "'s sem_ops \<Rightarrow> ('s \<Rightarrow> nat) \<Rightarrow> nat \<Rightarrow> 's rate_limit \<Rightarrow> bool" where
  "limiter_init ops avail n l \<longleftrightarrow> sem_ok ops avail \<and> n \<le> 2 ^ 32 \<and>
     (\<exists>cpus. unat (nz_get cpus) = n \<and> l = rate_limit_new ops cpus)"

lemma limiter_init_inv:
  assumes "limiter_init ops avail n l"
  shows "limiter_inv ops avail n l"
proof -
  obtain cpus where c: "unat (nz_get cpus) = n" "l = rate_limit_new ops cpus" "n \<le> 2 ^ 32"
    using assms by (auto simp: limiter_init_def)
  have r: "unat (nz_get cpus * 4) = n * 4"
    using c by (simp add: unat_mult_bounded)
  have "unat (nz_get cpus * 4 * 100) = n * 4 * 100"
    using c r by (subst unat_mult_bounded) simp_all
  with r c assms show ?thesis
    by (simp add: limiter_init_def limiter_inv_def rate_limit_new_def Let_def sem_ok_def)
qed

lemma limiter_step_inv: "limiter_step sx ops l l' \<Longrightarrow> limiter_inv ops avail n l \<Longrightarrow> limiter_inv ops avail n l'"
  by (erule limiter_stepE)
    (auto simp: limiter_inv_def sem_ok_def call_arrive_def call_begin_def call_end_def call_cancel_def
      split: option.splits if_splits)

interpretation limiter: invariant_system "limiter_init ops avail n" "limiter_step sx ops" "limiter_inv ops avail n"
  for ops :: "'s sem_ops" and avail n and sx :: "('id, 'url) server_env"
  by unfold_locales (auto intro: limiter_init_inv limiter_step_inv)

section \<open>Properties\<close>

text \<open>
  C35: under any interleaving of arrivals, starts, completions and cancellations on a machine with
  \<open>n\<close> CPUs, at most \<open>4 n\<close> requests run and at most \<open>400 n\<close> are inside; a request is refused with 429 exactly
  when \<open>400 n\<close> are inside, and while a request waits and fewer than \<open>4 n\<close> run, one can start.
\<close>
theorem rate_limit_bounds:
  assumes "sem_ok ops avail" and "unat (nz_get cpus) \<le> 2 ^ 32"
    and "(limiter_step sx ops)\<^sup>*\<^sup>* (rate_limit_new ops cpus) l"
  shows "running l \<le> 4 * unat (nz_get cpus) \<and> waiting l + running l \<le> 400 * unat (nz_get cpus) \<and>
    (snd (call_arrive sx ops l) = Some (too_many_requests sx) \<longleftrightarrow>
       waiting l + running l = 400 * unat (nz_get cpus)) \<and>
    (0 < waiting l \<and> running l < 4 * unat (nz_get cpus) \<longrightarrow> call_begin ops l \<noteq> None)"
proof -
  have "limiter_init ops avail (unat (nz_get cpus)) (rate_limit_new ops cpus)"
    using assms(1,2) by (auto simp: limiter_init_def)
  then have inv: "limiter_inv ops avail (unat (nz_get cpus)) l"
    using assms(3) by (rule limiter.reachable_inv)
  then have "sem_try_acquire ops (wait_permit l) = None \<longleftrightarrow> waiting l + running l = 400 * unat (nz_get cpus)"
      "sem_try_acquire ops (run_permit l) = None \<longleftrightarrow> running l = 4 * unat (nz_get cpus)"
    by (auto simp: limiter_inv_def sem_ok_def)
  with inv show ?thesis
    by (auto simp: limiter_inv_def call_arrive_def call_begin_def split: option.split)
qed

text \<open>
  The limiter is transparent while it has room: a request that finds a free run permit gets the answer of
  the endpoint behind it, whose effect is the only one, and all permits are back afterwards.
\<close>
lemma rate_limit_transparent:
  assumes inv: "limiter_inv ops avail n l" and "running l < 4 * n" "waiting l + running l < 400 * n"
  shows "\<exists>l'. rate_limit_call sx ops (rate_limit_transform mw ep) req (l, w) = ((l', fst (ep req w)), Some (snd (ep req w))) \<and>
    limiter_inv ops avail n l' \<and> waiting l' = waiting l \<and> running l' = running l"
proof -
  have ok: "sem_ok ops avail" and c: "avail (run_permit l) \<noteq> 0" "avail (wait_permit l) \<noteq> 0"
    using assms by (auto simp: limiter_inv_def)
  have "sem_try_acquire ops (wait_permit l) \<noteq> None" "sem_try_acquire ops (run_permit l) \<noteq> None"
    using ok c by (simp_all add: sem_ok_def)
  then obtain p q where p: "sem_try_acquire ops (wait_permit l) = Some p" and q: "sem_try_acquire ops (run_permit l) = Some q"
    by blast
  let ?l1 = "l\<lparr>wait_permit := p, waiting := waiting l + 1\<rparr>"
  let ?l2 = "?l1\<lparr>run_permit := q, waiting := waiting l, running := running l + 1\<rparr>"
  let ?l3 = "?l2\<lparr>run_permit := sem_release ops q, wait_permit := sem_release ops p, running := running l\<rparr>"
  have steps: "call_arrive sx ops l = (?l1, None)" "call_begin ops ?l1 = Some ?l2" "call_end ops ?l2 = Some ?l3"
    using p q by (simp_all add: call_arrive_def call_begin_def call_end_def)
  have "limiter_inv ops avail n ?l1" by (rule limiter_step_inv [OF limiter_step.arrive [OF steps(1)] inv])
  then have "limiter_inv ops avail n ?l2" by (rule limiter_step_inv [OF limiter_step.start [OF steps(2)], rotated])
  then have "limiter_inv ops avail n ?l3" by (rule limiter_step_inv [OF limiter_step.finish [OF steps(3)], rotated])
  moreover have "rate_limit_call sx ops (rate_limit_transform mw ep) req (l, w) =
      ((?l3, fst (ep req w)), Some (snd (ep req w)))"
    by (simp only: rate_limit_call_def rate_limit_transform_def rate_limit_endpoint.select_convs prod.case
        fst_conv snd_conv steps option.case case_prod_unfold)
  ultimately show ?thesis by (intro exI [of _ ?l3]) simp
qed

definition demo_sem :: "nat sem_ops" where
  "demo_sem = \<lparr>sem_new = unat, sem_try_acquire = (\<lambda>s. if s = 0 then None else Some (s - 1)), sem_release = Suc\<rparr>"

lemma demo_sem_ok: "sem_ok demo_sem id"
  by (simp add: sem_ok_def demo_sem_def)

theorem rate_limit_bounds_witness:
  "\<exists>l. (limiter_step demo_sx demo_sem)\<^sup>*\<^sup>* (rate_limit_new demo_sem nz_one) l \<and> running l = 1 \<and>
    running l \<le> 4 \<and> waiting l + running l \<le> 400"
proof -
  let ?l0 = "rate_limit_new demo_sem nz_one"
  let ?l1 = "fst (call_arrive demo_sx demo_sem ?l0)"
  have "limiter_step demo_sx demo_sem ?l0 ?l1"
    by (rule limiter_step.arrive [of _ _ _ _ "snd (call_arrive demo_sx demo_sem ?l0)"]) simp
  moreover obtain l where l: "call_begin demo_sem ?l1 = Some l" "running l = 1"
    by (simp add: call_begin_def call_arrive_def rate_limit_new_def demo_sem_def Let_def)
  ultimately have run: "(limiter_step demo_sx demo_sem)\<^sup>*\<^sup>* ?l0 l"
    by (meson limiter_step.start r_into_rtranclp rtranclp.rtrancl_into_rtrancl)
  with l rate_limit_bounds [OF demo_sem_ok _ run] show ?thesis by auto
qed

end
