(* ===== verification/LoadConfig.thy ===== *)
theory LoadConfig
  imports Config Decimal
begin

text \<open>
  \<open>cmd/percas/src/config.rs\<close>: loading the configuration. The document of \<open>toml_edit\<close> and the generated
  deserializer are not part of the repository; they are the fields of \<open>toml_ops\<close>, and \<open>toml_ok\<close>
  states what indexing and assigning in a document do; \<open>ConfigDocument\<close> gives the instance by trees of values. The loop over the environment runs over a list
  of variables with distinct names, in whatever order the hash map yields them. A panic of the
  indexing is the left side of the outer sum, an error of \<open>load_config\<close> the left side of the inner one.
\<close>

section \<open>Documents\<close>

record ('t, 'url) toml_ops =
  t_parse :: "string \<Rightarrow> 't option"
  t_str :: "string \<Rightarrow> 't"
  t_int :: "int \<Rightarrow> 't"
  t_bool :: "bool \<Rightarrow> 't"
  t_get :: "'t \<Rightarrow> string \<Rightarrow> 't option"
  t_index :: "'t \<Rightarrow> string \<Rightarrow> panic + 't"
  t_put :: "'t \<Rightarrow> string \<Rightarrow> 't \<Rightarrow> 't"
  t_deserialize :: "'t \<Rightarrow> 'url config option"

text \<open>
  \<open>str::parse::<i64>\<close> and \<open>str::parse::<bool>\<close>: an optional sign and at least one digit, in range;
  \<open>true\<close> or \<open>false\<close>.
\<close>

definition parse_i64 :: "string \<Rightarrow> int option" where
  "parse_i64 s =
     (case (case s of
              c # cs \<Rightarrow> if c = CHR ''-'' then map_option uminus (parse_digits cs)
                else if c = CHR ''+'' then parse_digits cs else parse_digits s
            | [] \<Rightarrow> None) of
        None \<Rightarrow> None
      | Some n \<Rightarrow> if - (2 ^ 63) \<le> n \<and> n < 2 ^ 63 then Some n else None)"

definition parse_bool :: "string \<Rightarrow> bool option" where
  "parse_bool s = (if s = ''true'' then Some True else if s = ''false'' then Some False else None)"

section \<open>Setting a path\<close>

definition quoted :: "string \<Rightarrow> string" where
  "quoted s = [CHR 0x27] @ s @ [CHR 0x27]"

text \<open>
  The loop over the parts of a path; \<open>key\<close> and \<open>path\<close> only occur in the warnings. The reference into the
  document becomes the recursion: the changed child is put back on the way out.
\<close>

fun set_parts ::
  "('t, 'url) toml_ops \<Rightarrow> string \<Rightarrow> string \<Rightarrow> string list \<Rightarrow> 't \<Rightarrow> 't \<Rightarrow> panic + ('t \<times> string list)" where
  "set_parts ops key path [] current item = Err IndexNotFound"
| "set_parts ops key path [part] current item =
     (case t_index ops current part of
        Inl p \<Rightarrow> Err p
      | Inr _ \<Rightarrow> Ok (t_put ops current part item, []))"
| "set_parts ops key path (part # p2 # parts) current item =
     (case t_index ops current part of
        Inl p \<Rightarrow> Err p
      | Inr child \<Rightarrow>
          (case set_parts ops key path (p2 # parts) child item of
             Inl p \<Rightarrow> Err p
           | Inr (child', warnings) \<Rightarrow>
               Ok (t_put ops current part child',
                   (if t_get ops current part = None then
                      [''[key='' @ key @ ''] config path '' @ quoted path @ '' has missing parent '' @ quoted part @ ''; created'']
                    else []) @ warnings)))"

definition set_toml_path ::
  "('t, 'url) toml_ops \<Rightarrow> 't \<Rightarrow> string \<Rightarrow> string \<Rightarrow> 't \<Rightarrow> panic + ('t \<times> string list)" where
  "set_toml_path ops doc key path item = set_parts ops key path (split_on (CHR ''.'') path) doc item"

section \<open>Loading\<close>

record 'url load_config_result =
  loaded :: "'url config"
  warnings_of :: "string list"

text \<open>The value of one variable, by the type of its entry.\<close>

definition env_item ::
  "('t, 'url) toml_ops \<Rightarrow> option_entry \<Rightarrow> string \<Rightarrow> string \<Rightarrow> string + 't" where
  "env_item ops ent k v =
     (if ent_type ent = ''string'' then Ok (t_str ops v)
      else if ent_type ent = ''integer'' then
        (case parse_i64 v of
           None \<Rightarrow> Err (''failed to parse integer value '' @ v @ '' of key '' @ k)
         | Some n \<Rightarrow> Ok (t_int ops n))
      else if ent_type ent = ''boolean'' then
        (case parse_bool v of
           None \<Rightarrow> Err (''failed to parse boolean value '' @ v @ '' of key '' @ k)
         | Some b \<Rightarrow> Ok (t_bool ops b))
      else Err (''failed to parse environment variable '' @ k @ '' with value '' @ v @
                '' and resolved type '' @ ent_type ent))"

fun apply_env ::
  "('t, 'url) toml_ops \<Rightarrow> (string \<times> string) list \<Rightarrow> 't \<Rightarrow> string list \<Rightarrow>
   panic + (string + ('t \<times> string list))" where
  "apply_env ops [] doc warnings = Ok (Ok (doc, warnings))"
| "apply_env ops ((k, v) # env) doc warnings =
     (case List.find (\<lambda>e. k = env_name e) known_option_entries of
        None \<Rightarrow> Ok (Err (''failed to parse unknown environment variable '' @ k @ '' with value '' @ v))
      | Some ent \<Rightarrow>
          (case env_item ops ent k v of
             Inl e \<Rightarrow> Ok (Err e)
           | Inr item \<Rightarrow>
               (case set_toml_path ops doc k (ent_path ent) item of
                  Inl p \<Rightarrow> Err p
                | Inr (doc', new_warnings) \<Rightarrow> apply_env ops env doc' (warnings @ new_warnings))))"

definition starts_with :: "string \<Rightarrow> string \<Rightarrow> bool" where
  "starts_with s p \<longleftrightarrow> take (length p) s = p"

definition load_config ::
  "('t, 'url) toml_ops \<Rightarrow> file_system \<Rightarrow> string \<Rightarrow> (string \<times> string) list \<Rightarrow>
   panic + (string + 'url load_config_result)" where
  "load_config ops fs config_file vars =
     (case read_to_string fs config_file of
        Inl _ \<Rightarrow> Ok (Err (''failed to read config file: '' @ config_file))
      | Inr content \<Rightarrow>
          (case t_parse ops content of
             None \<Rightarrow> Ok (Err ''failed to parse config content'')
           | Some doc \<Rightarrow>
               (let env = filter (\<lambda>(k, _). starts_with k ''PERCAS_CONFIG_'') vars in
                case apply_env ops env doc [] of
                  Inl p \<Rightarrow> Err p
                | Inr (Inl e) \<Rightarrow> Ok (Err e)
                | Inr (Inr (doc', ws)) \<Rightarrow>
                    (case t_deserialize ops doc' of
                       None \<Rightarrow> Ok (Err ''failed to deserialize config'')
                     | Some c \<Rightarrow> Ok (Ok \<lparr>loaded = c, warnings_of = ws\<rparr>)))))"

section \<open>Lemmas\<close>

fun path_get :: "('t, 'url) toml_ops \<Rightarrow> 't \<Rightarrow> string list \<Rightarrow> 't option" where
  "path_get ops x [] = Some x"
| "path_get ops x (p # ps) = (case t_get ops x p of None \<Rightarrow> None | Some y \<Rightarrow> path_get ops y ps)"

text \<open>
  Indexing finds the child or makes an empty one, and what is put back is found again; other keys
  keep their children.
\<close>

definition toml_ok :: "('t, 'url) toml_ops \<Rightarrow> bool" where
  "toml_ok ops \<longleftrightarrow>
     (\<forall>x k y. t_index ops x k = Inr y \<longrightarrow>
        t_get ops x k = Some y \<or> t_get ops x k = None \<and> (\<forall>k'. t_get ops y k' = None)) \<and>
     (\<forall>x k y v. t_index ops x k = Inr y \<longrightarrow> t_get ops (t_put ops x k v) k = Some v) \<and>
     (\<forall>x k y v k'. t_index ops x k = Inr y \<longrightarrow> k' \<noteq> k \<longrightarrow> t_get ops (t_put ops x k v) k' = t_get ops x k')"

lemma toml_okD:
  assumes "toml_ok ops" "t_index ops x k = Inr y"
  shows "t_get ops x k = Some y \<or> t_get ops x k = None \<and> (\<forall>k'. t_get ops y k' = None)"
    and "t_get ops (t_put ops x k v) k = Some v"
    and "k' \<noteq> k \<Longrightarrow> t_get ops (t_put ops x k v) k' = t_get ops x k'"
  using assms by (auto simp: toml_ok_def)

lemma set_parts_get:
  "toml_ok ops \<Longrightarrow> set_parts ops key path ps x item = Inr (x', ws) \<Longrightarrow> path_get ops x' ps = Some item"
  by (induction ops key path ps x item arbitrary: x' ws rule: set_parts.induct)
    (auto simp: toml_okD(2) split: sum.splits)

lemma apart_not_Nil: "apart ps qs \<Longrightarrow> ps \<noteq> [] \<and> qs \<noteq> []"
  by (cases ps; cases qs) auto

lemma set_parts_apart:
  "toml_ok ops \<Longrightarrow> set_parts ops key path ps x item = Inr (x', ws) \<Longrightarrow> apart ps qs \<Longrightarrow>
   path_get ops x' qs = path_get ops x qs"
proof (induction ops key path ps x item arbitrary: x' ws qs rule: set_parts.induct)
  case (2 ops key path part x item)
  then obtain q qs' where "qs = q # qs'" "q \<noteq> part" by (cases qs) auto
  with 2 show ?case by (auto simp: toml_okD(3) split: sum.splits)
next
  case (3 ops key path part p2 parts x item)
  from "3.prems" obtain child child' ws' where c: "t_index ops x part = Inr child"
      "set_parts ops key path (p2 # parts) child item = Inr (child', ws')" "x' = t_put ops x part child'"
    by (auto split: sum.splits)
  obtain q qs' where qs: "qs = q # qs'" using "3.prems"(3) by (cases qs) auto
  show ?case
  proof (cases "q = part")
    case False
    then show ?thesis using c qs by (simp add: toml_okD(3) [OF "3.prems"(1) c(1)])
  next
    case True
    with "3.prems"(3) qs have ap: "apart (p2 # parts) qs'" by simp
    have new: "path_get ops x' qs = path_get ops child qs'"
      using c qs True "3.IH" [OF c(1) "3.prems"(1) c(2) ap] by (simp add: toml_okD(2) [OF "3.prems"(1) c(1)])
    have "path_get ops child qs' = None" if "\<forall>k'. t_get ops child k' = None"
      using apart_not_Nil [OF ap] that by (cases qs') auto
    then show ?thesis
      using toml_okD(1) [OF "3.prems"(1) c(1)] new qs True by auto
  qed
qed simp_all

lemma set_toml_path_entries:
  assumes "toml_ok ops" "e \<in> set known_option_entries" "e' \<in> set known_option_entries"
    and "set_toml_path ops doc k (ent_path e) item = Inr (doc', ws)"
  shows "path_get ops doc' (entry_parts e') = (if e' = e then Some item else path_get ops doc (entry_parts e'))"
  using assms set_parts_get [OF assms(1)] set_parts_apart [OF assms(1)] known_entries_apart [of e e']
  by (auto simp: set_toml_path_def entry_parts_def)

definition override ::
  "('t, 'url) toml_ops \<Rightarrow> (string \<times> string) list \<Rightarrow> 't \<Rightarrow> 't \<Rightarrow> option_entry \<Rightarrow> bool" where
  "override ops env doc doc' e =
     (case map_of env (env_name e) of
        None \<Rightarrow> path_get ops doc' (entry_parts e) = path_get ops doc (entry_parts e)
      | Some v \<Rightarrow>
          (case env_item ops e (env_name e) v of
             Inl _ \<Rightarrow> False
           | Inr item \<Rightarrow> path_get ops doc' (entry_parts e) = Some item))"

lemma apply_env_step:
  assumes "apply_env ops ((k, v) # env) doc ws = Inr (Inr (doc', ws'))"
  obtains e item d1 w1 where "e \<in> set known_option_entries" "env_name e = k" "env_item ops e k v = Inr item"
    "set_toml_path ops doc k (ent_path e) item = Inr (d1, w1)"
    "apply_env ops env d1 (ws @ w1) = Inr (Inr (doc', ws'))"
  using assms by (auto split: option.splits sum.splits dest!: find_Some_memD)

lemma apply_env_override:
  assumes "toml_ok ops"
  shows "apply_env ops env doc ws = Inr (Inr (doc', ws')) \<Longrightarrow> distinct (map fst env) \<Longrightarrow>
    e \<in> set known_option_entries \<Longrightarrow> override ops env doc doc' e"
proof (induction env arbitrary: doc ws)
  case Nil
  then show ?case by (simp add: override_def)
next
  case (Cons kv env)
  obtain k v where kv: "kv = (k, v)" by (cases kv)
  obtain e0 item d1 w1 where e0: "e0 \<in> set known_option_entries" "env_name e0 = k"
      "env_item ops e0 k v = Inr item" "set_toml_path ops doc k (ent_path e0) item = Inr (d1, w1)"
      "apply_env ops env d1 (ws @ w1) = Inr (Inr (doc', ws'))"
    by (rule apply_env_step [OF Cons.prems(1) [unfolded kv]])
  have IH: "override ops env d1 doc' e"
    using Cons.IH [OF e0(5)] Cons.prems by simp
  have d1: "path_get ops d1 (entry_parts e) = (if e = e0 then Some item else path_get ops doc (entry_parts e))"
    using set_toml_path_entries [OF assms e0(1) Cons.prems(3) e0(4)] .
  show ?case
  proof (cases "env_name e = k")
    case True
    then have "e = e0" using known_name_unique e0 Cons.prems(3) by blast
    moreover have "map_of env k = None"
      using Cons.prems(2) kv by (simp add: map_of_eq_None_iff)
    ultimately show ?thesis using IH d1 kv e0 True by (simp add: override_def)
  next
    case False
    then have "e \<noteq> e0" using e0(2) by blast
    with IH d1 kv False show ?thesis
      by (cases "map_of env (env_name e)") (simp_all add: override_def)
  qed
qed

lemma apply_env_known:
  "apply_env ops env doc ws = Inr (Inr (doc', ws')) \<Longrightarrow> (k, v) \<in> set env \<Longrightarrow>
   \<exists>e item. e \<in> set known_option_entries \<and> env_name e = k \<and> env_item ops e k v = Inr item"
proof (induction env arbitrary: doc ws)
  case (Cons kv env)
  obtain k' v' where kv: "kv = (k', v')" by (cases kv)
  show ?case
    by (rule apply_env_step [OF Cons.prems(1) [unfolded kv]]) (use Cons kv in auto)
qed simp

section \<open>Properties\<close>

text \<open>
  C36: environment variables override the file. When loading succeeds, the configuration is deserialized
  from a document in which every known option named by a variable has the value of that variable, in
  whatever order the variables were applied, and every other known option is as in the file.
\<close>
theorem env_overrides_file:
  assumes "toml_ok ops" and "distinct (map fst vars)"
    and "load_config ops fs file vars = Inr (Inr res)"
  shows "\<exists>content doc doc'. read_to_string fs file = Inr content \<and> t_parse ops content = Some doc \<and>
    t_deserialize ops doc' = Some (loaded res) \<and>
    list_all (override ops (filter (\<lambda>(k, _). starts_with k ''PERCAS_CONFIG_'') vars) doc doc') known_option_entries"
proof -
  let ?env = "filter (\<lambda>(k, _). starts_with k ''PERCAS_CONFIG_'') vars"
  from assms(3) obtain content doc doc' ws where l: "read_to_string fs file = Inr content"
      "t_parse ops content = Some doc" "apply_env ops ?env doc [] = Inr (Inr (doc', ws))"
      "t_deserialize ops doc' = Some (loaded res)"
    by (auto simp: load_config_def Let_def split: sum.splits option.splits)
  have "distinct (map fst ?env)" using assms(2) by (rule distinct_map_filter)
  with l apply_env_override [OF assms(1) l(3)] show ?thesis
    by (auto simp: list_all_iff)
qed

text \<open>
  C39: the peers cannot be configured through the environment: the variable the table lists for them has
  the type \<open>array\<close>, which loading does not support, so that a set variable always makes it fail.
\<close>
theorem initial_peers_variable_fails:
  assumes "(''PERCAS_CONFIG_SERVER_INITIAL_PEERS'', v) \<in> set vars"
  shows "''PERCAS_CONFIG_SERVER_INITIAL_PEERS'' \<in> set (map env_name known_option_entries) \<and>
    load_config ops fs file vars \<noteq> Inr (Inr res)"
proof
  let ?k = "''PERCAS_CONFIG_SERVER_INITIAL_PEERS''"
  have e: "OptionEntry ?k ''server.initial_peers'' ''array'' \<in> set known_option_entries" (is "?e \<in> _")
    by (simp add: known_option_entries_def)
  show "?k \<in> set (map env_name known_option_entries)"
    using e by (force simp: image_iff)
  have env: "(?k, v) \<in> set (filter (\<lambda>(k, _). starts_with k ''PERCAS_CONFIG_'') vars)"
    using assms by (simp add: starts_with_def)
  show "load_config ops fs file vars \<noteq> Inr (Inr res)"
  proof
    assume "load_config ops fs file vars = Inr (Inr res)"
    then obtain doc doc' ws where
        "apply_env ops (filter (\<lambda>(k, _). starts_with k ''PERCAS_CONFIG_'') vars) doc [] = Inr (Inr (doc', ws))"
      by (auto simp: load_config_def Let_def split: sum.splits option.splits)
    from apply_env_known [OF this env] obtain e' item where
        e': "e' \<in> set known_option_entries" "env_name e' = ?k" "env_item ops e' ?k v = Inr item"
      by blast
    then have "e' = ?e" using known_name_unique [OF e'(1) e] by simp
    with e'(3) show False by (simp add: env_item_def)
  qed
qed

text \<open>A small document type for the witnesses: strings and tables.\<close>

datatype demo_toml = DemoLeaf string | DemoTable "(string \<times> demo_toml) list"

fun demo_get :: "demo_toml \<Rightarrow> string \<Rightarrow> demo_toml option" where
  "demo_get (DemoLeaf _) k = None"
| "demo_get (DemoTable es) k = map_of es k"

fun demo_index :: "demo_toml \<Rightarrow> string \<Rightarrow> panic + demo_toml" where
  "demo_index (DemoLeaf _) k = Err IndexNotFound"
| "demo_index (DemoTable es) k = Ok (case map_of es k of None \<Rightarrow> DemoTable [] | Some y \<Rightarrow> y)"

fun demo_put :: "demo_toml \<Rightarrow> string \<Rightarrow> demo_toml \<Rightarrow> demo_toml" where
  "demo_put (DemoLeaf s) k v = DemoLeaf s"
| "demo_put (DemoTable es) k v = DemoTable ((k, v) # es)"

definition demo_toml_ops :: "(demo_toml, string) toml_ops" where
  "demo_toml_ops = \<lparr>t_parse = (\<lambda>_. Some (DemoTable [])), t_str = DemoLeaf, t_int = (\<lambda>_. DemoLeaf ''int''),
     t_bool = (\<lambda>_. DemoLeaf ''bool''), t_get = demo_get, t_index = demo_index, t_put = demo_put,
     t_deserialize = (\<lambda>_. Some (config_default 0))\<rparr>"

lemma demo_toml_ok: "toml_ok demo_toml_ops"
proof -
  have "\<exists>es. x = DemoTable es" if "demo_index x k = Inr y" for x k y
    using that by (cases x) auto
  then show ?thesis
    unfolding toml_ok_def demo_toml_ops_def by (fastforce split: option.splits)
qed

definition demo_config_fs :: file_system where
  "demo_config_fs = \<lparr>files = [''config.toml'' \<mapsto> []], readable = (\<lambda>_. True), writable = (\<lambda>_. True)\<rparr>"

definition demo_vars :: "(string \<times> string) list" where
  "demo_vars = [(''PATH'', ''/bin''), (''PERCAS_CONFIG_SERVER_DIR'', ''/data'')]"

lemma find_server_dir:
  "List.find (\<lambda>e. ''PERCAS_CONFIG_SERVER_DIR'' = env_name e) known_option_entries =
   Some (OptionEntry ''PERCAS_CONFIG_SERVER_DIR'' ''server.dir'' ''string'')"
  by (simp add: known_option_entries_def)

lemma demo_load:
  "load_config demo_toml_ops demo_config_fs ''config.toml'' demo_vars =
   Inr (Inr \<lparr>loaded = config_default 0,
     warnings_of = [''[key=PERCAS_CONFIG_SERVER_DIR] config path '' @ quoted ''server.dir'' @
       '' has missing parent '' @ quoted ''server'' @ ''; created'']\<rparr>)"
  by (simp add: load_config_def read_to_string_def demo_config_fs_def demo_vars_def starts_with_def
      find_server_dir env_item_def set_toml_path_def demo_toml_ops_def)

theorem env_overrides_file_witness:
  "\<exists>content doc doc'. read_to_string demo_config_fs ''config.toml'' = Inr content \<and>
    t_parse demo_toml_ops content = Some doc \<and>
    t_deserialize demo_toml_ops doc' = Some (config_default 0) \<and>
    list_all (override demo_toml_ops (filter (\<lambda>(k, _). starts_with k ''PERCAS_CONFIG_'') demo_vars) doc doc')
      known_option_entries"
  using env_overrides_file [OF demo_toml_ok _ demo_load] by (simp add: demo_vars_def)

theorem initial_peers_variable_fails_witness:
  "load_config demo_toml_ops demo_config_fs ''config.toml''
     [(''PERCAS_CONFIG_SERVER_INITIAL_PEERS'', ''[]'')] \<noteq> Inr (Inr \<lparr>loaded = config_default 0, warnings_of = []\<rparr>)"
  using initial_peers_variable_fails [of "''[]''" "[(''PERCAS_CONFIG_SERVER_INITIAL_PEERS'', ''[]'')]"
      demo_toml_ops demo_config_fs "''config.toml''"] by simp

end
