(* ===== verification/Runtime.thy ===== *)
theory Runtime
  imports Engine
begin

text \<open>
  \<open>crates/core/src/runtime.rs\<close>: the builder of runtimes, spawning, the join handle and the timer. Building a
  \<open>tokio\<close> runtime from its settings is the argument \<open>tokio_build\<close>, and what its executor and its timer do is
  the record \<open>tokio_exec\<close>; the state of a spawned task is what \<open>tokio\<close>'s own handle yields when it is
  polled. Durations are nanoseconds.
\<close>

section \<open>Builder\<close>

record tokio_settings =
  ts_worker_threads :: "usize option"
  ts_max_blocking_threads :: "usize option"
  ts_thread_keep_alive :: "int option"
  ts_enable_all :: bool
  ts_thread_name :: "string option"

record runtime_builder =
  rb_runtime_name :: string
  rb_thread_name :: string
  rb_tokio :: tokio_settings

record runtime =
  rt_name :: string
  rt_settings :: tokio_settings

definition builder_new :: "string \<Rightarrow> string \<Rightarrow> runtime_builder" where
  "builder_new r t =
     \<lparr>rb_runtime_name = r, rb_thread_name = t,
      rb_tokio = \<lparr>ts_worker_threads = None, ts_max_blocking_threads = None, ts_thread_keep_alive = None,
        ts_enable_all = False, ts_thread_name = None\<rparr>\<rparr>"

definition worker_threads :: "usize \<Rightarrow> runtime_builder \<Rightarrow> runtime_builder" where
  "worker_threads val b = b\<lparr>rb_tokio := (rb_tokio b)\<lparr>ts_worker_threads := Some val\<rparr>\<rparr>"

definition max_blocking_threads :: "usize \<Rightarrow> runtime_builder \<Rightarrow> runtime_builder" where
  "max_blocking_threads val b = b\<lparr>rb_tokio := (rb_tokio b)\<lparr>ts_max_blocking_threads := Some val\<rparr>\<rparr>"

definition thread_keep_alive :: "int \<Rightarrow> runtime_builder \<Rightarrow> runtime_builder" where
  "thread_keep_alive d b = b\<lparr>rb_tokio := (rb_tokio b)\<lparr>ts_thread_keep_alive := Some d\<rparr>\<rparr>"

definition runtime_name :: "string \<Rightarrow> runtime_builder \<Rightarrow> runtime_builder" where
  "runtime_name val b = b\<lparr>rb_runtime_name := val\<rparr>"

definition thread_name :: "string \<Rightarrow> runtime_builder \<Rightarrow> runtime_builder" where
  "thread_name val b = b\<lparr>rb_thread_name := val\<rparr>"

type_synonym tokio_build = "tokio_settings \<Rightarrow> io_error + unit"

text \<open>\<open>build\<close> also leaves the settings it made in the builder.\<close>

definition builder_build :: "tokio_build \<Rightarrow> runtime_builder \<Rightarrow> runtime_builder \<times> (io_error + runtime)" where
  "builder_build tb b =
     (let name = rb_runtime_name b;
          settings = (rb_tokio b)\<lparr>ts_enable_all := True, ts_thread_name := Some (rb_thread_name b)\<rparr>;
          b' = b\<lparr>rb_tokio := settings\<rparr>
      in case tb settings of
           Inl e \<Rightarrow> (b', Err e)
         | Inr _ \<Rightarrow> (b', Ok \<lparr>rt_name = name, rt_settings = settings\<rparr>))"

text \<open>\<open>.build().expect(...)\<close>\<close>

definition expect_built :: "runtime_builder \<times> (io_error + runtime) \<Rightarrow> panic + runtime" where
  "expect_built r = (case snd r of Inl _ \<Rightarrow> Err UnwrapNone | Inr x \<Rightarrow> Ok x)"

definition make_runtime :: "tokio_build \<Rightarrow> string \<Rightarrow> string \<Rightarrow> usize \<Rightarrow> panic + runtime" where
  "make_runtime tb r t n = expect_built (builder_build tb (worker_threads n (builder_new r t)))"

section \<open>Join handles\<close>

datatype ('r, 'p) join_result = Joined 'r | JoinPanicked 'p | JoinCancelled

datatype 'r poll = Ready 'r | Pending

datatype ('r, 'p) poll_outcome = Returns "'r poll" | ResumesUnwind 'p | Unreachable

definition join_handle_poll :: "('r, 'p) join_result poll \<Rightarrow> ('r, 'p) poll_outcome" where
  "join_handle_poll inner_poll =
     (case inner_poll of
        Pending \<Rightarrow> Returns Pending
      | Ready (Joined val) \<Rightarrow> Returns (Ready val)
      | Ready (JoinPanicked p) \<Rightarrow> ResumesUnwind p
      | Ready JoinCancelled \<Rightarrow> Unreachable)"

text \<open>
  \<open>.await\<close> on a handle polls it until it is ready; the outcomes of the polls of \<open>tokio\<close>'s handle are given
  in order. A task that is resumed from a panic of another one panics itself.
\<close>

fun await_join :: "('r, 'p) join_result poll list \<Rightarrow> ('r, 'p) poll_outcome" where
  "await_join [] = Returns Pending"
| "await_join (x # xs) =
     (case join_handle_poll x of Returns Pending \<Rightarrow> await_join xs | outcome \<Rightarrow> outcome)"

definition awaited :: "('r, panic) join_result \<Rightarrow> panic + 'r" where
  "awaited r =
     (case join_handle_poll (Ready r) of
        Returns (Ready val) \<Rightarrow> Ok val
      | ResumesUnwind p \<Rightarrow> Err p
      | _ \<Rightarrow> Err UnreachableCode)"

lemma awaited_simps [simp]:
  "awaited (Joined v) = Ok v" "awaited (JoinPanicked p) = Err p" "awaited JoinCancelled = Err UnreachableCode"
  by (simp_all add: awaited_def join_handle_poll_def)

section \<open>Running futures\<close>

text \<open>
  The executor of \<open>tokio\<close> on a state of the world: \<open>spawn\<close> and \<open>spawn_blocking\<close> yield a handle, \<open>block_on\<close> the
  output of the future; and its sleeps.
\<close>

record ('w, 'f, 'b, 'h, 'o, 'z) tokio_exec =
  tk_spawn :: "runtime \<Rightarrow> 'f \<Rightarrow> 'w \<Rightarrow> 'w \<times> 'h"
  tk_spawn_blocking :: "runtime \<Rightarrow> 'b \<Rightarrow> 'w \<Rightarrow> 'w \<times> 'h"
  tk_block_on :: "runtime \<Rightarrow> 'f \<Rightarrow> 'w \<Rightarrow> 'w \<times> 'o"
  tk_sleep_until :: "int \<Rightarrow> 'z"
  tk_sleep :: "int \<Rightarrow> 'z"

record 'h join_handle =
  jh_inner :: 'h

definition join_handle_new :: "'h \<Rightarrow> 'h join_handle" where
  "join_handle_new h = \<lparr>jh_inner = h\<rparr>"

definition runtime_get_name :: "runtime \<Rightarrow> string" where
  "runtime_get_name rt = rt_name rt"

definition runtime_spawn ::
  "('w, 'f, 'b, 'h, 'o, 'z) tokio_exec \<Rightarrow> runtime \<Rightarrow> 'f \<Rightarrow> 'w \<Rightarrow> 'w \<times> 'h join_handle" where
  "runtime_spawn tk rt future w = (case tk_spawn tk rt future w of (w', h) \<Rightarrow> (w', join_handle_new h))"

definition runtime_spawn_blocking ::
  "('w, 'f, 'b, 'h, 'o, 'z) tokio_exec \<Rightarrow> runtime \<Rightarrow> 'b \<Rightarrow> 'w \<Rightarrow> 'w \<times> 'h join_handle" where
  "runtime_spawn_blocking tk rt func w =
     (case tk_spawn_blocking tk rt func w of (w', h) \<Rightarrow> (w', join_handle_new h))"

definition runtime_block_on ::
  "('w, 'f, 'b, 'h, 'o, 'z) tokio_exec \<Rightarrow> runtime \<Rightarrow> 'f \<Rightarrow> 'w \<Rightarrow> 'w \<times> 'o" where
  "runtime_block_on tk rt future w = tk_block_on tk rt future w"

text \<open>\<open>impl fastimer::Spawn for Runtime\<close>: the handle is dropped, which detaches the task.\<close>

definition fastimer_spawn ::
  "('w, 'f, 'b, 'h, 'o, 'z) tokio_exec \<Rightarrow> runtime \<Rightarrow> 'f \<Rightarrow> 'w \<Rightarrow> 'w" where
  "fastimer_spawn tk rt future w = fst (runtime_spawn tk rt future w)"

datatype timer = Timer

definition timer_new :: timer where
  "timer_new = Timer"

definition timer_delay_until :: "('w, 'f, 'b, 'h, 'o, 'z) tokio_exec \<Rightarrow> timer \<Rightarrow> int \<Rightarrow> 'z" where
  "timer_delay_until tk t at = tk_sleep_until tk at"

definition timer_delay :: "('w, 'f, 'b, 'h, 'o, 'z) tokio_exec \<Rightarrow> timer \<Rightarrow> int \<Rightarrow> 'z" where
  "timer_delay tk t duration = tk_sleep tk duration"

section \<open>The runtimes of the program\<close>

text \<open>\<open>cmd/percas/src/start.rs\<close>\<close>

definition make_io_runtime :: "tokio_build \<Rightarrow> nonzero_usize \<Rightarrow> panic + runtime" where
  "make_io_runtime tb cpus =
     expect_built (builder_build tb
       (max_blocking_threads (nz_get cpus * 2) (worker_threads 4 (builder_new ''foyer_io_runtime'' ''foyer_io_thread''))))"

definition make_telemetry_runtime :: "tokio_build \<Rightarrow> panic + runtime" where
  "make_telemetry_runtime tb = make_runtime tb ''telemetry_runtime'' ''telemetry_thread'' 1"

definition make_server_runtime :: "tokio_build \<Rightarrow> nonzero_usize \<Rightarrow> panic + runtime" where
  "make_server_runtime tb cpus = make_runtime tb ''server_runtime'' ''server_thread'' (nz_get cpus)"

definition make_gossip_runtime :: "tokio_build \<Rightarrow> panic + runtime" where
  "make_gossip_runtime tb = make_runtime tb ''gossip_runtime'' ''gossip_thread'' 1"

section \<open>Properties\<close>

text \<open>What \<open>tokio\<close> documents for its builder: zero worker or blocking threads are refused.\<close>

definition positive_threads :: "tokio_settings \<Rightarrow> bool" where
  "positive_threads s \<longleftrightarrow> ts_worker_threads s \<noteq> Some 0 \<and> ts_max_blocking_threads s \<noteq> Some 0"

text \<open>
  The four runtimes of the program are built with positive numbers of threads on every machine of
  fewer than \<open>2 ^ 63\<close> CPUs, so that starting them does not panic where \<open>tokio\<close> accepts such settings, and
  the gossip runtime has a single worker: the segments of the gossip tasks between two suspension
  points cannot run at the same time.
\<close>
lemma runtimes_build:
  assumes "\<And>s. positive_threads s \<Longrightarrow> tb s = Inr ()" and "unat (nz_get cpus) < 2 ^ 63"
  shows "\<exists>io te se go. make_io_runtime tb cpus = Inr io \<and> make_telemetry_runtime tb = Inr te \<and>
    make_server_runtime tb cpus = Inr se \<and> make_gossip_runtime tb = Inr go \<and>
    rt_name go = ''gossip_runtime'' \<and> ts_worker_threads (rt_settings go) = Some 1 \<and>
    ts_enable_all (rt_settings go) \<and> ts_worker_threads (rt_settings se) = Some (nz_get cpus) \<and>
    ts_max_blocking_threads (rt_settings io) = Some (nz_get cpus * 2)"
proof -
  have "unat (nz_get cpus * 2) = unat (nz_get cpus) * 2"
    using assms(2) by (simp add: unat_mult_bounded)
  then have "nz_get cpus * 2 \<noteq> 0"
    using nz_get_nonzero [of cpus] by (metis mult_eq_0_iff unat_eq_zero zero_neq_numeral)
  then show ?thesis
    using nz_get_nonzero [of cpus]
    by (simp add: make_io_runtime_def make_telemetry_runtime_def make_server_runtime_def
        make_gossip_runtime_def make_runtime_def expect_built_def builder_build_def builder_new_def
        worker_threads_def max_blocking_threads_def assms(1) positive_threads_def Let_def)
qed

lemma runtimes_build_witness:
  "\<exists>io te se go. make_io_runtime (\<lambda>s. if positive_threads s then Inr () else Inl IoError) nz_one = Inr io \<and>
    make_telemetry_runtime (\<lambda>s. if positive_threads s then Inr () else Inl IoError) = Inr te \<and>
    make_server_runtime (\<lambda>s. if positive_threads s then Inr () else Inl IoError) nz_one = Inr se \<and>
    make_gossip_runtime (\<lambda>s. if positive_threads s then Inr () else Inl IoError) = Inr go \<and>
    ts_worker_threads (rt_settings go) = Some 1"
  using runtimes_build [of "\<lambda>s. if positive_threads s then Inr () else Inl IoError" nz_one] by auto

text \<open>
  Awaiting a handle passes on what became of the task: pending polls are skipped, the first ready one
  decides, a result is returned and a panic is resumed. The branch marked unreachable is taken only for a
  task that was cancelled, which nothing in the program does.
\<close>
lemma await_join_outcome:
  assumes "list_all (\<lambda>x. x = Pending) before"
  shows "await_join (before @ Ready r # rest) =
    (case r of Joined v \<Rightarrow> Returns (Ready v) | JoinPanicked p \<Rightarrow> ResumesUnwind p | JoinCancelled \<Rightarrow> Unreachable)"
  using assms by (induction before) (auto simp: join_handle_poll_def split: join_result.split)

end
