(* ===== verification/Telemetry.thy ===== *)
theory Telemetry
  imports Config
begin

text \<open>
  \<open>crates/server/src/telemetry.rs\<close>: what the initialisation installs. The exporters and the appenders are
  not part of the repository: building one may fail, which the sources turn into a panic, and parsing
  a filter may fail, likewise. The result is the list of what was installed, in order, and the guards
  to be dropped at the end.
\<close>

datatype drop_guard = MetricsGuard | TracesGuard | RuntimeGuard

datatype appender =
    FastraceEvent
  | FileAppender string string string "nonzero_usize option"
  | StderrAppender
  | OpentelemetryLog string string

text \<open>A dispatch: filter, diagnostics and appender.\<close>

record dispatch =
  d_filter :: string
  d_diagnostics :: "string list"
  d_append :: appender

datatype telemetry_effect =
    SetMeterProvider string int string
  | SetReporter string string
  | ApplyLogger "dispatch list"

record telemetry_env =
  tx_exporter :: "string \<Rightarrow> bool"
  tx_file_appender :: "string \<Rightarrow> string \<Rightarrow> bool"
  tx_filter :: "string \<Rightarrow> bool"
  tx_rust_log :: "string option"

definition make_rust_log_filter :: "telemetry_env \<Rightarrow> string \<Rightarrow> panic + string" where
  "make_rust_log_filter tx spec = (if tx_filter tx spec then Ok spec else Err UnwrapNone)"

definition init_metrics ::
  "telemetry_env \<Rightarrow> string \<Rightarrow> metrics_config \<Rightarrow> panic + (telemetry_effect list \<times> drop_guard list)" where
  "init_metrics tx service_name config =
     (case metrics_opentelemetry config of
        None \<Rightarrow> Ok ([], [])
      | Some c \<Rightarrow>
          if tx_exporter tx (metrics_otlp_endpoint c) then
            Ok ([SetMeterProvider (metrics_otlp_endpoint c) (push_interval c) service_name], [MetricsGuard])
          else Err UnwrapNone)"

definition init_traces ::
  "telemetry_env \<Rightarrow> string \<Rightarrow> traces_config \<Rightarrow> panic + (telemetry_effect list \<times> drop_guard list)" where
  "init_traces tx service_name config =
     (case traces_opentelemetry config of
        None \<Rightarrow> Ok ([], [])
      | Some c \<Rightarrow>
          if tx_exporter tx (traces_otlp_endpoint c) then
            Ok ([SetReporter (traces_otlp_endpoint c) service_name], [TracesGuard])
          else Err UnwrapNone)"

text \<open>One dispatch of the logger builder: the filter is parsed first, a bad one panics.\<close>

definition add_dispatch ::
  "telemetry_env \<Rightarrow> string \<Rightarrow> string list \<Rightarrow> appender \<Rightarrow> dispatch list \<Rightarrow> panic + dispatch list" where
  "add_dispatch tx spec diagnostics app ds =
     (case make_rust_log_filter tx spec of
        Inl p \<Rightarrow> Err p
      | Inr f \<Rightarrow> Ok (ds @ [\<lparr>d_filter = f, d_diagnostics = diagnostics, d_append = app\<rparr>]))"

abbreviation and_then :: "'e + 'a \<Rightarrow> ('a \<Rightarrow> 'e + 'b) \<Rightarrow> 'e + 'b" where
  "and_then r f \<equiv> (case r of Inl e \<Rightarrow> Err e | Inr x \<Rightarrow> f x)"

definition log_fastrace :: "telemetry_env \<Rightarrow> telemetry_config \<Rightarrow> dispatch list \<Rightarrow> panic + dispatch list" where
  "log_fastrace tx config ds =
     (case traces config of
        None \<Rightarrow> Ok ds
      | Some t \<Rightarrow> add_dispatch tx (capture_log_filter t) [] FastraceEvent ds)"

definition log_file ::
  "telemetry_env \<Rightarrow> string \<Rightarrow> string list \<Rightarrow> telemetry_config \<Rightarrow> dispatch list \<Rightarrow> panic + dispatch list" where
  "log_file tx service_name diagnostics config ds =
     (case logs_file (logs config) of
        None \<Rightarrow> Ok ds
      | Some f \<Rightarrow>
          if tx_file_appender tx (file_dir f) service_name then
            add_dispatch tx (file_filter f) diagnostics
              (FileAppender (file_dir f) service_name ''log'' (max_files f)) ds
          else Err UnwrapNone)"

definition log_stderr ::
  "telemetry_env \<Rightarrow> string list \<Rightarrow> telemetry_config \<Rightarrow> dispatch list \<Rightarrow> panic + dispatch list" where
  "log_stderr tx diagnostics config ds =
     (case tx_rust_log tx of
        Some spec \<Rightarrow> add_dispatch tx spec diagnostics StderrAppender ds
      | None \<Rightarrow>
          (case logs_stderr (logs config) of
             None \<Rightarrow> Ok ds
           | Some s \<Rightarrow> add_dispatch tx (stderr_filter s) diagnostics StderrAppender ds))"

definition log_opentelemetry ::
  "telemetry_env \<Rightarrow> string \<Rightarrow> string list \<Rightarrow> telemetry_config \<Rightarrow> dispatch list \<Rightarrow> panic + dispatch list" where
  "log_opentelemetry tx service_name diagnostics config ds =
     (case logs_opentelemetry (logs config) of
        None \<Rightarrow> Ok ds
      | Some ot \<Rightarrow>
          (case make_rust_log_filter tx (otel_filter ot) of
             Inl p \<Rightarrow> Err p
           | Inr f \<Rightarrow>
               if tx_exporter tx (logs_otlp_endpoint ot) then
                 Ok (ds @ [\<lparr>d_filter = f, d_diagnostics = diagnostics,
                   d_append = OpentelemetryLog service_name (logs_otlp_endpoint ot)\<rparr>])
               else Err UnwrapNone))"

text \<open>The static diagnostic carries the node id, the other one the current trace.\<close>

definition init_logs ::
  "telemetry_env \<Rightarrow> string \<Rightarrow> string \<Rightarrow> telemetry_config \<Rightarrow> panic + (telemetry_effect list \<times> drop_guard list)" where
  "init_logs tx service_name node_id_text config =
     (let diagnostics = [''fastrace'', ''node_id='' @ node_id_text] in
      and_then (log_fastrace tx config []) (\<lambda>ds.
      and_then (log_file tx service_name diagnostics config ds) (\<lambda>ds.
      and_then (log_stderr tx diagnostics config ds) (\<lambda>ds.
      and_then (log_opentelemetry tx service_name diagnostics config ds) (\<lambda>ds.
        Ok ([ApplyLogger ds], []))))))"

definition telemetry_init ::
  "telemetry_env \<Rightarrow> string \<Rightarrow> string \<Rightarrow> telemetry_config \<Rightarrow> panic + (telemetry_effect list \<times> drop_guard list)" where
  "telemetry_init tx service_name node_id_text config =
     and_then (case metrics config of None \<Rightarrow> Ok ([], []) | Some m \<Rightarrow> init_metrics tx service_name m) (\<lambda>(e1, g1).
     and_then (case traces config of None \<Rightarrow> Ok ([], []) | Some t \<Rightarrow> init_traces tx service_name t) (\<lambda>(e2, g2).
     and_then (init_logs tx service_name node_id_text config) (\<lambda>(e3, g3).
       Ok (e1 @ e2 @ e3, g1 @ g2 @ g3))))"

section \<open>Properties\<close>

text \<open>The appenders a configuration asks for, with the filter each of them gets.\<close>

definition wanted_appenders :: "telemetry_env \<Rightarrow> string \<Rightarrow> telemetry_config \<Rightarrow> (string \<times> appender) list" where
  "wanted_appenders tx service_name config =
     (case traces config of None \<Rightarrow> [] | Some t \<Rightarrow> [(capture_log_filter t, FastraceEvent)]) @
     (case logs_file (logs config) of None \<Rightarrow> []
      | Some f \<Rightarrow> [(file_filter f, FileAppender (file_dir f) service_name ''log'' (max_files f))]) @
     (case or_else (tx_rust_log tx) (map_option stderr_filter (logs_stderr (logs config))) of
        None \<Rightarrow> [] | Some spec \<Rightarrow> [(spec, StderrAppender)]) @
     (case logs_opentelemetry (logs config) of None \<Rightarrow> []
      | Some ot \<Rightarrow> [(otel_filter ot, OpentelemetryLog service_name (logs_otlp_endpoint ot))])"

lemma add_dispatch_Ok:
  "tx_filter tx spec \<Longrightarrow> add_dispatch tx spec dg app ds = Ok (ds @ [\<lparr>d_filter = spec, d_diagnostics = dg, d_append = app\<rparr>])"
  by (simp add: add_dispatch_def make_rust_log_filter_def)

lemmas log_defs = log_fastrace_def log_file_def log_stderr_def log_opentelemetry_def make_rust_log_filter_def

text \<open>
  With valid filters and reachable exporters the initialisation does not panic, installs one
  dispatch per configured appender in a fixed order, lets \<open>RUST_LOG\<close> replace the configured filter of
  the standard error appender (and enable it when it is not configured), and returns a guard for each
  of metrics and traces that has an exporter.
\<close>
lemma telemetry_installs_configured:
  assumes "\<And>spec. tx_filter tx spec" and "\<And>url. tx_exporter tx url" and "\<And>d s. tx_file_appender tx d s"
  shows "\<exists>pre ds gs. telemetry_init tx service_name i config = Ok (pre @ [ApplyLogger ds], gs) \<and>
    map (\<lambda>d. (d_filter d, d_append d)) ds = wanted_appenders tx service_name config \<and>
    gs = (if Option.bind (metrics config) metrics_opentelemetry = None then [] else [MetricsGuard]) @
         (if Option.bind (traces config) traces_opentelemetry = None then [] else [TracesGuard])"
proof -
  have logs: "\<exists>ds. init_logs tx service_name i config = Ok ([ApplyLogger ds], []) \<and>
      map (\<lambda>d. (d_filter d, d_append d)) ds = wanted_appenders tx service_name config"
    by (cases "traces config"; cases "logs_file (logs config)"; cases "tx_rust_log tx";
        cases "logs_stderr (logs config)"; cases "logs_opentelemetry (logs config)")
      (simp_all add: init_logs_def Let_def log_defs add_dispatch_Ok assms wanted_appenders_def)
  have m: "\<exists>e. (case metrics config of None \<Rightarrow> Ok ([], []) | Some m \<Rightarrow> init_metrics tx service_name m) =
      Ok (e, if Option.bind (metrics config) metrics_opentelemetry = None then [] else [MetricsGuard])"
    using assms(2) by (auto simp: init_metrics_def split: option.split bind_splits)
  have t: "\<exists>e. (case traces config of None \<Rightarrow> Ok ([], []) | Some t \<Rightarrow> init_traces tx service_name t) =
      Ok (e, if Option.bind (traces config) traces_opentelemetry = None then [] else [TracesGuard])"
    using assms(2) by (auto simp: init_traces_def split: option.split bind_splits)
  obtain ds e1 e2 where l: "init_logs tx service_name i config = Ok ([ApplyLogger ds], [])"
      "map (\<lambda>d. (d_filter d, d_append d)) ds = wanted_appenders tx service_name config"
      and e1: "(case metrics config of None \<Rightarrow> Ok ([], []) | Some m \<Rightarrow> init_metrics tx service_name m) =
        Ok (e1, if Option.bind (metrics config) metrics_opentelemetry = None then [] else [MetricsGuard])"
      and e2: "(case traces config of None \<Rightarrow> Ok ([], []) | Some t \<Rightarrow> init_traces tx service_name t) =
        Ok (e2, if Option.bind (traces config) traces_opentelemetry = None then [] else [TracesGuard])"
    using logs m t by blast
  then show ?thesis
    by (intro exI [of _ "e1 @ e2"] exI [of _ ds]) (simp add: telemetry_init_def split del: if_split)
qed

lemma telemetry_installs_configured_witness:
  "\<exists>pre ds gs. telemetry_init \<lparr>tx_exporter = (\<lambda>_. True), tx_file_appender = (\<lambda>_ _. True), tx_filter = (\<lambda>_. True),
        tx_rust_log = Some ''DEBUG''\<rparr> ''percas'' ''1'' (telemetry (config_default 0 :: string config)) =
      Ok (pre @ [ApplyLogger ds], gs) \<and> gs = [MetricsGuard, TracesGuard] \<and>
    map d_filter ds = [''INFO'', ''INFO'', ''DEBUG'', ''INFO'']"
proof -
  let ?tx = "\<lparr>tx_exporter = (\<lambda>_. True), tx_file_appender = (\<lambda>_ _. True), tx_filter = (\<lambda>_. True),
        tx_rust_log = Some ''DEBUG''\<rparr>"
  let ?c = "telemetry (config_default 0 :: string config)"
  obtain pre ds gs where i: "telemetry_init ?tx ''percas'' ''1'' ?c = Ok (pre @ [ApplyLogger ds], gs)"
      "map (\<lambda>d. (d_filter d, d_append d)) ds = wanted_appenders ?tx ''percas'' ?c"
      "gs = (if Option.bind (metrics ?c) metrics_opentelemetry = None then [] else [MetricsGuard]) @
         (if Option.bind (traces ?c) traces_opentelemetry = None then [] else [TracesGuard])"
    using telemetry_installs_configured [of ?tx "''percas''" "''1''" ?c] by auto
  have "map d_filter ds = map fst (wanted_appenders ?tx ''percas'' ?c)"
    by (simp add: i(2) [symmetric])
  then have f: "map d_filter ds = [''INFO'', ''INFO'', ''DEBUG'', ''INFO'']"
    by (simp add: wanted_appenders_def config_default_def)
  with i f show ?thesis by (auto simp: config_default_def)
qed

end
