(* ===== verification/Start.thy ===== *)
theory Start
  imports Server LoadConfig Runtime Telemetry
begin

text \<open>
  \<open>cmd/percas/src/start.rs\<close>, \<open>main.rs\<close>, \<open>styled.rs\<close> and the rest of \<open>server.rs\<close>: from the command line to a running node
  and its shutdown. The definitions compose the components in the order of the sources, every early
  return included; the machine is its directories and its files. What the outside contributes is
  collected in \<open>program_env\<close>. A successful start yields the state of the server and the order in which
  its parts are stopped once the shutdown signal has come.
\<close>

section \<open>Server state and shutdown\<close>

datatype action = ReportMetrics int

record 'url server_state =
  ss_advertise_data_url :: 'url
  ss_advertise_ctrl_url :: 'url
  ss_server_fut :: socket_addr
  ss_gossip_futs :: "gossip_future list"
  ss_actions :: "action list"

datatype lifecycle_event =
    AwaitSignal
  | ShutdownAction action
  | AwaitAction action
  | JoinServer socket_addr
  | JoinGossip "gossip_future list"

definition start_server ::
  "socket_addr \<Rightarrow> 'url \<Rightarrow> 'url \<Rightarrow> gossip_future list \<Rightarrow> server_error + 'url server_state" where
  "start_server acceptor data_url ctrl_url gossip_futs =
     (let shutdown_tx_actions = [ReportMetrics (60 * 1000000000)] in
      Ok \<lparr>ss_advertise_data_url = data_url, ss_advertise_ctrl_url = ctrl_url, ss_server_fut = acceptor,
          ss_gossip_futs = gossip_futs, ss_actions = shutdown_tx_actions\<rparr>)"

definition await_shutdown :: "'url server_state \<Rightarrow> lifecycle_event list" where
  "await_shutdown st =
     [AwaitSignal] @ map ShutdownAction (ss_actions st) @ map AwaitAction (ss_actions st) @
     [JoinServer (ss_server_fut st)] @ [JoinGossip (ss_gossip_futs st)]"

section \<open>Running the server\<close>

record machine =
  os_dirs :: dir_tree
  os_files :: file_system

record ('id, 'url, 'c, 't) program_env =
  px_toml :: "('t, 'url) toml_ops"
  px_telemetry :: telemetry_env
  px_tokio :: tokio_build
  px_cpus :: nonzero_usize
  px_foyer :: "'c foyer"
  px_net :: "'url net_env"
  px_gossip :: "('id, 'url) gossip_ext"
  px_peers :: "nat \<Rightarrow> ('id, 'url) network"
  px_clock0 :: timestamp
  px_clock :: "nat \<Rightarrow> timestamp"
  px_now_v7 :: 'id
  px_id_text :: "'id \<Rightarrow> string"
  px_vars :: "(string \<times> string) list"
  px_ctrlc :: bool

record ('id, 'url, 'c) running_node =
  rn_context :: "'c percas_context"
  rn_gossip :: "('id, 'url) gossip_state"
  rn_events :: "lifecycle_event list"

definition run_server ::
  "('id::linorder, 'url, 'c, 't) program_env \<Rightarrow> 'id \<Rightarrow> 'url config \<Rightarrow> machine \<Rightarrow>
   machine \<times> (panic + (string + ('id, 'url, 'c) running_node))" where
  "run_server px fresh_id config os =
     (let server_config = server config; st = storage_cfg config in
      case create_dir_all (cfg_server_dir server_config) (os_dirs os) of
        (t1, Inl _) \<Rightarrow>
          (os\<lparr>os_dirs := t1\<rparr>, Ok (Err (''failed to create data dir: '' @ cfg_server_dir server_config)))
      | (t1, Inr _) \<Rightarrow>
          (case try_new (px_foyer px) (px_cpus px) (data_dir st) (memory_capacity st) (disk_capacity st)
                  (disk_throttle_of st) True t1 of
             (t2, Inl p) \<Rightarrow> (os\<lparr>os_dirs := t2\<rparr>, Err p)
           | (t2, Inr (Inl _)) \<Rightarrow> (os\<lparr>os_dirs := t2\<rparr>, Ok (Err ''failed to start server''))
           | (t2, Inr (Inr eng)) \<Rightarrow>
               (let os2 = os\<lparr>os_dirs := t2\<rparr>; cx = percas_context_new eng in
                case make_acceptor_and_advertise_url (px_net px) (listen_data_addr server_config)
                       (advertise_data_addr server_config) of
                  Inl _ \<Rightarrow> (os2, Ok (Err ''failed to start server''))
                | Inr (data_acceptor, data_url) \<Rightarrow>
                    (case make_acceptor_and_advertise_url (px_net px) (listen_ctrl_addr server_config)
                            (advertise_ctrl_addr server_config) of
                       Inl _ \<Rightarrow> (os2, Ok (Err ''failed to start server''))
                     | Inr (ctrl_acceptor, ctrl_url) \<Rightarrow>
                         (case start_gossip (px_gossip px) (px_peers px) (px_clock0 px) (px_clock px) server_config
                                 fresh_id ctrl_acceptor data_url ctrl_url (os_files os2) of
                            (fs, Inl p) \<Rightarrow> (os2\<lparr>os_files := fs\<rparr>, Err p)
                          | (fs, Inr (Inl _)) \<Rightarrow> (os2\<lparr>os_files := fs\<rparr>, Ok (Err ''failed to start server''))
                          | (fs, Inr (Inr (gossip_state, gossip_futs))) \<Rightarrow>
                              (let os3 = os2\<lparr>os_files := fs\<rparr> in
                               case start_server data_acceptor data_url ctrl_url gossip_futs of
                                 Inl _ \<Rightarrow> (os3, Ok (Err ''A fatal error has occurred in server process.''))
                               | Inr srv \<Rightarrow>
                                   if px_ctrlc px then
                                     (os3, Ok (Ok \<lparr>rn_context = cx, rn_gossip = gossip_state,
                                        rn_events = await_shutdown (srv :: 'url server_state)\<rparr>))
                                   else (os3, Ok (Err ''failed to setup ctrl-c signal handle''))))))))"

section \<open>The command\<close>

record command_start =
  config_file :: string
  service_name_arg :: "string option"

definition start_run ::
  "('id::linorder, 'url, 'c, 't) program_env \<Rightarrow> command_start \<Rightarrow> machine \<Rightarrow>
   machine \<times> (panic + (string + ('id, 'url, 'c) running_node))" where
  "start_run px cmd os =
     (case load_config (px_toml px) (os_files os) (config_file cmd) (px_vars px) of
        Inl p \<Rightarrow> (os, Err p)
      | Inr (Inl e) \<Rightarrow> (os, Ok (Err e))
      | Inr (Inr res) \<Rightarrow>
          (let config = loaded res;
               fresh_id = px_now_v7 px;
               service_name = (case service_name_arg cmd of None \<Rightarrow> ''percas'' | Some s \<Rightarrow> s)
           in case make_telemetry_runtime (px_tokio px) of Inl p \<Rightarrow> (os, Err p) | Inr _ \<Rightarrow>
              (case telemetry_init (px_telemetry px) service_name (px_id_text px fresh_id) (telemetry config) of
                 Inl p \<Rightarrow> (os, Err p)
               | Inr _ \<Rightarrow>
                   (case make_io_runtime (px_tokio px) (px_cpus px) of Inl p \<Rightarrow> (os, Err p) | Inr _ \<Rightarrow>
                   (case make_server_runtime (px_tokio px) (px_cpus px) of Inl p \<Rightarrow> (os, Err p) | Inr _ \<Rightarrow>
                   (case make_gossip_runtime (px_tokio px) of Inl p \<Rightarrow> (os, Err p) | Inr _ \<Rightarrow>
                      run_server px fresh_id config os))))))"

datatype sub_command = StartCommand command_start

definition command_run ::
  "('id::linorder, 'url, 'c, 't) program_env \<Rightarrow> sub_command \<Rightarrow> machine \<Rightarrow>
   machine \<times> (panic + (string + ('id, 'url, 'c) running_node))" where
  "command_run px cmd os = (case cmd of StartCommand c \<Rightarrow> start_run px c os)"

text \<open>
  \<open>main\<close>: the arguments are parsed by \<open>clap\<close>, which ends the process itself when they do not parse, for
  help and for the version; its exit code is the left value of \<open>parse\<close>.
\<close>

definition percas_main ::
  "(string list \<Rightarrow> int + sub_command) \<Rightarrow> ('id::linorder, 'url, 'c, 't) program_env \<Rightarrow> string list \<Rightarrow> machine \<Rightarrow>
   machine \<times> (int + (panic + (string + ('id, 'url, 'c) running_node)))" where
  "percas_main parse px args os =
     (case parse args of
        Inl code \<Rightarrow> (os, Err code)
      | Inr cmd \<Rightarrow> map_prod id Ok (command_run px cmd os))"

section \<open>Colours of the help\<close>

text \<open>\<open>styled.rs\<close>: the styles of \<open>anstyle\<close> it uses, and the table of \<open>clap\<close>.\<close>

datatype ansi_color = BrightGreen | BrightCyan | Green | Red | Cyan

record style =
  st_bold :: bool
  st_underline :: bool
  st_fg_color :: "ansi_color option"

record clap_styles =
  cs_usage :: style
  cs_header :: style
  cs_valid :: style
  cs_literal :: style
  cs_invalid :: style
  cs_error :: style
  cs_placeholder :: style

definition style_new :: style where
  "style_new = \<lparr>st_bold = False, st_underline = False, st_fg_color = None\<rparr>"

definition styled :: clap_styles where
  "styled =
     (let base = style_new;
          bold = base\<lparr>st_bold := True\<rparr>;
          bold_underline = (base\<lparr>st_bold := True\<rparr>)\<lparr>st_underline := True\<rparr>
      in \<lparr>cs_usage = bold_underline\<lparr>st_fg_color := Some BrightGreen\<rparr>,
          cs_header = bold_underline\<lparr>st_fg_color := Some BrightGreen\<rparr>,
          cs_valid = bold_underline\<lparr>st_fg_color := Some Green\<rparr>,
          cs_literal = bold\<lparr>st_fg_color := Some BrightCyan\<rparr>,
          cs_invalid = bold\<lparr>st_fg_color := Some Red\<rparr>,
          cs_error = bold\<lparr>st_fg_color := Some Red\<rparr>,
          cs_placeholder = base\<lparr>st_fg_color := Some Cyan\<rparr>\<rparr>)"

section \<open>Lemmas\<close>

lemma create_dir_all_Ok: "create_dir_all d t = (t', Inr u) \<Longrightarrow> d \<in> set (dirs t') \<and> set (dirs t) \<subseteq> set (dirs t')"
  by (auto simp: create_dir_all_def ancestors_def split: if_splits)

lemma create_dir_all_mono: "set (dirs t) \<subseteq> set (dirs (fst (create_dir_all d t)))"
  by (auto simp: create_dir_all_def)

lemma try_new_dirs:
  assumes "try_new fy cpus d mc dc th reg t = (t', Inr (Inr e))"
  shows "d \<in> set (dirs t') \<and> set (dirs t) \<subseteq> set (dirs t') \<and> capacity_of e = dc"
  using assms create_dir_all_mono [of t d]
  by (auto simp: try_new_def Let_def split: prod.splits if_splits option.splits sum.splits)

lemma start_gossip_Ok:
  assumes "codec_ok (ext_codec ext)"
    and "start_gossip ext net now0 now config fresh acceptor du cu fs = (fs', Inr (Inr (g, futs)))"
  shows "node_file_holds (ext_codec ext) fs' (node_file_path (cfg_server_dir config)) (current_node g) \<and>
    node_id (current_node g) \<in> snd ` ring_points (ring_cell g) \<and>
    member_of (membership_cell g) (node_id (current_node g)) \<noteq> None \<and>
    futs = ControlServer acceptor # map GossipTask [PingTask, AntiEntropyTask, RebuildRingTask, RemoveDeadMembersTask]"
proof -
  obtain current fs1 tasks where i: "init_node (ext_codec ext) fs config fresh du cu = Inr (current, fs1)"
      and s: "gossip_start ext net now0 now (gossip_new current (cfg_initial_peers config) (cfg_server_dir config)) fs1
        = (g, fs', Inr (Inr tasks))"
      and f: "futs = ControlServer acceptor # map GossipTask tasks"
    using assms(2) by (auto simp: start_gossip_def Let_def split: sum.splits prod.splits)
  let ?g0 = "gossip_new current (cfg_initial_peers config) (cfg_server_dir config)"
  have "gossip_booting ext (node_id current) (?g0, fs1)"
    using assms(1) init_node_holds [OF assms(1) i] by (auto simp: gossip_booting_def)
  then have "gossip_inv ext (node_id current) (?g0, fs1)" by (rule gossip_booting_inv)
  then have inv: "gossip_inv ext (node_id current) (g, fs')" "dir g = cfg_server_dir config"
    using gossip_start_inv [OF _ s] by (auto simp: gossip_new_def)
  from gossip_start_Ok [OF s] inv f show ?thesis
    by (simp add: gossip_inv_def gossip_new_def)
qed

text \<open>A start that gets as far as the gossip has opened the engine and bound both addresses.\<close>

definition listening :: "('id, 'url, 'c, 't) program_env \<Rightarrow> 'url config \<Rightarrow> bool" where
  "listening px config \<longleftrightarrow>
     (\<exists>a u b v. make_acceptor_and_advertise_url (px_net px) (listen_data_addr (server config))
          (advertise_data_addr (server config)) = Inr (a, u) \<and>
        make_acceptor_and_advertise_url (px_net px) (listen_ctrl_addr (server config))
          (advertise_ctrl_addr (server config)) = Inr (b, v))"

lemma run_server_reaches_gossip:
  assumes "run_server px fresh config os = (os', r)"
  obtains (early) "os_files os' = os_files os" "\<And>rn. r \<noteq> Inr (Inr rn)"
  | (late) e a u b v t1 g where
      "create_dir_all (cfg_server_dir (server config)) (os_dirs os) = (t1, Inr ())"
      "try_new (px_foyer px) (px_cpus px) (data_dir (storage_cfg config)) (memory_capacity (storage_cfg config))
        (disk_capacity (storage_cfg config)) (disk_throttle_of (storage_cfg config)) True t1 = (os_dirs os', Inr (Inr e))"
      "make_acceptor_and_advertise_url (px_net px) (listen_data_addr (server config))
          (advertise_data_addr (server config)) = Inr (a, u)"
      "make_acceptor_and_advertise_url (px_net px) (listen_ctrl_addr (server config))
          (advertise_ctrl_addr (server config)) = Inr (b, v)"
      "start_gossip (px_gossip px) (px_peers px) (px_clock0 px) (px_clock px) (server config) fresh b u v (os_files os)
        = (os_files os', g)"
      "\<And>rn. r = Inr (Inr rn) \<Longrightarrow> rn_context rn = percas_context_new e \<and>
        (\<exists>futs. g = Inr (Inr (rn_gossip rn, futs)) \<and>
          rn_events rn = [AwaitSignal, ShutdownAction (ReportMetrics 60000000000), AwaitAction (ReportMetrics 60000000000),
            JoinServer a, JoinGossip futs])"
  using assms unfolding run_server_def Let_def start_server_def await_shutdown_def
  by (auto split: prod.splits sum.splits if_splits intro: that)

lemma start_run_cases:
  assumes "start_run px cmd os = (os', r)"
  obtains (failed) "os' = os" "\<And>rn. r \<noteq> Inr (Inr rn)"
  | (ran) res where "load_config (px_toml px) (os_files os) (config_file cmd) (px_vars px) = Inr (Inr res)"
      "run_server px (px_now_v7 px) (loaded res) os = (os', r)"
  using assms unfolding start_run_def Let_def
  by (auto split: sum.splits prod.splits intro: that)

section \<open>Properties\<close>


text \<open>
  A start that fails early does not touch the node's identity: unless the configuration was loaded,
  the storage engine was opened and both addresses were bound, the files of the machine are as before.
\<close>
lemma early_failure_keeps_files:
  assumes "start_run px cmd os = (os', r)"
  shows "os_files os' = os_files os \<or>
    (\<exists>res t e. load_config (px_toml px) (os_files os) (config_file cmd) (px_vars px) = Inr (Inr res) \<and>
      try_new (px_foyer px) (px_cpus px) (data_dir (storage_cfg (loaded res))) (memory_capacity (storage_cfg (loaded res)))
        (disk_capacity (storage_cfg (loaded res))) (disk_throttle_of (storage_cfg (loaded res))) True t =
        (os_dirs os', Inr (Inr e)) \<and>
      listening px (loaded res))"
  using assms
proof (cases rule: start_run_cases)
  case (ran res)
  from ran(2) show ?thesis
  proof (cases rule: run_server_reaches_gossip)
    case (late e a u b v t1 g)
    then show ?thesis using ran(1) unfolding listening_def by blast
  qed simp
qed simp

section \<open>A concrete start\<close>

definition demo_px :: "(nat, string, bytes \<rightharpoonup> bytes, demo_toml) program_env" where
  "demo_px = \<lparr>px_toml = demo_toml_ops,
     px_telemetry = \<lparr>tx_exporter = (\<lambda>_. True), tx_file_appender = (\<lambda>_ _. True), tx_filter = (\<lambda>_. True),
       tx_rust_log = None\<rparr>,
     px_tokio = (\<lambda>_. Inr ()), px_cpus = nz_one, px_foyer = demo_foyer,
     px_net = \<lparr>nx_bind = (\<lambda>a. Ok (Some a)), nx_local_ip = Ok (V4 0x0A000001), nx_url_of = (\<lambda>_. Some ''http://d'')\<rparr>,
     px_gossip = demo_ext, px_peers = (\<lambda>_ _ _ _. None), px_clock0 = 5, px_clock = (\<lambda>_. 6), px_now_v7 = 7,
     px_id_text = (\<lambda>_. ''1''), px_vars = demo_vars, px_ctrlc = True\<rparr>"

definition demo_machine :: machine where
  "demo_machine = \<lparr>os_dirs = \<lparr>dirs = [''/''], creatable = (\<lambda>_. True)\<rparr>, os_files = demo_config_fs\<rparr>"

definition demo_cmd :: command_start where
  "demo_cmd = \<lparr>config_file = ''config.toml'', service_name_arg = None\<rparr>"

lemma start_gossip_alone:
  assumes "cfg_initial_peers config = []" "init_node (ext_codec ext) fs config fresh du cu = Inr (n, fs1)"
  shows "\<exists>fs' g futs. start_gossip ext net now0 now config fresh acceptor du cu fs = (fs', Inr (Inr (g, futs)))"
proof -
  let ?g = "gossip_new n (cfg_initial_peers config) (cfg_server_dir config)"
  obtain g fs2 r where s: "gossip_start ext net now0 now ?g fs1 = (g, fs2, Inr r)"
    by (rule that) (simp add: gossip_start_def fast_bootstrap_def gossip_new_def assms(1) Let_def)
  moreover obtain tasks where "r = Ok tasks" using gossip_start_Ok [OF s] by blast
  ultimately show ?thesis by (simp add: start_gossip_def assms(2))
qed

lemma demo_try_new:
  assumes "creatable t d"
  shows "\<exists>t' e. try_new demo_foyer nz_one d mc dc None reg t = (t', Inr (Inr e))"
proof -
  have "\<exists>x. default_throttle nz_one = Inr x"
    using default_throttle_Ok [of nz_one] by (auto simp: word_le_nat_alt)
  then show ?thesis
    using assms by (auto simp: try_new_def create_dir_all_def ancestors_def demo_foyer_def Let_def)
qed

lemma create_dir_all_creatable:
  "creatable t d \<Longrightarrow> \<exists>t'. create_dir_all d t = (t', Inr ()) \<and> creatable t' = creatable t"
  by (simp add: create_dir_all_def)

lemma demo_px_simps:
  "px_toml demo_px = demo_toml_ops" "px_tokio demo_px = (\<lambda>_. Inr ())" "px_cpus demo_px = nz_one"
  "px_foyer demo_px = demo_foyer" "px_gossip demo_px = demo_ext" "px_now_v7 demo_px = 7"
  "px_id_text demo_px i = ''1''" "px_vars demo_px = demo_vars" "px_ctrlc demo_px"
  "os_files demo_machine = demo_config_fs" "config_file demo_cmd = ''config.toml''" "service_name_arg demo_cmd = None"
  by (simp_all add: demo_px_def demo_machine_def demo_cmd_def)

lemma demo_telemetry:
  "\<exists>x. telemetry_init (px_telemetry demo_px) n i (telemetry (config_default 0 :: string config)) = Inr x"
  by (simp add: telemetry_init_def init_metrics_def init_traces_def init_logs_def log_defs add_dispatch_def
      demo_px_def config_default_def Let_def)

lemma demo_acceptor: "\<exists>a. make_acceptor_and_advertise_url (px_net demo_px) l None = Inr (a, ''http://d'')"
  by (simp add: make_acceptor_and_advertise_url_def demo_px_def)

lemma demo_start: "\<exists>os' rn. start_run demo_px demo_cmd demo_machine = (os', Inr (Inr rn))"
proof -
  let ?c = "config_default 0 :: string config" and ?u = "''http://d''"
  have cfg: "cfg_initial_peers (server ?c) = []" "disk_throttle_of (storage_cfg ?c) = None"
      "advertise_data_addr (server ?c) = None" "advertise_ctrl_addr (server ?c) = None"
    by (simp_all add: config_default_def)
  obtain t1 where t1: "create_dir_all (cfg_server_dir (server ?c)) (os_dirs demo_machine) = (t1, Inr ())"
      "creatable t1 (data_dir (storage_cfg ?c))"
    using create_dir_all_creatable [of "os_dirs demo_machine" "cfg_server_dir (server ?c)"]
    by (auto simp: demo_machine_def)
  obtain t2 e where e: "try_new demo_foyer nz_one (data_dir (storage_cfg ?c)) (memory_capacity (storage_cfg ?c))
      (disk_capacity (storage_cfg ?c)) None True t1 = (t2, Inr (Inr e))"
    using demo_try_new [OF t1(2)] by blast
  obtain n fs1 where "init_node (ext_codec demo_ext) demo_config_fs (server ?c) 7 ?u ?u = Inr (n, fs1)"
    using demo_init [of demo_config_fs "server ?c" 7 ?u ?u] by (auto simp: demo_config_fs_def)
  note alone = start_gossip_alone [OF cfg(1) this]
  obtain a b where acc: "make_acceptor_and_advertise_url (px_net demo_px) (listen_data_addr (server ?c)) None = Inr (a, ?u)"
      "make_acceptor_and_advertise_url (px_net demo_px) (listen_ctrl_addr (server ?c)) None = Inr (b, ?u)"
    using demo_acceptor by blast
  obtain fs' g futs where g: "start_gossip demo_ext (px_peers demo_px) (px_clock0 demo_px) (px_clock demo_px)
      (server ?c) 7 b ?u ?u demo_config_fs = (fs', Inr (Inr (g, futs)))"
    using alone by blast
  obtain os' rn where run: "run_server demo_px 7 ?c demo_machine = (os', Inr (Inr rn))"
    by (rule that) (simp add: run_server_def Let_def t1(1) cfg demo_px_simps e acc g start_server_def)
  obtain x where "telemetry_init (px_telemetry demo_px) ''percas'' ''1'' (telemetry ?c) = Inr x"
    using demo_telemetry by blast
  then show ?thesis
    using run by (simp add: start_run_def demo_px_simps demo_load make_telemetry_runtime_def make_io_runtime_def
        make_server_runtime_def make_gossip_runtime_def make_runtime_def expect_built_def builder_build_def Let_def)
qed


lemma early_failure_keeps_files_witness:
  "\<exists>os' r. start_run (demo_px\<lparr>px_vars := [(''PERCAS_CONFIG_X'', ''y'')]\<rparr>) demo_cmd demo_machine = (os', r) \<and>
    os_files os' = os_files demo_machine"
proof -
  let ?px = "demo_px\<lparr>px_vars := [(''PERCAS_CONFIG_X'', ''y'')]\<rparr>"
  have "load_config (px_toml ?px) (os_files demo_machine) (config_file demo_cmd) (px_vars ?px) \<noteq> Inr (Inr res)" for res
    by (simp add: load_config_def demo_px_simps starts_with_def known_option_entries_def split: sum.split option.split)
  moreover obtain os' r where s: "start_run ?px demo_cmd demo_machine = (os', r)" by force
  ultimately show ?thesis using early_failure_keeps_files [OF s] s by blast
qed

end
