(* ===== verification/Shutdown.thy ===== *)
theory Shutdown
  imports Start
begin

text \<open>
  The life of the four gossip tasks (\<open>start\<close> in \<open>crates/gossip/src/gossip.rs\<close>) and the shutdown of a node
  (\<open>await_shutdown\<close> in \<open>crates/server/src/server.rs\<close>). Each task loops over a ticker inside a
  \<open>tokio::select!\<close> with the shutdown signal; between ticks and during an exchange with a peer it is
  suspended, and then the signal ends it. A panic ends it too, and nothing restarts it. \<open>await_shutdown\<close>
  joins the tasks through the join handles of \<open>Runtime\<close>, which resume a panic in the thread that joins.
\<close>

section \<open>Tasks\<close>

datatype ('id, 'url) task_status =
    Waiting
  | Exchanging "('id, 'url) node_info"
  | Stopped
  | Panicked panic

text \<open>The first part of a tick of the ping and the anti-entropy task, up to the exchange.\<close>

fun chosen :: "panic + ('id, 'url) tick_action \<Rightarrow> ('id, 'url) task_status" where
  "chosen (Inl p) = Panicked p"
| "chosen (Inr SkipDead) = Waiting"
| "chosen (Inr (Contact i)) = Exchanging i"
| "chosen (Inr Bootstrap) = Waiting"

fun after_segment :: "panic + 'a \<Rightarrow> ('id, 'url) task_status" where
  "after_segment (Inl p) = Panicked p"
| "after_segment (Inr _) = Waiting"

text \<open>The random source: it panics on an empty range and otherwise returns an index in range.\<close>

definition rng_ok :: "(nat \<Rightarrow> panic + nat) \<Rightarrow> bool" where
  "rng_ok rng \<longleftrightarrow> rng 0 = Inl EmptyRange \<and> (\<forall>n>0. \<exists>i<n. rng n = Inr i)"

text \<open>
  A node with its tasks and whether the signal has been given. Messages reach the control server, whose
  requests are tasks of their own: a panic there ends the request only. The random source never lets a
  task reach its bootstrap fallback, so that the fallback is not a step.
\<close>

type_synonym ('id, 'url) node_tasks =
  "('id, 'url) gossip_state \<times> file_system \<times> bool \<times> (gossip_task \<Rightarrow> ('id, 'url) task_status)"

inductive tasks_step ::
  "('id, 'url) gossip_ext \<Rightarrow> ('id::linorder, 'url) node_tasks \<Rightarrow> ('id, 'url) node_tasks \<Rightarrow> bool" for ext where
  message: "handle_message ext now s fs msg = (s', fs', r) \<Longrightarrow> tasks_step ext (s, fs, sig, ts) (s', fs', sig, ts)"
| choose: "k = PingTask \<or> k = AntiEntropyTask \<Longrightarrow> ts k = Waiting \<Longrightarrow> rng_ok rng \<Longrightarrow>
    tasks_step ext (s, fs, sig, ts) (s, fs, sig, ts(k := chosen (choose_member rng s)))"
| ping_end: "ts PingTask = Exchanging peer \<Longrightarrow> ping_done ext now peer outcome s fs = (s', fs', r) \<Longrightarrow>
    tasks_step ext (s, fs, sig, ts) (s', fs', sig, ts(PingTask := after_segment r))"
| sync_end: "ts AntiEntropyTask = Exchanging peer \<Longrightarrow> sync_done ext now peer outcome s fs = (s', fs', r) \<Longrightarrow>
    tasks_step ext (s, fs, sig, ts) (s', fs', sig, ts(AntiEntropyTask := after_segment r))"
| rebuild: "ts RebuildRingTask = Waiting \<Longrightarrow>
    tasks_step ext (s, fs, sig, ts) (rebuild_ring ext now s, fs, sig, ts)"
| sweep: "ts RemoveDeadMembersTask = Waiting \<Longrightarrow> remove_dead_tick ext clock now s = (s', r) \<Longrightarrow>
    tasks_step ext (s, fs, sig, ts) (s', fs, sig, ts(RemoveDeadMembersTask := after_segment r))"
| signal: "tasks_step ext (s, fs, sig, ts) (s, fs, True, ts)"
| stop: "ts k = Waiting \<or> (\<exists>peer. ts k = Exchanging peer) \<Longrightarrow>
    tasks_step ext (s, fs, True, ts) (s, fs, True, ts(k := Stopped))"

inductive_cases tasks_stepE: "tasks_step ext (s, fs, sig, ts) (s', fs', sig', ts')"

section \<open>Joining\<close>

text \<open>The handle of a gossip task: what \<open>select!\<close> returned, or the panic of the loop.\<close>

fun task_handle :: "('id, 'url) task_status \<Rightarrow> (gossip_error + unit, panic) join_result poll" where
  "task_handle Stopped = Ready (Joined (Ok ()))"
| "task_handle (Panicked p) = Ready (JoinPanicked p)"
| "task_handle _ = Pending"

datatype shutdown_log = ServerStopped | ServerFailed | GossipStopped | GossipFailed

type_synonym join_all = "(panic + (gossip_error + unit)) list \<Rightarrow> panic + (gossip_error + unit)"

text \<open>
  The end of \<open>await_shutdown\<close>, when everything it joins has ended: the data server first, then the control
  server and the tasks together by \<open>try_join_all\<close>. Failures are logged, panics are resumed.
\<close>

definition join_parts ::
  "join_all \<Rightarrow> (server_error + unit, panic) join_result \<Rightarrow> (gossip_error + unit, panic) join_result list \<Rightarrow>
   panic + shutdown_log list" where
  "join_parts try_join_all server_fut gossip_futs =
     (case awaited server_fut of
        Inl p \<Rightarrow> Err p
      | Inr server_result \<Rightarrow>
          (let log1 = (case server_result of Inr _ \<Rightarrow> ServerStopped | Inl _ \<Rightarrow> ServerFailed) in
           case try_join_all (map awaited gossip_futs) of
             Inl p \<Rightarrow> Err p
           | Inr (Inr _) \<Rightarrow> Ok [log1, GossipStopped]
           | Inr (Inl _) \<Rightarrow> Ok [log1, GossipFailed]))"

text \<open>\<open>try_join_all\<close>: all results, or the failure or the panic of one of the futures.\<close>

definition join_all_ok :: "join_all \<Rightarrow> bool" where
  "join_all_ok tj \<longleftrightarrow> (\<forall>rs.
     if list_all (\<lambda>r. r = Ok (Ok ())) rs then tj rs = Ok (Ok ())
     else tj rs \<in> set rs \<and> tj rs \<noteq> Ok (Ok ()))"

definition all_tasks :: "gossip_task list" where
  "all_tasks = [PingTask, AntiEntropyTask, RebuildRingTask, RemoveDeadMembersTask]"

fun ready :: "'r poll \<Rightarrow> 'r option" where
  "ready (Ready r) = Some r"
| "ready Pending = None"

text \<open>Nothing is returned while a task is suspended.\<close>

definition shutdown_result ::
  "join_all \<Rightarrow> (server_error + unit, panic) join_result \<Rightarrow> (gossip_error + unit, panic) join_result \<Rightarrow>
   (gossip_task \<Rightarrow> ('id, 'url) task_status) \<Rightarrow> (panic + shutdown_log list) option" where
  "shutdown_result tj server_fut control_fut ts =
     map_option (\<lambda>rs. join_parts tj server_fut (control_fut # rs))
       (those (map (ready \<circ> task_handle \<circ> ts) all_tasks))"

section \<open>Lemmas\<close>

lemma all_tasks_complete: "k \<in> set all_tasks"
  by (cases k) (simp_all add: all_tasks_def)

lemma choose_never_bootstraps: "rng_ok rng \<Longrightarrow> choose_member rng s \<noteq> Inr Bootstrap"
  using empty_table_stops_tasks [of rng s] by (simp add: rng_ok_def)

text \<open>The tasks do to the cells what the step relation of \<open>GossipSteps\<close> does.\<close>

lemma tasks_step_gossip:
  assumes "tasks_step ext (s, fs, sig, ts) (s', fs', sig', ts')"
  shows "(gossip_step ext)\<^sup>*\<^sup>* (s, fs) (s', fs')"
  using assms
proof cases
  case (sweep clock now r)
  then show ?thesis
    using gossip_step.sweep [of ext clock s _ _ fs] gossip_step.rebuild [of ext _ fs now]
    by (cases "remove_dead_members ext clock s")
      (force simp: remove_dead_tick_def split: sum.splits if_splits intro: converse_rtranclp_into_rtranclp)
qed (auto intro: gossip_step.intros)

lemma tasks_run_gossip:
  "(tasks_step ext)\<^sup>*\<^sup>* c d \<Longrightarrow> (gossip_step ext)\<^sup>*\<^sup>* (fst c, fst (snd c)) (fst d, fst (snd d))"
proof (induction rule: rtranclp_induct)
  case (step d e)
  then show ?case
    using tasks_step_gossip [of ext "fst d" "fst (snd d)" "fst (snd (snd d))" "snd (snd (snd d))"
        "fst e" "fst (snd e)" "fst (snd (snd e))" "snd (snd (snd e))"]
    by simp
qed simp

text \<open>What has ended stays ended.\<close>

lemma tasks_step_ended:
  assumes "tasks_step ext (s, fs, sig, ts) (s', fs', sig', ts')" "ts k = Stopped \<or> (\<exists>p. ts k = Panicked p)"
  shows "ts' k = ts k"
  using assms(1) by cases (use assms(2) in auto)

lemma tasks_run_ended:
  "(tasks_step ext)\<^sup>*\<^sup>* c d \<Longrightarrow> snd (snd (snd c)) k = Stopped \<or> (\<exists>p. snd (snd (snd c)) k = Panicked p) \<Longrightarrow>
   snd (snd (snd d)) k = snd (snd (snd c)) k"
proof (induction rule: rtranclp_induct)
  case (step d e)
  then show ?case
    using tasks_step_ended [of ext "fst d" "fst (snd d)" "fst (snd (snd d))" "snd (snd (snd d))"
        "fst e" "fst (snd e)" "fst (snd (snd e))" "snd (snd (snd e))" k]
    by simp
qed simp

definition halted :: "('id, 'url) task_status \<Rightarrow> ('id, 'url) task_status" where
  "halted t = (case t of Panicked p \<Rightarrow> Panicked p | _ \<Rightarrow> Stopped)"

lemma halted_simps [simp]:
  "halted Waiting = Stopped" "halted (Exchanging peer) = Stopped" "halted Stopped = Stopped"
  "halted (Panicked p) = Panicked p"
  by (simp_all add: halted_def)

lemma stop_one: "(tasks_step ext)\<^sup>=\<^sup>= (s, fs, True, ts) (s, fs, True, ts(k := halted (ts k)))"
proof (cases "ts k")
  case Waiting
  then show ?thesis using tasks_step.stop [of ts k ext s fs] by (simp add: halted_def)
next
  case (Exchanging peer)
  then show ?thesis using tasks_step.stop [of ts k ext s fs] by (simp add: halted_def)
next
  case Stopped
  then have "ts(k := halted (ts k)) = ts" by (auto simp: halted_def)
  then show ?thesis by simp
next
  case (Panicked p)
  then have "ts(k := halted (ts k)) = ts" by (auto simp: halted_def)
  then show ?thesis by simp
qed

lemma stop_all: "(tasks_step ext)\<^sup>*\<^sup>* (s, fs, True, ts) (s, fs, True, halted \<circ> ts)"
proof -
  have "(tasks_step ext)\<^sup>*\<^sup>* (s, fs, True, ts) (s, fs, True, fold (\<lambda>k t. t(k := halted (t k))) ks ts)" for ks
  proof (induction ks arbitrary: ts)
    case (Cons k ks)
    have "(tasks_step ext)\<^sup>*\<^sup>* (s, fs, True, ts) (s, fs, True, ts(k := halted (ts k)))"
      using stop_one [of ext s fs ts k] by auto
    also have "(tasks_step ext)\<^sup>*\<^sup>* (s, fs, True, ts(k := halted (ts k))) (s, fs, True, fold (\<lambda>k t. t(k := halted (t k))) (k # ks) ts)"
      using Cons [of "ts(k := halted (ts k))"] by (simp only: fold_simps)
    finally show ?case .
  qed simp
  from this [of all_tasks] have run: "(tasks_step ext)\<^sup>*\<^sup>* (s, fs, True, ts)
      (s, fs, True, fold (\<lambda>k t. t(k := halted (t k))) all_tasks ts)" .
  have "fold (\<lambda>k t. t(k := halted (t k))) all_tasks ts k = (halted \<circ> ts) k" for k
    by (cases k) (simp_all add: all_tasks_def)
  then have "fold (\<lambda>k t. t(k := halted (t k))) all_tasks ts = halted \<circ> ts" ..
  with run show ?thesis by (simp only:)
qed

lemma shutdown_result_ended:
  assumes "\<And>k. ts k = Stopped \<or> (\<exists>p. ts k = Panicked p)"
  shows "shutdown_result tj sf cf ts = Some (join_parts tj sf (cf #
    map (\<lambda>k. case ts k of Panicked p \<Rightarrow> JoinPanicked p | _ \<Rightarrow> Joined (Ok ())) all_tasks))"
proof -
  have "ready (task_handle (ts k)) = Some (case ts k of Panicked p \<Rightarrow> JoinPanicked p | _ \<Rightarrow> Joined (Ok ()))" for k
    using assms [of k] by auto
  then show ?thesis by (simp add: shutdown_result_def all_tasks_def)
qed

section \<open>Properties\<close>


definition demo_join_all :: join_all where
  "demo_join_all rs = (case List.find (\<lambda>r. r \<noteq> Ok (Ok ())) rs of None \<Rightarrow> Ok (Ok ()) | Some r \<Rightarrow> r)"

lemma demo_join_all_ok: "join_all_ok demo_join_all"
proof -
  have "list_all (\<lambda>r. r = Ok (Ok ())) rs" if "List.find (\<lambda>r. r \<noteq> Ok (Ok ())) rs = None" for rs :: "(panic + (gossip_error + unit)) list"
    using that by (simp add: find_None_iff list_all_iff)
  moreover have "r \<in> set rs \<and> r \<noteq> Ok (Ok ()) \<and> \<not> list_all (\<lambda>r. r = Ok (Ok ())) rs"
    if "List.find (\<lambda>r. r \<noteq> Ok (Ok ())) rs = Some r" for rs :: "(panic + (gossip_error + unit)) list" and r
    using find_Some_memD [OF that] by (auto simp: list_all_iff)
  ultimately show ?thesis by (auto simp: join_all_ok_def demo_join_all_def split: option.splits)
qed




text \<open>The ping task picks the one member of a table, and panics when there is none.\<close>

lemma choose_only_member:
  assumes "rng_ok rng" "\<And>k. member_of (membership_cell s) k = (if k = i then Some c else None)" "status c = Alive"
  shows "choose_member rng s = Inr (Contact (info c))"
proof -
  let ?es = "bt_entries (members (membership_cell s))"
  have es: "x \<in> set ?es \<longleftrightarrow> x = (i, c)" for x
    using assms(2) [of "fst x"] by (cases x) (auto simp: bt.mem_entries_iff)
  then have "0 < length ?es" by (metis length_pos_if_in_set)
  then obtain j where j: "j < length ?es" "rng (length ?es) = Inr j" using assms(1) by (auto simp: rng_ok_def)
  then have "?es ! j = (i, c)" using es nth_mem by blast
  with j assms(3) show ?thesis by (simp add: choose_member_def)
qed

lemma choose_none:
  "rng_ok rng \<Longrightarrow> bt_is_empty (members (membership_cell s)) \<Longrightarrow> choose_member rng s = Inl EmptyRange"
  by (simp add: choose_member_def rng_ok_def bt_is_empty_def)

lemma sweep_to_empty:
  assumes "bt_is_empty (members (membership_cell (fst (remove_dead_members ext clock s))))"
    and "\<not> bt_is_empty (members (membership_cell s))"
  shows "\<exists>s'. remove_dead_tick ext clock now s = (s', Ok ()) \<and> bt_is_empty (members (membership_cell s'))"
proof (cases "remove_dead_members ext clock s")
  case (Pair s1 r)
  have "r = Err p \<Longrightarrow> s1 = s" for p
    using Pair by (auto simp: remove_dead_members_def split: sum.splits)
  with Pair assms show ?thesis by (cases r) (auto simp: remove_dead_tick_def rebuild_ring_frame)
qed

text \<open>
  C24: a node that is alone and cannot reach itself does not survive its own sweep. When it knows only
  itself, alive at its present identity, one failed exchange with its own control address and one sweep after the
  deadline empty the table; the next tick of the ping task panics on the empty range, where the sources
  mean to bootstrap again, and the shutdown that follows panics too instead of returning.
\<close>
theorem lone_node_panics_at_shutdown:
  assumes "join_all_ok tj" and "rng_ok rng"
    and only: "\<And>k. member_of (membership_cell s) k = (if k = node_id (current_node s) then Some c else None)"
    and inc: "info c = current_node s" and alive: "status c = Alive"
    and late: "heartbeat c + DEFAULT_MEMBER_DEADLINE < clock (node_id (current_node s))"
    and fits: "heartbeat c + DEFAULT_MEMBER_DEADLINE \<le> ext_ts_max ext"
  shows "\<exists>s' ts'. (tasks_step ext)\<^sup>*\<^sup>* (s, fs, False, \<lambda>_. Waiting) (s', fs, True, ts') \<and>
    bt_is_empty (members (membership_cell s')) \<and> ts' PingTask = Panicked EmptyRange \<and>
    (\<forall>k. k \<noteq> PingTask \<longrightarrow> ts' k = Stopped) \<and>
    shutdown_result tj (Joined (Ok ())) (Joined (Ok ())) ts' = Some (Err EmptyRange)"
proof -
  let ?w = "\<lambda>_. Waiting" and ?n = "current_node s" and ?p = "\<lambda>x. (\<lambda>_. Waiting)(PingTask := x)"
  have w: "(\<lambda>_. Waiting)(k := Waiting) = (\<lambda>_. Waiting)" for k :: gossip_task by auto
  have 1: "tasks_step ext (s, fs, False, ?w) (s, fs, False, ?p (Exchanging ?n))"
    using tasks_step.choose [of PingTask ?w rng ext s fs False] assms(2) choose_only_member [OF assms(2) only alive] inc by simp
  have only': "member_of (membership_cell s) k \<noteq> None \<Longrightarrow> k = node_id ?n"
      and self: "member_of (membership_cell s) (node_id ?n) = Some c" for k
    using only by (simp_all split: if_splits)
  obtain s1 where s1: "ping_done ext 0 ?n (Err (GossipError [])) s fs = (s1, fs, Ok ())"
      "bt_is_empty (members (membership_cell (fst (remove_dead_members ext clock s1))))"
    using lone_node_empties_its_table [of s c clock ext 0 "GossipError []" fs, OF only' self inc late fits] by blast
  have 2: "tasks_step ext (s, fs, False, ?p (Exchanging ?n)) (s1, fs, False, ?w)"
    using tasks_step.ping_end [of "?p (Exchanging ?n)" ?n ext 0 _ s fs s1 fs "Ok ()" False] s1(1) by (simp add: w)
  have "member_of (membership_cell s1) (node_id ?n) \<noteq> None"
    using s1(1) only by (auto simp: ping_done_def mark_dead_def member_of_merge)
  then obtain s2 where s2: "remove_dead_tick ext clock 0 s1 = (s2, Ok ())" "bt_is_empty (members (membership_cell s2))"
    using sweep_to_empty [OF s1(2)] by (auto simp: bt_is_empty_iff)
  have 3: "tasks_step ext (s1, fs, False, ?w) (s2, fs, False, ?w)"
    using tasks_step.sweep [of ?w ext clock 0 s1 s2 "Ok ()" fs False] s2(1) by (simp add: w)
  have 4: "tasks_step ext (s2, fs, False, ?w) (s2, fs, False, ?p (Panicked EmptyRange))"
    using tasks_step.choose [of PingTask ?w rng ext s2 fs False] assms(2) choose_none [OF assms(2) s2(2)] by simp
  have 5: "tasks_step ext (s2, fs, False, ?p (Panicked EmptyRange)) (s2, fs, True, ?p (Panicked EmptyRange))"
    by (rule tasks_step.signal)
  let ?t = "halted \<circ> ?p (Panicked EmptyRange)"
  have run: "(tasks_step ext)\<^sup>*\<^sup>* (s, fs, False, ?w) (s2, fs, True, ?t)"
    using 1 2 3 4 5 stop_all [of ext s2 fs "?p (Panicked EmptyRange)"] by (meson converse_rtranclp_into_rtranclp)
  have ended: "?t k = (if k = PingTask then Panicked EmptyRange else Stopped)" for k by (simp add: halted_def)
  let ?rs = "Ok (Ok ()) # Err EmptyRange # replicate 3 (Ok (Ok ()))"
  have "tj ?rs = Err EmptyRange"
    using assms(1) [unfolded join_all_ok_def, rule_format, of ?rs] by (auto split: if_splits)
  then have "shutdown_result tj (Joined (Ok ())) (Joined (Ok ())) ?t = Some (Err EmptyRange)"
    by (subst shutdown_result_ended) (simp_all add: ended all_tasks_def join_parts_def Let_def eval_nat_numeral)
  with run s2(2) ended show ?thesis by (intro exI [of _ s2] exI [of _ ?t]) simp
qed

theorem lone_node_panics_at_shutdown_witness:
  "\<exists>s' ts'. (tasks_step demo_ext)\<^sup>*\<^sup>* (demo_state [alive_now 5 (demo_node 1 0)], demo_fs, False, \<lambda>_. Waiting) (s', demo_fs, True, ts') \<and>
    bt_is_empty (members (membership_cell s')) \<and> ts' PingTask = Panicked EmptyRange \<and>
    (\<forall>k. k \<noteq> PingTask \<longrightarrow> ts' k = Stopped) \<and>
    shutdown_result demo_join_all (Joined (Ok ())) (Joined (Ok ())) ts' = Some (Err EmptyRange)"
  by (rule lone_node_panics_at_shutdown [OF demo_join_all_ok, of "\<lambda>n. if n = 0 then Inl EmptyRange else Inr 0" _
        "alive_now 5 (demo_node 1 0)" "\<lambda>_. seconds 60"])
    (simp_all add: rng_ok_def DEFAULT_MEMBER_DEADLINE_def demo_ts_max)

end
