(* ===== verification/Workers.thy ===== *)
theory Workers
  imports GossipSteps
begin

text \<open>
  The gossip state under several worker threads (\<open>crates/gossip/src/gossip.rs\<close>, \<open>cmd/percas/src/start.rs\<close>).
  An \<open>ArcSwap\<close> cell is loaded and stored atomically, but the operations of \<open>GossipState\<close> load a cell, work
  on a copy and store it back, and nothing keeps another thread from storing in between. Here an
  operation is a \<open>job\<close> that performs one access to a cell or to \<open>node.json\<close> per step, and the jobs of
  several threads interleave. \<open>start.rs\<close> gives the gossip a runtime with one worker thread, which runs its
  tasks and the control server; \<open>start\<close> itself runs on another thread. The theory shows what the one
  worker is good for, what holds with any number of them, and what the thread of \<open>start\<close> can break.
\<close>

section \<open>Jobs\<close>

text \<open>The operations that touch the cells, as the tasks, the control server and \<open>start\<close> call them.\<close>

datatype ('id, 'url) gossip_op =
    HandleMessage "('id, 'url) gossip_message"
  | MarkDead "('id, 'url) node_info"
  | RebuildRing
  | RemoveDeadMembers
  | ResetMembership

text \<open>
  Where a thread stands: each constructor but \<open>Done\<close> names the access that has just been made and holds
  the local variables that are still needed.
\<close>

datatype ('id, 'url) job =
    Done "panic + ('id, 'url) gossip_message option"
  | MessageLoaded "('id, 'url) gossip_message" "('id, 'url) membership"
  | PingStored
  | SyncMerged "('id, 'url) membership"
  | Answered "('id, 'url) gossip_message option"
  | Checking "('id, 'url) gossip_message option" "('id, 'url) membership"
  | Advancing "('id, 'url) gossip_message option"
  | Advanced "('id, 'url) gossip_message option" "('id, 'url) node_info"
  | Persisted "('id, 'url) gossip_message option" "('id, 'url) node_info"
  | MarkLoaded "('id, 'url) node_info" "('id, 'url) membership"
  | RebuildLoaded "('id, 'url) membership"
  | RingBuilt "'id hash_ring"
  | SweepLoaded "('id, 'url) membership"
  | ResetLoaded "('id, 'url) node_info"

fun resting :: "('id, 'url) job \<Rightarrow> bool" where
  "resting (Done r) = True"
| "resting _ = False"

text \<open>The first access of an operation: \<open>self.membership.load()\<close>, or \<open>self.current()\<close> in \<open>start\<close>.\<close>

fun job_begin :: "('id, 'url) gossip_op \<Rightarrow> ('id, 'url) gossip_state \<Rightarrow> ('id, 'url) job" where
  "job_begin (HandleMessage msg) s = MessageLoaded msg (membership_cell s)"
| "job_begin (MarkDead peer) s = MarkLoaded peer (membership_cell s)"
| "job_begin RebuildRing s = RebuildLoaded (membership_cell s)"
| "job_begin RemoveDeadMembers s = SweepLoaded (membership_cell s)"
| "job_begin ResetMembership s = ResetLoaded (current_node s)"

text \<open>The table that \<open>mark_dead\<close> stores, from the one it has loaded.\<close>

definition mark_dead_table ::
  "('id, 'url) node_info \<Rightarrow> ('id::linorder, 'url) membership \<Rightarrow> ('id, 'url) membership" where
  "mark_dead_table peer m =
     (case member_of m (node_id peer) of
        None \<Rightarrow> m
      | Some c \<Rightarrow> merge_member \<lparr>info = peer, status = Dead, heartbeat = heartbeat c\<rparr> m)"

text \<open>
  One more access. The clock is read by \<open>now\<close>, and by \<open>clock\<close> once per member in the sweep. A panic ends
  the job; the cells stay as they are.
\<close>

fun job_step ::
  "('id, 'url) gossip_ext \<Rightarrow> timestamp \<Rightarrow> ('id \<Rightarrow> timestamp) \<Rightarrow> ('id::linorder, 'url) job \<Rightarrow>
   ('id, 'url) gossip_state \<Rightarrow> file_system \<Rightarrow> ('id, 'url) job \<times> ('id, 'url) gossip_state \<times> file_system" where
  "job_step ext now clock (Done r) s fs = (Done r, s, fs)"
| "job_step ext now clock (MessageLoaded (Ping i) m) s fs =
     (PingStored, s\<lparr>membership_cell := merge_member (alive_now now i) m\<rparr>, fs)"
| "job_step ext now clock (MessageLoaded (Ack i) m) s fs =
     (Answered None, s\<lparr>membership_cell := merge_member (alive_now now i) m\<rparr>, fs)"
| "job_step ext now clock (MessageLoaded (Sync ms) m) s fs =
     (SyncMerged (merge_member (alive_now now (current_node s)) (fold merge_member ms m)), s, fs)"
| "job_step ext now clock (SyncMerged m) s fs =
     (Answered (Some (Sync (bt_values (members m)))), s\<lparr>membership_cell := m\<rparr>, fs)"
| "job_step ext now clock PingStored s fs = (Answered (Some (Ack (current_node s))), s, fs)"
| "job_step ext now clock (Answered r) s fs = (Checking r (membership_cell s), s, fs)"
| "job_step ext now clock (Checking r m) s fs =
     (if is_dead m (node_id (current_node s)) then Advancing r else Done (Ok r), s, fs)"
| "job_step ext now clock (Advancing r) s fs =
     (Advanced r (node_advance_incarnation (current_node s)), s, fs)"
| "job_step ext now clock (Advanced r n) s fs =
     (case node_persist (ext_codec ext) fs (node_file_path (dir s)) n of
        Inl p \<Rightarrow> (Done (Err p), s, fs)
      | Inr fs' \<Rightarrow> (Persisted r n, s, fs'))"
| "job_step ext now clock (Persisted r n) s fs = (Done (Ok r), s\<lparr>current_node := n\<rparr>, fs)"
| "job_step ext now clock (MarkLoaded peer m) s fs =
     (Done (Ok None), s\<lparr>membership_cell := mark_dead_table peer m\<rparr>, fs)"
| "job_step ext now clock (RebuildLoaded m) s fs =
     (RingBuilt (ring_from (ext_mur3 ext) (ext_as_ref ext)
        (bt_keys (members (merge_member (alive_now now (current_node s)) m)))), s, fs)"
| "job_step ext now clock (RingBuilt r) s fs = (Done (Ok None), s\<lparr>ring_cell := r\<rparr>, fs)"
| "job_step ext now clock (SweepLoaded m) s fs =
     (case collect_dead (ext_ts_max ext) clock (bt_entries (members m)) of
        Inl p \<Rightarrow> (Done (Err p), s, fs)
      | Inr ds \<Rightarrow>
          (Done (Ok None), s\<lparr>membership_cell := fold (\<lambda>d. remove_member (node_id d)) ds m\<rparr>, fs))"
| "job_step ext now clock (ResetLoaded n) s fs =
     (Done (Ok None), s\<lparr>membership_cell := membership_from_iter [alive_now now n]\<rparr>, fs)"

text \<open>
  Threads by number. A thread at rest may begin an operation it is allowed to perform, and any thread
  with a job may make its next access. A worker runs one job at a time: none of them awaits anything.
\<close>

type_synonym ('id, 'url) workers =
  "('id, 'url) gossip_state \<times> file_system \<times> ('id, 'url) job list"

inductive workers_step ::
  "('id, 'url) gossip_ext \<Rightarrow> (nat \<Rightarrow> ('id, 'url) gossip_op \<Rightarrow> bool) \<Rightarrow> ('id::linorder, 'url) workers \<Rightarrow>
   ('id, 'url) workers \<Rightarrow> bool" for ext may where
  begins: "k < length js \<Longrightarrow> resting (js ! k) \<Longrightarrow> may k a \<Longrightarrow>
    workers_step ext may (s, fs, js) (s, fs, js[k := job_begin a s])"
| proceeds: "k < length js \<Longrightarrow> \<not> resting (js ! k) \<Longrightarrow> job_step ext now clock (js ! k) s fs = (j, s', fs') \<Longrightarrow>
    workers_step ext may (s, fs, js) (s', fs', js[k := j])"

inductive_cases workers_stepE: "workers_step ext may (s, fs, js) c"

abbreviation any_op :: "nat \<Rightarrow> ('id, 'url) gossip_op \<Rightarrow> bool" where
  "any_op k a \<equiv> True"

lemma mark_dead_table_eq: "mark_dead peer s = s\<lparr>membership_cell := mark_dead_table peer (membership_cell s)\<rparr>"
  by (simp add: mark_dead_def mark_dead_table_def split: option.split)

lemma mark_dead_table_wf: "membership_wf m \<Longrightarrow> membership_wf (mark_dead_table peer m)"
  by (simp add: mark_dead_table_def membership_wf_merge split: option.split)

lemma resting_iff: "resting j \<longleftrightarrow> (\<exists>r. j = Done r)"
  by (cases j) simp_all

section \<open>One worker\<close>

text \<open>
  How far a job has come since the state \<open>(s0, fs0)\<close> in which its operation began, when no other thread
  has touched the cells: the local variables are what the cells hold, and what has been stored is what
  the operation has stored by then.
\<close>

fun underway ::
  "('id, 'url) gossip_ext \<Rightarrow> ('id::linorder, 'url) job \<Rightarrow> ('id, 'url) gossip_state \<times> file_system \<Rightarrow>
   ('id, 'url) gossip_state \<times> file_system \<Rightarrow> bool" where
  "underway ext (Done r) c c0 \<longleftrightarrow> c = c0"
| "underway ext (MessageLoaded msg m) c c0 \<longleftrightarrow> c = c0 \<and> m = membership_cell (fst c)"
| "underway ext (SyncMerged m) c c0 \<longleftrightarrow> c = c0 \<and>
     (\<exists>now ms. m = fold merge_member (reports now (current_node (fst c)) (Sync ms)) (membership_cell (fst c)))"
| "underway ext PingStored c c0 \<longleftrightarrow> snd c = snd c0 \<and>
     (\<exists>now i. fst c = fst (apply_message now (fst c0) (Ping i)))"
| "underway ext (Answered r) c c0 \<longleftrightarrow> snd c = snd c0 \<and> (\<exists>now msg. apply_message now (fst c0) msg = (fst c, r))"
| "underway ext (Checking r m) c c0 \<longleftrightarrow> snd c = snd c0 \<and> m = membership_cell (fst c) \<and>
     (\<exists>now msg. apply_message now (fst c0) msg = (fst c, r))"
| "underway ext (Advancing r) c c0 \<longleftrightarrow> snd c = snd c0 \<and>
     is_dead (membership_cell (fst c)) (node_id (current_node (fst c))) \<and>
     (\<exists>now msg. apply_message now (fst c0) msg = (fst c, r))"
| "underway ext (Advanced r n) c c0 \<longleftrightarrow> snd c = snd c0 \<and>
     is_dead (membership_cell (fst c)) (node_id (current_node (fst c))) \<and>
     n = node_advance_incarnation (current_node (fst c)) \<and>
     (\<exists>now msg. apply_message now (fst c0) msg = (fst c, r))"
| "underway ext (Persisted r n) c c0 \<longleftrightarrow>
     is_dead (membership_cell (fst c)) (node_id (current_node (fst c))) \<and>
     n = node_advance_incarnation (current_node (fst c)) \<and>
     node_persist (ext_codec ext) (snd c0) (node_file_path (dir (fst c))) n = Inr (snd c) \<and>
     (\<exists>now msg. apply_message now (fst c0) msg = (fst c, r))"
| "underway ext (MarkLoaded peer m) c c0 \<longleftrightarrow> c = c0 \<and> m = membership_cell (fst c)"
| "underway ext (RebuildLoaded m) c c0 \<longleftrightarrow> c = c0 \<and> m = membership_cell (fst c)"
| "underway ext (RingBuilt r) c c0 \<longleftrightarrow> c = c0 \<and> (\<exists>now. r = ring_cell (rebuild_ring ext now (fst c)))"
| "underway ext (SweepLoaded m) c c0 \<longleftrightarrow> c = c0 \<and> m = membership_cell (fst c)"
| "underway ext (ResetLoaded n) c c0 \<longleftrightarrow> c = c0 \<and> n = current_node (fst c)"

lemma job_begin_underway: "underway ext (job_begin a s) (s, fs) (s, fs)"
  by (cases a) simp_all

text \<open>The last access of a job completes one step of the coarse relation; the others leave it alone.\<close>

lemma handle_message_apply:
  assumes "apply_message now s0 msg = (s, r)"
  shows "handle_message ext now s0 fs0 msg =
    (if is_dead (membership_cell s) (node_id (current_node s)) then
       (case node_persist (ext_codec ext) fs0 (node_file_path (dir s)) (node_advance_incarnation (current_node s)) of
          Inl p \<Rightarrow> (s, fs0, Err p)
        | Inr fs' \<Rightarrow> (s\<lparr>current_node := node_advance_incarnation (current_node s)\<rparr>, fs', Ok r))
     else (s, fs0, Ok r))"
  using assms by (simp add: handle_message_def advance_incarnation_def Let_def split: sum.split)

lemma underway_answered: "apply_message t s0 msg = (s, r) \<Longrightarrow> underway ext (Answered r) (s, fs) (s0, fs)"
  by auto

lemma job_step_underway:
  assumes "underway ext j (s, fs) (s0, fs0)" and "job_step ext now clock j s fs = (j', s', fs')"
  shows "underway ext j' (s', fs') (s0, fs0) \<or> resting j' \<and> gossip_step ext (s0, fs0) (s', fs')"
proof (cases j)
  case (MessageLoaded msg m)
  have "underway ext j' (s', fs') (s0, fs0)"
  proof (cases msg)
    case (Ack i)
    with assms MessageLoaded have same: "fs' = fs0" "j' = Answered None"
        "s' = s0\<lparr>membership_cell := merge_member (alive_now now i) (membership_cell s0)\<rparr>" by auto
    then have "apply_message now s0 (Ack i) = (s', None)" by simp
    from underway_answered [OF this] same show ?thesis by metis
  next
    case (Sync ms)
    with assms MessageLoaded show ?thesis by auto metis
  qed (use assms MessageLoaded in auto)
  then show ?thesis ..
next
  case (SyncMerged m)
  with assms obtain t ms where m: "m = fold merge_member (reports t (current_node s0) (Sync ms)) (membership_cell s0)"
      and same: "s = s0" "fs' = fs0" "j' = Answered (Some (Sync (bt_values (members m))))"
        "s' = s0\<lparr>membership_cell := m\<rparr>"
    by auto
  have "apply_message t s0 (Sync ms) = (s0\<lparr>membership_cell := m\<rparr>, Some (Sync (bt_values (members m))))"
    unfolding m by (simp only: apply_message_eq Let_def reply_to.simps)
  from underway_answered [OF this] same show ?thesis by metis
next
  case PingStored
  with assms obtain t i where s: "s = fst (apply_message t s0 (Ping i))" "fs' = fs0" "s' = s"
      "j' = Answered (Some (Ack (current_node s)))"
    by auto
  then have "apply_message t s0 (Ping i) = (s, Some (Ack (current_node s)))" by simp
  from underway_answered [OF this] s show ?thesis by metis
next
  case (Checking r m)
  then obtain t msg where a: "apply_message t s0 msg = (s, r)" using assms(1) by auto
  show ?thesis
  proof (cases "is_dead m (node_id (current_node s))")
    case True
    with Checking assms show ?thesis by auto
  next
    case False
    with Checking assms have "handle_message ext t s0 fs0 msg = (s', fs', Ok r)" "resting j'"
      by (auto simp: handle_message_apply [OF a])
    then show ?thesis using gossip_step.receive by blast
  qed
next
  case (Advanced r n)
  then obtain t msg where a: "apply_message t s0 msg = (s, r)" using assms(1) by auto
  with Advanced assms show ?thesis
    using gossip_step.receive [of ext t s0 fs0 msg] by (auto simp: handle_message_apply [OF a] split: sum.splits)
next
  case (Persisted r n)
  then obtain t msg where a: "apply_message t s0 msg = (s, r)" using assms(1) by auto
  with Persisted assms show ?thesis
    using gossip_step.receive [of ext t s0 fs0 msg] by (auto simp: handle_message_apply [OF a])
next
  case (MarkLoaded peer m)
  then show ?thesis
    using assms gossip_step.ping_end [of ext now peer "Inl (GossipError [])" s fs "mark_dead peer s" fs "Ok ()"]
    by (auto simp: mark_dead_table_eq ping_done_def)
next
  case (RingBuilt r)
  then obtain t where "s' = rebuild_ring ext t s" using assms by (auto simp: rebuild_ring_def Let_def)
  with RingBuilt assms gossip_step.rebuild [of ext s fs t] show ?thesis by auto
next
  case (SweepLoaded m)
  then obtain r where "remove_dead_members ext clock s = (s', r)"
    using assms by (auto simp: remove_dead_members_def split: sum.splits)
  with SweepLoaded assms gossip_step.sweep [of ext clock s s' r] show ?thesis by (auto split: sum.splits)
qed (use assms gossip_step.reset [of ext s fs now] in \<open>auto simp: rebuild_ring_def Let_def\<close>)

lemma worker_underway:
  assumes "(workers_step ext may)\<^sup>*\<^sup>* (s0, fs0, [Done r0]) c"
  shows "\<exists>s fs j c0. c = (s, fs, [j]) \<and> (gossip_step ext)\<^sup>*\<^sup>* (s0, fs0) c0 \<and> underway ext j (s, fs) c0"
  using assms
proof (induction rule: rtranclp_induct)
  case base
  then show ?case by auto
next
  case (step c d)
  then obtain s fs j s1 fs1 where c: "c = (s, fs, [j])" "(gossip_step ext)\<^sup>*\<^sup>* (s0, fs0) (s1, fs1)"
      "underway ext j (s, fs) (s1, fs1)" by auto
  from step.hyps(2) show ?case
  proof cases
    case (begins k js a s fs)
    with c job_begin_underway [of ext a s fs] show ?thesis by (fastforce simp: resting_iff)
  next
    case (proceeds k js now clock s fs j s' fs')
    with c job_step_underway [of ext _ s fs s1 fs1 now clock j s' fs'] show ?thesis
      by (fastforce simp: resting_iff intro: rtranclp.rtrancl_into_rtrancl)
  qed
qed

section \<open>Any number of workers\<close>

definition own_ring :: "'id \<Rightarrow> ('id::linorder) hash_ring \<Rightarrow> bool" where
  "own_ring i r \<longleftrightarrow> ring_wf r \<and> vnodes r = DEFAULT_VNODE_COUNT \<and>
     (ring_points r = {} \<or> i \<in> snd ` ring_points r)"

text \<open>What the local variables of a job are worth, whatever other threads do.\<close>

fun job_ok :: "'id \<Rightarrow> ('id::linorder, 'url) job \<Rightarrow> bool" where
  "job_ok i (MessageLoaded msg m) \<longleftrightarrow> membership_wf m"
| "job_ok i (SyncMerged m) \<longleftrightarrow> membership_wf m"
| "job_ok i (Advanced r n) \<longleftrightarrow> node_id n = i"
| "job_ok i (Persisted r n) \<longleftrightarrow> node_id n = i"
| "job_ok i (MarkLoaded peer m) \<longleftrightarrow> membership_wf m"
| "job_ok i (RebuildLoaded m) \<longleftrightarrow> membership_wf m"
| "job_ok i (RingBuilt r) \<longleftrightarrow> own_ring i r"
| "job_ok i (SweepLoaded m) \<longleftrightarrow> membership_wf m"
| "job_ok i (ResetLoaded n) \<longleftrightarrow> node_id n = i"
| "job_ok i _ \<longleftrightarrow> True"

definition file_of_node :: "'id node_codec \<Rightarrow> file_system \<Rightarrow> string \<Rightarrow> 'id \<Rightarrow> bool" where
  "file_of_node codec fs path i \<longleftrightarrow> (\<exists>p. Option.bind (files fs path) (from_str codec) = Some p \<and> p_node_id p = i)"

definition workers_inv :: "('id, 'url) gossip_ext \<Rightarrow> 'id \<Rightarrow> ('id::linorder, 'url) workers \<Rightarrow> bool" where
  "workers_inv ext i c = (case c of (s, fs, js) \<Rightarrow>
     codec_ok (ext_codec ext) \<and> membership_wf (membership_cell s) \<and> own_ring i (ring_cell s) \<and>
     node_id (current_node s) = i \<and> file_of_node (ext_codec ext) fs (node_file_path (dir s)) i \<and>
     list_all (job_ok i) js)"

definition workers_booting :: "('id, 'url) gossip_ext \<Rightarrow> 'id \<Rightarrow> ('id::linorder, 'url) workers \<Rightarrow> bool" where
  "workers_booting ext i c = (case c of (s, fs, js) \<Rightarrow> gossip_booting ext i (s, fs) \<and> list_all resting js)"

lemma own_ring_rebuilt:
  "own_ring (node_id n) (ring_from mur3 as_ref (bt_keys (members (merge_member (alive_now now n) m))))"
  by (auto simp: own_ring_def ring_from_points set_bt_keys member_of_merge image_UN nodes_of_node_points
      DEFAULT_VNODE_COUNT_def)

lemma file_of_node_persist:
  "node_persist codec fs path n = Inr fs' \<Longrightarrow> codec_ok codec \<Longrightarrow> node_id n = i \<Longrightarrow> file_of_node codec fs' path i"
  by (auto dest: node_persist_holds simp: file_of_node_def node_file_holds_def persistent_from_def)

lemma job_begin_ok:
  "membership_wf (membership_cell s) \<Longrightarrow> job_ok (node_id (current_node s)) (job_begin a s)"
  by (cases a) simp_all

lemma job_step_ok:
  assumes "job_step ext now clock j s fs = (j', s', fs')" and "workers_inv ext i (s, fs, [j])"
  shows "workers_inv ext i (s', fs', [j'])"
proof (cases j)
  case (MessageLoaded msg m)
  with assms show ?thesis
    by (cases msg) (auto simp: workers_inv_def membership_wf_merge membership_wf_fold_merge)
next
  case (SweepLoaded m)
  with assms show ?thesis
    by (auto simp: workers_inv_def membership_wf_fold_remove split: sum.splits)
next
  case (Advanced r n)
  with assms show ?thesis
    by (auto simp: workers_inv_def intro: file_of_node_persist split: sum.splits)
next
  case (RebuildLoaded m)
  with assms show ?thesis by (auto simp: workers_inv_def own_ring_rebuilt)
qed (use assms in \<open>auto simp: workers_inv_def mark_dead_table_wf membership_from_iter_def
    membership_wf_merge split: if_splits\<close>)

lemma workers_step_inv: "workers_step ext may c d \<Longrightarrow> workers_inv ext i c \<Longrightarrow> workers_inv ext i d"
proof (induction rule: workers_step.induct)
  case (begins k js a s fs)
  then show ?case
    using job_begin_ok [of s a] by (auto simp: workers_inv_def list_all_iff dest!: set_update_subset_insert [THEN subsetD])
next
  case (proceeds k js now clock s fs j s' fs')
  then have "workers_inv ext i (s, fs, [js ! k])" by (auto simp: workers_inv_def list_all_length)
  then have "workers_inv ext i (s', fs', [j])" using proceeds.hyps job_step_ok by blast
  with proceeds show ?case
    by (auto simp: workers_inv_def list_all_iff dest!: set_update_subset_insert [THEN subsetD])
qed

lemma workers_booting_inv: "workers_booting ext i c \<Longrightarrow> workers_inv ext i c"
proof -
  assume "workers_booting ext i c"
  then obtain s fs js where c: "c = (s, fs, js)" "gossip_booting ext i (s, fs)" "list_all resting js"
    by (auto simp: workers_booting_def)
  then have "gossip_inv ext i (s, fs)" by (intro gossip_booting_inv)
  moreover have "list_all (job_ok i) js" using c(3) by (auto simp: list_all_iff resting_iff)
  ultimately show ?thesis
    using c(1) by (auto simp: workers_inv_def gossip_inv_def own_ring_def file_of_node_def node_file_holds_def
        persistent_from_def)
qed

interpretation workers: invariant_system "workers_booting ext i" "workers_step ext may" "workers_inv ext i"
  for ext :: "('id::linorder, 'url) gossip_ext" and may and i :: 'id
  by unfold_locales (auto intro: workers_booting_inv workers_step_inv)

section \<open>Schedules\<close>

text \<open>An interleaving written down: which thread begins what, and which thread makes its next access when.\<close>

datatype ('id, 'url) choice = Begin nat "('id, 'url) gossip_op" | Proceed nat timestamp

fun run_choice ::
  "('id, 'url) gossip_ext \<Rightarrow> ('id, 'url) choice \<Rightarrow> ('id::linorder, 'url) workers \<Rightarrow> ('id, 'url) workers option" where
  "run_choice ext (Begin k a) (s, fs, js) =
     (if k < length js \<and> resting (js ! k) then Some (s, fs, js[k := job_begin a s]) else None)"
| "run_choice ext (Proceed k now) (s, fs, js) =
     (if k < length js \<and> \<not> resting (js ! k)
      then (case job_step ext now (\<lambda>_. now) (js ! k) s fs of (j, s', fs') \<Rightarrow> Some (s', fs', js[k := j]))
      else None)"

fun run_schedule ::
  "('id, 'url) gossip_ext \<Rightarrow> ('id, 'url) choice list \<Rightarrow> ('id::linorder, 'url) workers \<Rightarrow> ('id, 'url) workers option" where
  "run_schedule ext [] c = Some c"
| "run_schedule ext (x # xs) c = Option.bind (run_choice ext x c) (run_schedule ext xs)"

fun permitted :: "(nat \<Rightarrow> ('id, 'url) gossip_op \<Rightarrow> bool) \<Rightarrow> ('id, 'url) choice \<Rightarrow> bool" where
  "permitted may (Begin k a) = may k a"
| "permitted may (Proceed k now) = True"

lemma run_choice_step: "run_choice ext x c = Some d \<Longrightarrow> permitted may x \<Longrightarrow> workers_step ext may c d"
  by (cases "(ext, x, c)" rule: run_choice.cases)
    (auto split: if_splits prod.splits intro: workers_step.intros)

lemma run_schedule_steps:
  "run_schedule ext xs c = Some d \<Longrightarrow> list_all (permitted may) xs \<Longrightarrow> (workers_step ext may)\<^sup>*\<^sup>* c d"
proof (induction xs arbitrary: c)
  case (Cons x xs)
  then obtain c1 where "run_choice ext x c = Some c1" "run_schedule ext xs c1 = Some d"
    by (auto simp: bind_eq_Some_conv)
  with Cons.IH [of c1] Cons.prems(2) run_choice_step [of ext x c c1 may] show ?case
    by (simp add: converse_rtranclp_into_rtranclp)
qed simp

lemma any_op_permitted: "list_all (permitted any_op) xs"
proof (induction xs)
  case (Cons x xs)
  then show ?case by (cases x) simp_all
qed simp

lemmas run_any = run_schedule_steps [OF _ any_op_permitted]

section \<open>The thread of \<open>start\<close>\<close>

text \<open>Before the tasks are spawned: messages to the control server, the bootstrap, and the reset by \<open>start\<close>.\<close>

fun boot_op :: "nat \<Rightarrow> ('id, 'url) gossip_op \<Rightarrow> bool" where
  "boot_op k (HandleMessage msg) = True"
| "boot_op k RebuildRing = True"
| "boot_op k ResetMembership = True"
| "boot_op k _ = False"

text \<open>The control server of the one worker against the reset of \<open>start\<close>.\<close>

definition starting_op :: "nat \<Rightarrow> ('id, 'url) gossip_op \<Rightarrow> bool" where
  "starting_op k a \<longleftrightarrow> (if k = 0 then \<exists>msg. a = HandleMessage msg else a = ResetMembership)"

definition populated :: "('id::linorder, 'url) membership \<Rightarrow> bool" where
  "populated m \<longleftrightarrow> (\<exists>k. member_of m k \<noteq> None)"

fun boot_job :: "('id::linorder, 'url) job \<Rightarrow> bool" where
  "boot_job (SyncMerged m) \<longleftrightarrow> populated m"
| "boot_job (MarkLoaded peer m) \<longleftrightarrow> False"
| "boot_job (SweepLoaded m) \<longleftrightarrow> False"
| "boot_job _ \<longleftrightarrow> True"

lemma populated_merge [simp]: "populated (merge_member x m)"
  by (auto simp: populated_def member_of_merge)

lemma populated_iff: "populated m \<longleftrightarrow> \<not> bt_is_empty (members m)"
  by (auto simp: populated_def bt_is_empty_iff)

lemma boot_job_step:
  assumes "job_step ext now clock j s fs = (j', s', fs')" "boot_job j"
  shows "boot_job j'" "populated (membership_cell s) \<Longrightarrow> populated (membership_cell s')"
  using assms
  by (cases "(ext, now, clock, j, s, fs)" rule: job_step.cases;
      auto simp: membership_from_iter_def split: sum.splits if_splits)+

lemma boot_step:
  assumes "workers_step ext boot_op (s, fs, js) (s', fs', js')" "list_all boot_job js"
  shows "list_all boot_job js' \<and> (populated (membership_cell s) \<longrightarrow> populated (membership_cell s'))"
  using assms(1)
proof cases
  case (begins k a)
  moreover have "boot_job (job_begin a s)" using begins by (cases a) auto
  ultimately show ?thesis
    using assms(2) by (auto simp: list_all_iff dest!: set_update_subset_insert [THEN subsetD])
next
  case (proceeds k now clock j)
  have "boot_job (js ! k)" using assms(2) proceeds(2) by (auto simp: list_all_length)
  with boot_job_step [OF proceeds(4)] proceeds(1) assms(2) show ?thesis
    by (auto simp: list_all_iff dest!: set_update_subset_insert [THEN subsetD])
qed

lemma boot_run:
  assumes "(workers_step ext boot_op)\<^sup>*\<^sup>* (s, fs, js) c" "list_all boot_job js"
  shows "list_all boot_job (snd (snd c)) \<and> (populated (membership_cell s) \<longrightarrow> populated (membership_cell (fst c)))"
  using assms
proof (induction rule: rtranclp_induct)
  case (step c d)
  then show ?case using boot_step [of ext "fst c" "fst (snd c)" "snd (snd c)" "fst d" "fst (snd d)" "snd (snd d)"] by simp
qed simp

section \<open>Properties\<close>

text \<open>
  C9: one worker makes the operations atomic. Whatever operations a single worker thread interrupts and
  resumes at their accesses to the cells and the file, the state it leaves when it is at rest is one the
  step relation with atomic operations reaches. This is the reason why the results on atomic operations
  hold of the program, which runs the gossip tasks and the control server on a runtime with one worker.
\<close>
theorem one_worker_is_atomic:
  assumes "(workers_step ext any_op)\<^sup>*\<^sup>* (s0, fs0, [Done r0]) (s, fs, [Done r])"
  shows "(gossip_step ext)\<^sup>*\<^sup>* (s0, fs0) (s, fs)"
  using worker_underway [OF assms] by auto

theorem one_worker_is_atomic_witness:
  "\<exists>s fs r. (workers_step demo_ext any_op)\<^sup>*\<^sup>* (demo_state [], demo_fs, [Done (Ok None)]) (s, fs, [Done r]) \<and>
    member_of (membership_cell s) 2 \<noteq> None \<and> (gossip_step demo_ext)\<^sup>*\<^sup>* (demo_state [], demo_fs) (s, fs)"
proof -
  let ?s = "(demo_state [])\<lparr>membership_cell := merge_member (alive_now 5 (demo_node 2 0)) (membership_from_iter [])\<rparr>"
  let ?r = "Ok (Some (Ack (demo_node 1 0)))"
  have "run_schedule demo_ext [Begin 0 (HandleMessage (Ping (demo_node 2 0))), Proceed 0 5, Proceed 0 5, Proceed 0 6,
      Proceed 0 6] (demo_state [], demo_fs, [Done (Ok None)]) = Some (?s, demo_fs, [Done ?r])"
    by (simp add: is_dead_def member_of_merge membership_from_iter_def)
  then have run: "(workers_step demo_ext any_op)\<^sup>*\<^sup>* (demo_state [], demo_fs, [Done (Ok None)]) (?s, demo_fs, [Done ?r])"
    by (rule run_schedule_steps) simp
  show ?thesis
    by (rule exI [of _ ?s], rule exI [of _ demo_fs], rule exI [of _ ?r])
      (use run one_worker_is_atomic [OF run] in \<open>simp add: member_of_merge\<close>)
qed



text \<open>
  The error exit of \<open>start\<close> is out of reach also when the control server works in parallel. Let any
  number of threads handle messages, run the bootstrap and reset the table; from the moment the reset has
  been stored, the table is not empty, although each of these operations may store a copy it has loaded
  before.
\<close>
lemma start_survives_messages:
  assumes "(workers_step ext boot_op)\<^sup>*\<^sup>* (s0, fs0, replicate n (Done (Ok None))) (s1, fs1, js)"
    and "k < length js" and "js ! k = ResetLoaded node"
    and "job_step ext now clock (js ! k) s1 fs1 = (j, s2, fs2)"
    and "(workers_step ext boot_op)\<^sup>*\<^sup>* (s2, fs2, js[k := j]) (s, fs, js')"
  shows "\<not> bt_is_empty (members (membership_cell s))"
proof -
  have "list_all boot_job js" using boot_run [OF assms(1)] by (simp add: list_all_iff)
  moreover have "boot_job j" "populated (membership_cell s2)"
    using assms(3,4) by (auto simp: membership_from_iter_def)
  ultimately have "list_all boot_job (js[k := j])"
    by (auto simp: list_all_iff dest!: set_update_subset_insert [THEN subsetD])
  from boot_run [OF assms(5) this] \<open>populated (membership_cell s2)\<close> show ?thesis by (simp add: populated_iff)
qed

lemma start_survives_messages_witness:
  "\<exists>s fs js. (workers_step demo_ext boot_op)\<^sup>*\<^sup>* (demo_state [], demo_fs, replicate 2 (Done (Ok None))) (s, fs, js) \<and>
    js ! 0 = PingStored \<and> js ! 1 = Done (Ok None) \<and> \<not> bt_is_empty (members (membership_cell s))"
proof -
  let ?init = "demo_state []" and ?p = "demo_node 2 0"
  let ?js = "[MessageLoaded (Ping ?p) (membership_from_iter []), ResetLoaded (demo_node 1 0)]"
  let ?s2 = "?init\<lparr>membership_cell := membership_from_iter [alive_now 4 (demo_node 1 0)]\<rparr>"
  let ?s = "?init\<lparr>membership_cell := merge_member (alive_now 5 ?p) (membership_from_iter [])\<rparr>"
  have "run_schedule demo_ext [Begin 0 (HandleMessage (Ping ?p)), Begin 1 ResetMembership]
      (?init, demo_fs, replicate 2 (Done (Ok None))) = Some (?init, demo_fs, ?js)"
    by (simp add: numeral_2_eq_2)
  then have 1: "(workers_step demo_ext boot_op)\<^sup>*\<^sup>* (?init, demo_fs, replicate 2 (Done (Ok None))) (?init, demo_fs, ?js)"
    by (rule run_schedule_steps) simp
  have reset: "job_step demo_ext 4 (\<lambda>_. 4) (?js ! 1) ?init demo_fs = (Done (Ok None), ?s2, demo_fs)" by simp
  have "run_schedule demo_ext [Proceed 0 5] (?s2, demo_fs, ?js[1 := Done (Ok None)]) =
      Some (?s, demo_fs, [PingStored, Done (Ok None)])"
    by simp
  then have 2: "(workers_step demo_ext boot_op)\<^sup>*\<^sup>* (?s2, demo_fs, ?js[1 := Done (Ok None)]) (?s, demo_fs, [PingStored, Done (Ok None)])"
    by (rule run_schedule_steps) simp
  have "workers_step demo_ext boot_op (?init, demo_fs, ?js) (?s2, demo_fs, ?js[1 := Done (Ok None)])"
    using reset by (intro workers_step.proceeds) auto
  with 1 2 have "(workers_step demo_ext boot_op)\<^sup>*\<^sup>* (?init, demo_fs, replicate 2 (Done (Ok None)))
      (?s, demo_fs, [PingStored, Done (Ok None)])"
    by (meson rtranclp.rtrancl_into_rtrancl rtranclp_trans)
  moreover have "\<not> bt_is_empty (members (membership_cell ?s))"
    by (rule start_survives_messages [OF 1 _ _ reset 2]) simp_all
  ultimately show ?thesis
    by (intro exI [of _ ?s] exI [of _ demo_fs] exI [of _ "[PingStored, Done (Ok None)]"]) simp
qed

text \<open>
  C28: the reset of \<open>start\<close> can be lost. \<open>start\<close> runs on a thread of its own while the control server already
  answers on the gossip worker. In any state whose table does not list the node, a ping from any other
  node can be handled such that both operations complete, the ping is answered, and the table holds the
  peer but not the node itself, which the reset was to put there.
\<close>
theorem start_race_drops_node:
  fixes p :: "('id::linorder, 'url) node_info" and s0 :: "('id, 'url) gossip_state"
  assumes "member_of (membership_cell s0) (node_id (current_node s0)) = None"
    and "node_id p \<noteq> node_id (current_node s0)"
  shows "\<exists>s. (workers_step ext starting_op)\<^sup>*\<^sup>* (s0, fs0, [Done (Ok None), Done (Ok None)])
      (s, fs0, [Done (Ok (Some (Ack (current_node s0)))), Done (Ok None)]) \<and>
    member_of (membership_cell s) (node_id p) \<noteq> None \<and>
    member_of (membership_cell s) (node_id (current_node s)) = None"
proof -
  let ?s = "s0\<lparr>membership_cell := merge_member (alive_now 1 p) (membership_cell s0)\<rparr>"
  have "run_schedule ext [Begin 0 (HandleMessage (Ping p)), Begin 1 ResetMembership, Proceed 1 0, Proceed 0 1,
      Proceed 0 1, Proceed 0 1, Proceed 0 1] (s0, fs0, [Done (Ok None), Done (Ok None)]) =
      Some (?s, fs0, [Done (Ok (Some (Ack (current_node s0)))), Done (Ok None)])"
    using assms by (simp add: is_dead_def member_of_merge)
  then have "(workers_step ext starting_op)\<^sup>*\<^sup>* (s0, fs0, [Done (Ok None), Done (Ok None)])
      (?s, fs0, [Done (Ok (Some (Ack (current_node s0)))), Done (Ok None)])"
    by (rule run_schedule_steps) (simp add: starting_op_def)
  with assms show ?thesis by (intro exI [of _ ?s]) (simp add: member_of_merge)
qed

theorem start_race_drops_node_witness:
  "\<exists>s. (workers_step demo_ext starting_op)\<^sup>*\<^sup>* (demo_state [], demo_fs, [Done (Ok None), Done (Ok None)])
      (s, demo_fs, [Done (Ok (Some (Ack (demo_node 1 0)))), Done (Ok None)]) \<and>
    member_of (membership_cell s) 2 \<noteq> None \<and>
    member_of (membership_cell s) (node_id (current_node s)) = None"
  using start_race_drops_node [of "demo_state []" "demo_node 2 0" demo_ext demo_fs]
  by (simp add: membership_from_iter_def)

text \<open>
  With two workers updates are lost. In any state in which the node is not listed dead, two pings from
  different peers can be handled such that both are answered and the peer of the first, unknown before, is
  not in the table afterwards. One after the other the same two handlers leave both in the table.
\<close>
lemma two_workers_lose_updates:
  fixes p q :: "('id::linorder, 'url) node_info" and s0 :: "('id, 'url) gossip_state"
  assumes "member_of (membership_cell s0) (node_id p) = None" and "node_id p \<noteq> node_id q"
    and "\<not> is_dead (membership_cell s0) (node_id (current_node s0))"
  shows "\<exists>s. (workers_step ext any_op)\<^sup>*\<^sup>* (s0, fs0, [Done (Ok None), Done (Ok None)])
        (s, fs0, [Done (Ok (Some (Ack (current_node s0)))), Done (Ok (Some (Ack (current_node s0))))]) \<and>
      member_of (membership_cell s) (node_id p) = None \<and>
      member_of (membership_cell (fst (handle_message ext t2
        (fst (handle_message ext t1 s0 fs0 (Ping p))) fs1 (Ping q)))) (node_id p) \<noteq> None"
proof -
  let ?s = "s0\<lparr>membership_cell := merge_member (alive_now t2 q) (membership_cell s0)\<rparr>"
  let ?done = "Done (Ok (Some (Ack (current_node s0))))"
  have alive: "\<not> is_dead (merge_member (alive_now t i) (membership_cell s0)) (node_id (current_node s0))" for t i
    using assms(3) by (auto simp: is_dead_def member_of_merge merged_def split: option.splits if_splits)
  have "run_schedule ext ([Begin 0 (HandleMessage (Ping p)), Begin 1 (HandleMessage (Ping q)), Proceed 0 t1, Proceed 1 t2] @
      replicate 3 (Proceed 0 t2) @ replicate 3 (Proceed 1 t2)) (s0, fs0, [Done (Ok None), Done (Ok None)]) =
      Some (?s, fs0, [?done, ?done])"
    using alive by (simp add: numeral_3_eq_3)
  then have "(workers_step ext any_op)\<^sup>*\<^sup>* (s0, fs0, [Done (Ok None), Done (Ok None)]) (?s, fs0, [?done, ?done])"
    by (rule run_any)
  moreover have "member_of (membership_cell (fst (handle_message ext t2
        (fst (handle_message ext t1 s0 fs0 (Ping p))) fs1 (Ping q)))) (node_id p) \<noteq> None"
    by (simp add: handle_message_membership member_of_merge)
  ultimately show ?thesis using assms by (intro exI [of _ ?s]) (simp add: member_of_merge)
qed

lemma two_workers_lose_updates_witness:
  "\<exists>s. (workers_step demo_ext any_op)\<^sup>*\<^sup>* (demo_state [], demo_fs, [Done (Ok None), Done (Ok None)])
      (s, demo_fs, [Done (Ok (Some (Ack (demo_node 1 0)))), Done (Ok (Some (Ack (demo_node 1 0))))]) \<and>
    member_of (membership_cell s) 2 = None"
  using two_workers_lose_updates [of "demo_state []" "demo_node 2 0" "demo_node 3 0" demo_ext demo_fs 1 2 demo_fs]
  by (auto simp: membership_from_iter_def is_dead_def)

text \<open>
  A ping handled alone by the second thread, beside whatever the first one is doing, in a state in which
  the node is listed dead: the answer has the identity before, and the next one is written and stored. It
  can be repeated, since the handler does not touch the entry of the node.
\<close>

definition refuting :: "('id, 'url) gossip_ext \<Rightarrow> ('id::linorder, 'url) node_info \<Rightarrow> ('id, 'url) gossip_state \<Rightarrow> file_system \<Rightarrow> bool" where
  "refuting ext p s fs \<longleftrightarrow> (\<forall>x. to_string_pretty (ext_codec ext) x \<noteq> None) \<and>
     writable fs (node_file_path (dir s)) \<and> readable fs (node_file_path (dir s)) \<and>
     is_dead (membership_cell s) (node_id (current_node s)) \<and> node_id p \<noteq> node_id (current_node s)"

lemma refuting_persist:
  assumes "refuting ext p s fs"
  obtains fs' where "node_persist (ext_codec ext) fs (node_file_path (dir s)) n = Inr fs'"
    "readable fs' = readable fs" "writable fs' = writable fs"
proof -
  obtain fs' where "node_persist (ext_codec ext) fs (node_file_path (dir s)) n = Inr fs'"
    using assms by (force simp: refuting_def node_persist_def persistent_persist_def fs_write_def split: option.split)
  then show ?thesis using that node_persist_frame by blast
qed

lemma refuting_ping:
  assumes "refuting ext p s fs"
  shows "\<exists>s' fs'. (workers_step ext any_op)\<^sup>*\<^sup>* (s, fs, [j, Done r]) (s', fs', [j, Done (Ok (Some (Ack (current_node s))))]) \<and>
    refuting ext p s' fs' \<and> current_node s' = node_advance_incarnation (current_node s) \<and> dir s' = dir s"
proof -
  let ?m = "merge_member (alive_now 0 p) (membership_cell s)" and ?n = "node_advance_incarnation (current_node s)"
  obtain fs' where fs': "node_persist (ext_codec ext) fs (node_file_path (dir s)) ?n = Inr fs'"
      "readable fs' = readable fs" "writable fs' = writable fs"
    using refuting_persist [OF assms] .
  have dead: "is_dead ?m (node_id (current_node s))"
    using assms by (auto simp: refuting_def is_dead_def member_of_merge)
  have "run_schedule ext (Begin 1 (HandleMessage (Ping p)) # replicate 7 (Proceed 1 0)) (s, fs, [j, Done r]) =
      Some (s\<lparr>membership_cell := ?m, current_node := ?n\<rparr>, fs', [j, Done (Ok (Some (Ack (current_node s))))])"
    using dead fs' by (simp add: eval_nat_numeral)
  from run_any [OF this] assms fs' dead show ?thesis
    by (intro exI [of _ "s\<lparr>membership_cell := ?m, current_node := ?n\<rparr>"] exI [of _ fs']) (simp add: refuting_def)
qed

lemma refuting_pings:
  assumes "refuting ext p s fs"
  shows "\<exists>s' fs'. (workers_step ext any_op)\<^sup>*\<^sup>* (s, fs, [j, Done r])
      (s', fs', [j, Done (Ok (Some (Ack ((node_advance_incarnation ^^ k) (current_node s)))))]) \<and>
    refuting ext p s' fs' \<and> current_node s' = (node_advance_incarnation ^^ Suc k) (current_node s) \<and> dir s' = dir s"
proof (induction k)
  case 0
  then show ?case using refuting_ping [OF assms, of j r] by simp
next
  case (Suc k)
  then obtain s1 fs1 r1 where 1: "(workers_step ext any_op)\<^sup>*\<^sup>* (s, fs, [j, Done r]) (s1, fs1, [j, Done r1])"
      "refuting ext p s1 fs1" "current_node s1 = (node_advance_incarnation ^^ Suc k) (current_node s)" "dir s1 = dir s"
    by blast
  from refuting_ping [OF 1(2), of j r1] obtain s2 fs2 where 2: "(workers_step ext any_op)\<^sup>*\<^sup>* (s1, fs1, [j, Done r1])
      (s2, fs2, [j, Done (Ok (Some (Ack (current_node s1))))])" "refuting ext p s2 fs2"
      "current_node s2 = node_advance_incarnation (current_node s1)" "dir s2 = dir s1" by blast
  with 1 rtranclp_trans [OF 1(1) 2(1)] show ?case by (intro exI [of _ s2] exI [of _ fs2]) simp
qed

text \<open>
  C29: with two workers an incarnation can be announced twice. In any state in which the table lists the
  node dead and \<open>node.json\<close> can be written, a thread can be held up between advancing the incarnation and
  writing it, while another answers pings of a peer and announces any later incarnation. When the first
  thread goes on, the node announces the first incarnation after the present one again, and a process
  restarted from the file takes the second one, possibly with other urls.
\<close>
theorem two_workers_reuse_incarnation:
  fixes p :: "('id::linorder, 'url) node_info" and s0 :: "('id, 'url) gossip_state"
  assumes "codec_ok (ext_codec ext)" and "refuting ext p s0 fs0"
  shows "\<exists>s fs. (workers_step ext any_op)\<^sup>*\<^sup>* (s0, fs0, [Done (Ok None), Done (Ok None)])
      (s, fs, [Done (Ok (Some (Ack (current_node s0)))),
        Done (Ok (Some (Ack ((node_advance_incarnation ^^ k) (current_node s0)))))]) \<and>
    current_node s = node_advance_incarnation (current_node s0) \<and>
    map_sum id (map_option node_advance_incarnation) (node_load (ext_codec ext) fs (node_file_path (dir s)) du cu) =
      Ok (Some ((current_node s0)\<lparr>advertise_data_url := du, advertise_ctrl_url := cu,
        incarnation := incarnation (current_node s0) + 2\<rparr>))"
proof -
  let ?n = "node_advance_incarnation (current_node s0)" and ?ack = "Some (Ack (current_node s0))"
  let ?s = "s0\<lparr>membership_cell := merge_member (alive_now 0 p) (membership_cell s0)\<rparr>"
  have held: "refuting ext p ?s fs0"
    using assms(2) by (auto simp: refuting_def is_dead_def member_of_merge)
  have "run_schedule ext (Begin 0 (HandleMessage (Ping p)) # replicate 5 (Proceed 0 0))
      (s0, fs0, [Done (Ok None), Done (Ok None)]) = Some (?s, fs0, [Advanced ?ack ?n, Done (Ok None)])"
    using held by (simp add: eval_nat_numeral refuting_def)
  note start = run_any [OF this]
  obtain s1 fs1 where 1: "(workers_step ext any_op)\<^sup>*\<^sup>* (?s, fs0, [Advanced ?ack ?n, Done (Ok None)])
        (s1, fs1, [Advanced ?ack ?n, Done (Ok (Some (Ack ((node_advance_incarnation ^^ k) (current_node s0)))))])"
      "refuting ext p s1 fs1"
    using refuting_pings [OF held, of "Advanced ?ack ?n" "Ok None" k] by auto
  obtain fs2 where 2: "node_persist (ext_codec ext) fs1 (node_file_path (dir s1)) ?n = Inr fs2" "readable fs2 = readable fs1"
    using refuting_persist [OF 1(2)] by metis
  have "run_schedule ext [Proceed 0 0, Proceed 0 0] (s1, fs1, [Advanced ?ack ?n, r]) =
      Some (s1\<lparr>current_node := ?n\<rparr>, fs2, [Done (Ok ?ack), r])" for r
    using 2 by simp
  note run = rtranclp_trans [OF start rtranclp_trans [OF 1(1) run_any [OF this]]]
  have "node_load (ext_codec ext) fs2 (node_file_path (dir s1)) du cu =
      Ok (Some (?n\<lparr>advertise_data_url := du, advertise_ctrl_url := cu\<rparr>))"
    using 1(2) 2 node_persist_holds [OF assms(1) 2(1)] by (intro node_load_holds) (simp_all add: refuting_def)
  with run show ?thesis
    by (intro exI [of _ "s1\<lparr>current_node := ?n\<rparr>"] exI [of _ fs2]) (simp add: node_advance_incarnation_def)
qed

theorem two_workers_reuse_incarnation_witness:
  "\<exists>s fs. (workers_step demo_ext any_op)\<^sup>*\<^sup>* (demo_state [demo_dead 1 0 5], demo_fs, [Done (Ok None), Done (Ok None)])
      (s, fs, [Done (Ok (Some (Ack (demo_node 1 0)))),
        Done (Ok (Some (Ack ((node_advance_incarnation ^^ 2) (demo_node 1 0)))))]) \<and>
    current_node s = node_advance_incarnation (demo_node 1 0) \<and>
    map_sum id (map_option node_advance_incarnation) (node_load (ext_codec demo_ext) fs (node_file_path (dir s)) ''x'' ''y'') =
      Ok (Some ((demo_node 1 0)\<lparr>advertise_data_url := ''x'', advertise_ctrl_url := ''y'',
        incarnation := incarnation (demo_node 1 0) + 2\<rparr>))"
proof -
  have "refuting demo_ext (demo_node 2 0) (demo_state [demo_dead 1 0 5]) demo_fs"
    by (simp add: refuting_def is_dead_def demo_ext_def demo_fs_def)
  from two_workers_reuse_incarnation [OF demo_ext_codec_ok this, of 2 "''x''" "''y''"]
  show ?thesis unfolding demo_state_simps .
qed

end
