(* ===== verification/Cluster.thy ===== *)
theory Cluster
  imports Server
begin

text \<open>
  Several percas nodes that gossip with each other. A node of the cluster is its gossip state, its own
  disk and the peers its tasks hold in local variables while they wait; the wire is the set of the
  messages sent so far, so a message may be delivered late, twice or never, and to anyone. A step of
  the cluster is one atomic segment of one node (the segments are those of \<open>gossip.rs\<close>), the first
  start of a node, or the restart of a crashed node from its own \<open>node.json\<close>. The invariant is about
  everything that is written about a node anywhere in the cluster: tables, messages and local
  variables.
\<close>

section \<open>Nodes and the wire\<close>

record ('id, 'url) cluster_node =
  cn_state :: "('id, 'url) gossip_state"
  cn_files :: file_system
  cn_peers :: "('id, 'url) node_info set"

record ('id, 'url) cluster =
  cl_nodes :: "'id \<rightharpoonup> ('id, 'url) cluster_node"
  cl_wire :: "('id, 'url) gossip_message set"

definition cluster_empty :: "('id, 'url) cluster" where
  "cluster_empty = \<lparr>cl_nodes = Map.empty, cl_wire = {}\<rparr>"

abbreviation current_of :: "('id, 'url) cluster_node \<Rightarrow> ('id, 'url) node_info" where
  "current_of n \<equiv> current_node (cn_state n)"

abbreviation table_of :: "('id, 'url) cluster_node \<Rightarrow> ('id, 'url) membership" where
  "table_of n \<equiv> membership_cell (cn_state n)"

text \<open>What the control server sends back, and what a waiting task may have received.\<close>

fun replies :: "panic + ('id, 'url) gossip_message option \<Rightarrow> ('id, 'url) gossip_message set" where
  "replies (Inr (Some m)) = {m}"
| "replies _ = {}"

fun heard :: "('id, 'url) gossip_message set \<Rightarrow> gossip_error + ('id, 'url) gossip_message \<Rightarrow> bool" where
  "heard wire (Inr m) \<longleftrightarrow> m \<in> wire"
| "heard wire (Inl e) \<longleftrightarrow> True"

inductive node_step ::
  "('id, 'url) gossip_ext \<Rightarrow> ('id, 'url) gossip_message set \<Rightarrow> ('id::linorder, 'url) cluster_node \<Rightarrow>
   ('id, 'url) cluster_node \<Rightarrow> ('id, 'url) gossip_message set \<Rightarrow> bool" for ext wire where
  receive: "msg \<in> wire \<Longrightarrow> handle_message ext now (cn_state n) (cn_files n) msg = (s', fs', r) \<Longrightarrow>
    node_step ext wire n (n\<lparr>cn_state := s', cn_files := fs'\<rparr>) (replies r)"
| choose: "choose_member rng (cn_state n) = Inr (Contact peer) \<Longrightarrow>
    node_step ext wire n (n\<lparr>cn_peers := insert peer (cn_peers n)\<rparr>) {}"
| send_ping: "node_step ext wire n n {Ping (current_of n)}"
| send_sync: "node_step ext wire n n {Sync (bt_values (members (table_of n)))}"
| ping_end: "peer \<in> cn_peers n \<Longrightarrow> heard wire outcome \<Longrightarrow>
    ping_done ext now peer outcome (cn_state n) (cn_files n) = (s', fs', r) \<Longrightarrow>
    node_step ext wire n (n\<lparr>cn_state := s', cn_files := fs'\<rparr>) {}"
| sync_end: "peer \<in> cn_peers n \<Longrightarrow> heard wire outcome \<Longrightarrow>
    sync_done ext now peer outcome (cn_state n) (cn_files n) = (s', fs', r) \<Longrightarrow>
    node_step ext wire n (n\<lparr>cn_state := s', cn_files := fs'\<rparr>) {}"
| bootstrap_ping_end: "heard wire outcome \<Longrightarrow>
    bootstrap_ping_done ext now outcome (cn_state n) (cn_files n) = (s', fs', r) \<Longrightarrow>
    node_step ext wire n (n\<lparr>cn_state := s', cn_files := fs'\<rparr>) {}"
| bootstrap_sync_end: "heard wire outcome \<Longrightarrow>
    bootstrap_sync_done ext now outcome (cn_state n) (cn_files n) = (s', fs', r) \<Longrightarrow>
    node_step ext wire n (n\<lparr>cn_state := s', cn_files := fs'\<rparr>) {}"
| reset: "node_step ext wire n (n\<lparr>cn_state := (cn_state n)
    \<lparr>membership_cell := membership_from_iter [alive_now now (current_of n)]\<rparr>\<rparr>) {}"
| rebuild: "node_step ext wire n (n\<lparr>cn_state := rebuild_ring ext now (cn_state n)\<rparr>) {}"
| sweep: "remove_dead_members ext clock (cn_state n) = (s', r) \<Longrightarrow>
    node_step ext wire n (n\<lparr>cn_state := s'\<rparr>) {}"

inductive_cases node_stepE: "node_step ext wire n n' W"

text \<open>
  A process that starts: \<open>init_node\<close> of \<open>start_gossip\<close> on the disk it finds, then \<open>GossipState::new\<close>.
\<close>

definition started :: "('id::linorder, 'url) node_info \<Rightarrow> 'url list \<Rightarrow> string \<Rightarrow> file_system \<Rightarrow> ('id, 'url) cluster_node" where
  "started node peers d fs = \<lparr>cn_state = gossip_new node peers d, cn_files = fs, cn_peers = {}\<rparr>"

inductive cluster_step ::
  "('id, 'url) gossip_ext \<Rightarrow> ('id::linorder, 'url) cluster \<Rightarrow> ('id, 'url) cluster \<Rightarrow> bool" for ext where
  local: "cl_nodes c i = Some n \<Longrightarrow> node_step ext (cl_wire c) n n' W \<Longrightarrow>
    cluster_step ext c \<lparr>cl_nodes = (cl_nodes c)(i \<mapsto> n'), cl_wire = cl_wire c \<union> W\<rparr>"
| boot: "init_node (ext_codec ext) fs config fresh du cu = Inr (node, fs') \<Longrightarrow>
    cl_nodes c (node_id node) = None \<Longrightarrow>
    cluster_step ext c (c\<lparr>cl_nodes := (cl_nodes c)
      (node_id node \<mapsto> started node (cfg_initial_peers config) (cfg_server_dir config) fs')\<rparr>)"
| restart: "cl_nodes c i = Some n \<Longrightarrow> cfg_server_dir config = dir (cn_state n) \<Longrightarrow>
    readable (cn_files n) (node_file_path (dir (cn_state n))) \<Longrightarrow>
    init_node (ext_codec ext) (cn_files n) config fresh du cu = Inr (node, fs') \<Longrightarrow>
    cluster_step ext c (c\<lparr>cl_nodes := (cl_nodes c)
      (i \<mapsto> started node (cfg_initial_peers config) (cfg_server_dir config) fs')\<rparr>)"

section \<open>What is written about a node\<close>

fun msg_infos :: "('id, 'url) gossip_message \<Rightarrow> ('id, 'url) node_info set" where
  "msg_infos (Ping i) = {i}"
| "msg_infos (Ack i) = {i}"
| "msg_infos (Sync ms) = info ` set ms"

definition table_infos :: "('id::linorder, 'url) membership \<Rightarrow> ('id, 'url) node_info set" where
  "table_infos m = info ` set (bt_values (members m))"

definition node_infos :: "('id::linorder, 'url) cluster_node \<Rightarrow> ('id, 'url) node_info set" where
  "node_infos n = insert (current_of n) (table_infos (table_of n) \<union> cn_peers n)"

definition circulating :: "('id::linorder, 'url) cluster \<Rightarrow> ('id, 'url) node_info set" where
  "circulating c = (\<Union>n\<in>ran (cl_nodes c). node_infos n) \<union> (\<Union>m\<in>cl_wire c. msg_infos m)"

lemma mem_table_infos: "x \<in> table_infos m \<longleftrightarrow> (\<exists>k s. member_of m k = Some s \<and> info s = x)"
  unfolding table_infos_def image_iff using mem_bt_values [of _ "members m"] by blast

lemma table_infos_merge: "table_infos (merge_member s m) \<subseteq> insert (info s) (table_infos m)"
  by (force simp: mem_table_infos member_of_merge merged_def split: if_splits option.splits)

lemma table_infos_fold: "table_infos (fold merge_member ss m) \<subseteq> info ` set ss \<union> table_infos m"
proof (induction ss arbitrary: m)
  case Nil
  then show ?case by simp
next
  case (Cons s ss)
  then show ?case using Cons [of "merge_member s m"] table_infos_merge [of s m] by auto
qed

lemma table_infos_default [simp]: "table_infos membership_default = {}"
  by (auto simp: mem_table_infos)

lemma infos_reports: "info ` set (reports now cur msg) \<subseteq> insert cur (msg_infos msg)"
  by (cases msg) auto

text \<open>A handled message brings nothing new but the node's own next incarnation.\<close>

lemma handle_message_infos:
  assumes "handle_message ext now s fs msg = (s', fs', r)"
  defines "old \<equiv> insert (current_node s) (table_infos (membership_cell s) \<union> msg_infos msg)"
  shows "table_infos (membership_cell s') \<subseteq> old \<and> (\<Union>m\<in>replies r. msg_infos m) \<subseteq> old"
proof -
  let ?m = "fold merge_member (reports now (current_node s) msg) (membership_cell s)"
  have t: "table_infos ?m \<subseteq> old"
    using table_infos_fold [of "reports now (current_node s) msg" "membership_cell s"]
      infos_reports [of now "current_node s" msg] by (auto simp: old_def)
  then have "(\<Union>m\<in>replies (Inr (reply_to (current_node s) ?m msg)). msg_infos m) \<subseteq> old"
    by (cases msg) (auto simp: old_def table_infos_def)
  with t assms(1) show ?thesis
    by (cases rule: handle_message_cases [of now s msg ext fs]) auto
qed

lemma mark_dead_infos:
  "table_infos (membership_cell (mark_dead peer s)) \<subseteq> insert peer (table_infos (membership_cell s))"
  using table_infos_merge [of "\<lparr>info = peer, status = Dead, heartbeat = h\<rparr>" "membership_cell s" for h]
  by (auto simp: mark_dead_def split: option.split)

lemma sweep_infos:
  "remove_dead_members ext clock s = (s', r) \<Longrightarrow>
   table_infos (membership_cell s') \<subseteq> table_infos (membership_cell s)"
  by (auto simp: remove_dead_members_def mem_table_infos member_of_fold_remove split: sum.splits if_splits) blast

lemma choose_member_infos:
  "choose_member rng s = Inr (Contact peer) \<Longrightarrow> peer \<in> table_infos (membership_cell s)"
  by (auto simp: choose_member_def Let_def table_infos_def bt_values_def split: sum.splits if_splits)

fun outcome_infos :: "gossip_error + ('id, 'url) gossip_message \<Rightarrow> ('id, 'url) node_info set" where
  "outcome_infos (Inr m) = msg_infos m"
| "outcome_infos (Inl e) = {}"

lemma heard_infos: "heard wire outcome \<Longrightarrow> outcome_infos outcome \<subseteq> (\<Union>m\<in>wire. msg_infos m)"
  by (cases outcome) auto

lemma ignore_reply_infos:
  assumes "ignore_reply (handle_message ext now s fs msg) = (s', fs', r)"
  shows "table_infos (membership_cell s') \<subseteq>
    insert (current_node s) (table_infos (membership_cell s) \<union> msg_infos msg)"
  using handle_message_infos [of ext now s fs msg "fst (handle_message ext now s fs msg)"] assms
  by (metis fst_conv prod.collapse)

lemma exchange_infos:
  defines "old s outcome \<equiv> insert (current_node s) (table_infos (membership_cell s) \<union> outcome_infos outcome)"
  shows "ping_done ext now peer outcome s fs = (s', fs', r) \<Longrightarrow>
      table_infos (membership_cell s') \<subseteq> insert peer (old s outcome)"
    and "sync_done ext now peer outcome s fs = (s', fs', r) \<Longrightarrow>
      table_infos (membership_cell s') \<subseteq> insert peer (old s outcome)"
    and "bootstrap_ping_done ext now outcome s fs = (s', fs', r) \<Longrightarrow>
      table_infos (membership_cell s') \<subseteq> old s outcome"
    and "bootstrap_sync_done ext now outcome s fs = (s', fs', r) \<Longrightarrow>
      table_infos (membership_cell s') \<subseteq> old s outcome"
  using mark_dead_infos [of peer s] ignore_reply_infos [of ext now s fs _ s' fs' r] unfolding old_def
  by (force simp: ping_done_def sync_done_def bootstrap_ping_done_def bootstrap_sync_done_def
      split: sum.splits gossip_message.splits)+

section \<open>Steps of a node\<close>

lemma node_step_gossip:
  "node_step ext wire n n' W \<Longrightarrow>
   (cn_state n', cn_files n') = (cn_state n, cn_files n) \<or>
   gossip_step ext (cn_state n, cn_files n) (cn_state n', cn_files n')"
  by (erule node_stepE) (auto intro: gossip_step.intros)

lemma node_step_current:
  "node_step ext wire n n' W \<Longrightarrow>
   current_of n' = current_of n \<or> current_of n' = node_advance_incarnation (current_of n)"
  using node_step_gossip [of ext wire n n' W] gossip_step_identity by fastforce

lemma node_step_infos:
  assumes "node_step ext wire n n' W"
  shows "node_infos n' \<union> (\<Union>m\<in>W. msg_infos m) \<subseteq>
    insert (current_of n') (node_infos n \<union> (\<Union>m\<in>wire. msg_infos m))"
  using assms
proof (cases rule: node_step.cases)
  case (receive msg now s' fs' r)
  then show ?thesis using handle_message_infos [OF receive(4)] by (auto simp: node_infos_def)
next
  case (choose rng peer)
  then show ?thesis using choose_member_infos [OF choose(3)] by (auto simp: node_infos_def)
next
  case send_ping
  then show ?thesis by (auto simp: node_infos_def)
next
  case send_sync
  then show ?thesis by (auto simp: node_infos_def table_infos_def)
next
  case (ping_end peer outcome now s' fs' r)
  then show ?thesis using exchange_infos(1) [OF ping_end(5)] heard_infos [OF ping_end(4)]
    by (auto simp: node_infos_def)
next
  case (sync_end peer outcome now s' fs' r)
  then show ?thesis using exchange_infos(2) [OF sync_end(5)] heard_infos [OF sync_end(4)]
    by (auto simp: node_infos_def)
next
  case (bootstrap_ping_end outcome now s' fs' r)
  then show ?thesis using exchange_infos(3) [OF bootstrap_ping_end(4)] heard_infos [OF bootstrap_ping_end(3)]
    by (auto simp: node_infos_def)
next
  case (bootstrap_sync_end outcome now s' fs' r)
  then show ?thesis using exchange_infos(4) [OF bootstrap_sync_end(4)] heard_infos [OF bootstrap_sync_end(3)]
    by (auto simp: node_infos_def)
next
  case (reset now)
  then show ?thesis using table_infos_merge [of "alive_now now (current_of n)" membership_default]
    by (auto simp: node_infos_def membership_from_iter_def)
next
  case (rebuild now)
  then show ?thesis by (auto simp: node_infos_def rebuild_ring_frame)
next
  case (sweep clock s' r)
  then show ?thesis using sweep_infos [OF sweep(3)] remove_dead_members_frame [of ext clock "cn_state n"]
    by (auto simp: node_infos_def)
qed

section \<open>The invariant\<close>

text \<open>
  No incarnation is ever attributed to a node that the node has not taken, and an incarnation of a
  node determines what is written about it, its urls included.
\<close>

definition incarnation_key :: "('id, 'url) node_info \<Rightarrow> 'id \<times> u64" where
  "incarnation_key x = (node_id x, incarnation x)"

definition cluster_inv :: "('id, 'url) gossip_ext \<Rightarrow> ('id::linorder, 'url) cluster \<Rightarrow> bool" where
  "cluster_inv ext c \<longleftrightarrow> codec_ok (ext_codec ext) \<and>
     (\<forall>i n. cl_nodes c i = Some n \<longrightarrow> gossip_inv ext i (cn_state n, cn_files n)) \<and>
     inj_on incarnation_key (circulating c) \<and>
     (\<forall>x\<in>circulating c. \<exists>n. cl_nodes c (node_id x) = Some n \<and> incarnation x \<le> incarnation (current_of n))"

text \<open>The counters are 64 bits wide: the results hold while none of them has wrapped around.\<close>

definition unwrapped :: "('id, 'url) cluster \<Rightarrow> bool" where
  "unwrapped c \<longleftrightarrow> (\<forall>n\<in>ran (cl_nodes c). incarnation (current_of n) \<noteq> - 1)"

abbreviation cluster_run :: "('id, 'url) gossip_ext \<Rightarrow> ('id::linorder, 'url) cluster \<Rightarrow> ('id, 'url) cluster \<Rightarrow> bool" where
  "cluster_run ext \<equiv> (\<lambda>c d. cluster_step ext c d \<and> unwrapped c)\<^sup>*\<^sup>*"

lemma cluster_invD:
  assumes "cluster_inv ext c"
  shows "cl_nodes c i = Some n \<Longrightarrow> gossip_inv ext i (cn_state n, cn_files n)"
    and "cl_nodes c i = Some n \<Longrightarrow> node_id (current_of n) = i"
    and "x \<in> circulating c \<Longrightarrow> y \<in> circulating c \<Longrightarrow> node_id x = node_id y \<Longrightarrow>
      incarnation x = incarnation y \<Longrightarrow> x = y"
    and "x \<in> circulating c \<Longrightarrow> \<exists>n. cl_nodes c (node_id x) = Some n \<and> incarnation x \<le> incarnation (current_of n)"
  using assms by (auto simp: cluster_inv_def gossip_inv_def inj_on_def incarnation_key_def)

lemma current_circulates: "cl_nodes c i = Some n \<Longrightarrow> current_of n \<in> circulating c"
  by (auto simp: circulating_def node_infos_def ran_def)

lemma node_infos_circulate: "cl_nodes c i = Some n \<Longrightarrow> node_infos n \<subseteq> circulating c"
  by (auto simp: circulating_def ran_def)

lemma put_node_circulating:
  assumes "node_infos n' \<union> (\<Union>m\<in>W. msg_infos m) \<subseteq> insert (current_of n') (circulating c)"
  shows "circulating \<lparr>cl_nodes = (cl_nodes c)(i \<mapsto> n'), cl_wire = cl_wire c \<union> W\<rparr> \<subseteq>
    insert (current_of n') (circulating c)"
  using assms by (auto simp: circulating_def ran_def split: if_splits)

lemma put_node_inv:
  assumes inv: "cluster_inv ext c" and n': "gossip_inv ext i (cn_state n', cn_files n')"
    and infos: "node_infos n' \<union> (\<Union>m\<in>W. msg_infos m) \<subseteq> insert (current_of n') (circulating c)"
    and cur: "(\<exists>n. cl_nodes c i = Some n \<and> current_of n' = current_of n) \<or>
      (\<forall>x\<in>circulating c. node_id x = i \<longrightarrow> incarnation x < incarnation (current_of n'))"
  shows "cluster_inv ext \<lparr>cl_nodes = (cl_nodes c)(i \<mapsto> n'), cl_wire = cl_wire c \<union> W\<rparr>"
proof -
  let ?c = "\<lparr>cl_nodes = (cl_nodes c)(i \<mapsto> n'), cl_wire = cl_wire c \<union> W\<rparr>" and ?x = "current_of n'"
  note sub = put_node_circulating [OF infos, of i]
  have id: "node_id ?x = i" using n' by (simp add: gossip_inv_def)
  have "inj_on incarnation_key (insert ?x (circulating c))"
    using cur cluster_invD(3) [OF inv] current_circulates [of c i] id
    by (auto simp: inj_on_def incarnation_key_def)
  then have "inj_on incarnation_key (circulating ?c)" using sub by (rule inj_on_subset)
  moreover have "\<exists>m. cl_nodes ?c (node_id y) = Some m \<and> incarnation y \<le> incarnation (current_of m)"
    if "y \<in> circulating ?c" for y
    using that sub cur cluster_invD(4) [OF inv, of y] id by (cases "node_id y = i") fastforce+
  ultimately show ?thesis
    using inv n' by (auto simp: cluster_inv_def)
qed

lemma advance_newer:
  assumes "cluster_inv ext c" "unwrapped c" "cl_nodes c i = Some n" "x \<in> circulating c" "node_id x = i"
  shows "incarnation x < incarnation (current_of n) + 1"
proof -
  have "incarnation x \<le> incarnation (current_of n)"
    using cluster_invD(4) [OF assms(1,4)] assms(3,5) by auto
  moreover have "incarnation (current_of n) < incarnation (current_of n) + 1"
    using assms(2,3) by (auto simp: unwrapped_def ran_def word_less_plus_one)
  ultimately show ?thesis by (rule le_less_trans)
qed

lemma started_infos [simp]: "node_infos (started node peers d fs) = {node}"
  by (simp add: node_infos_def started_def gossip_new_def)

lemma started_simps [simp]:
  "cn_state (started node peers d fs) = gossip_new node peers d" "cn_files (started node peers d fs) = fs"
  "current_node (gossip_new node peers d) = node" "membership_cell (gossip_new node peers d) = membership_default"
  by (simp_all add: started_def gossip_new_def)

lemma started_inv:
  assumes "codec_ok (ext_codec ext)" "init_node (ext_codec ext) fs config fresh du cu = Inr (node, fs')"
  shows "gossip_inv ext (node_id node) (gossip_new node peers (cfg_server_dir config), fs')"
  using assms init_node_holds [OF assms] by (intro gossip_booting_inv) (auto simp: gossip_booting_def)

text \<open>The identity of a restarted node is its own, one incarnation later.\<close>

lemma restart_identity:
  fixes n :: "('id::linorder, 'url) cluster_node" and node :: "('id, 'url) node_info"
  assumes "gossip_inv ext i (cn_state n, cn_files n)" "cfg_server_dir config = dir (cn_state n)"
    and "readable (cn_files n) (node_file_path (dir (cn_state n)))"
    and "init_node (ext_codec ext) (cn_files n) config fresh du cu = Inr (node, fs')"
  shows "node_id node = i" "incarnation node = incarnation (current_of n) + 1"
  using assms init_node_restart [of "ext_codec ext" "cn_files n" config "current_of n" fresh du cu node fs']
  by (simp_all add: gossip_inv_def node_advance_incarnation_def)

lemma cluster_step_inv:
  assumes "cluster_inv ext c" "cluster_step ext c d" "unwrapped c"
  shows "cluster_inv ext d"
  using assms(2)
proof (cases rule: cluster_step.cases)
  case (local i n n' W)
  have g: "gossip_inv ext i (cn_state n', cn_files n')"
    using node_step_gossip [OF local(3)] cluster_invD(1) [OF assms(1) local(2)] gossip_step_inv by fastforce
  have "node_infos n' \<union> (\<Union>m\<in>W. msg_infos m) \<subseteq> insert (current_of n') (circulating c)"
    using node_step_infos [OF local(3)] node_infos_circulate [OF local(2)]
    by (auto simp: circulating_def)
  with g show ?thesis unfolding local(1)
    using node_step_current [OF local(3)] local(2) advance_newer [OF assms(1,3) local(2)]
    by (intro put_node_inv [OF assms(1)]) (auto simp: node_advance_incarnation_def)
next
  case (boot fs config fresh du cu node fs')
  have "\<not> (x \<in> circulating c \<and> node_id x = node_id node)" for x
    using cluster_invD(4) [OF assms(1), of x] boot(3) by auto
  then have "cluster_inv ext \<lparr>cl_nodes = (cl_nodes c)(node_id node \<mapsto>
      started node (cfg_initial_peers config) (cfg_server_dir config) fs'), cl_wire = cl_wire c \<union> {}\<rparr>"
    using started_inv [OF _ boot(2)] assms(1) by (intro put_node_inv) (auto simp: cluster_inv_def)
  with boot(1) show ?thesis by (cases c) simp
next
  case (restart i n config fresh du cu node fs')
  note id = restart_identity [OF cluster_invD(1) [OF assms(1) restart(2)] restart(3-5)]
  have "cluster_inv ext \<lparr>cl_nodes = (cl_nodes c)(i \<mapsto>
      started node (cfg_initial_peers config) (cfg_server_dir config) fs'), cl_wire = cl_wire c \<union> {}\<rparr>"
    using started_inv [OF _ restart(5)] assms(1) id advance_newer [OF assms(1,3) restart(2)]
    by (intro put_node_inv) (auto simp: cluster_inv_def)
  with restart(1) show ?thesis by (cases c) simp
qed

definition cluster_initial :: "('id, 'url) gossip_ext \<Rightarrow> ('id, 'url) cluster \<Rightarrow> bool" where
  "cluster_initial ext c \<longleftrightarrow> codec_ok (ext_codec ext) \<and> c = cluster_empty"

interpretation cluster: invariant_system "cluster_initial ext" "\<lambda>c d. cluster_step ext c d \<and> unwrapped c" "cluster_inv ext"
  for ext :: "('id::linorder, 'url) gossip_ext"
proof unfold_locales
  fix c :: "('id, 'url) cluster"
  show "cluster_initial ext c \<Longrightarrow> cluster_inv ext c"
    by (simp add: cluster_initial_def cluster_empty_def cluster_inv_def circulating_def)
qed (blast intro: cluster_step_inv)

text \<open>A step that changes the identity of a node makes it newer than all that was written about it.\<close>

lemma identity_change_is_newer:
  assumes "cluster_inv ext c" "cluster_step ext c d" "unwrapped c"
    and k: "cl_nodes c k = Some n" "cl_nodes d k = Some n'" "current_of n' \<noteq> current_of n"
    and "x \<in> circulating c" "node_id x = k"
  shows "incarnation x < incarnation (current_of n')"
proof -
  have "incarnation (current_of n') = incarnation (current_of n) + 1"
    using assms(2)
  proof (cases rule: cluster_step.cases)
    case (local i m m' W)
    with k node_step_current [OF local(3)] show ?thesis
      by (auto simp: node_advance_incarnation_def split: if_splits)
  next
    case (restart i m config fresh du cu node fs')
    with k restart_identity [OF cluster_invD(1) [OF assms(1) restart(2)] restart(3-5)] show ?thesis
      by (auto split: if_splits)
  qed (use k in \<open>auto split: if_splits\<close>)
  then show ?thesis using advance_newer [OF assms(1,3) k(1) assms(7,8)] by simp
qed

lemma cluster_step_other:
  "cluster_step ext c d \<Longrightarrow> cl_nodes c k = Some n \<Longrightarrow> cl_nodes d k = Some n' \<Longrightarrow>
   current_of n' \<noteq> current_of n \<Longrightarrow> j \<noteq> k \<Longrightarrow> cl_nodes d j = cl_nodes c j"
  by (erule cluster_step.cases) (auto split: if_splits)

lemma table_entry_circulates:
  "cl_nodes c i = Some n \<Longrightarrow> member_of (table_of n) k = Some m \<Longrightarrow> info m \<in> circulating c"
  using node_infos_circulate [of c i n] by (fastforce simp: node_infos_def mem_table_infos)

lemma table_entry_id:
  "cluster_inv ext c \<Longrightarrow> cl_nodes c i = Some n \<Longrightarrow> member_of (table_of n) k = Some m \<Longrightarrow> node_id (info m) = k"
  using cluster_invD(1) [of ext c i n] by (auto simp: gossip_inv_def membership_wf_iff)

section \<open>A cluster of two nodes\<close>

definition demo_id :: "nat \<Rightarrow> (nat, string) node_info" where
  "demo_id i = node_new i (cfg_cluster_id demo_config) ''http://d'' ''http://c''"

definition demo_pair :: "file_system \<Rightarrow> file_system \<Rightarrow> (nat, string) cluster" where
  "demo_pair f1 f2 = \<lparr>cl_nodes = [1 \<mapsto> started (demo_id 1) (cfg_initial_peers demo_config) ''/d'' f1,
      2 \<mapsto> started (demo_id 2) (cfg_initial_peers demo_config) ''/d'' f2], cl_wire = {}\<rparr>"

lemma cluster_run_step:
  "cluster_run ext b c \<Longrightarrow> unwrapped c \<Longrightarrow> cluster_step ext c d \<Longrightarrow> cluster_run ext b d"
  by (rule rtranclp.rtrancl_into_rtrancl) simp_all

lemma demo_id_simps [simp]: "node_id (demo_id i) = i" "incarnation (demo_id i) = 0"
  by (simp_all add: demo_id_def node_new_def)

lemma demo_config_dir [simp]: "cfg_server_dir demo_config = ''/d''"
  by (simp add: demo_config_def)

lemma demo_boot:
  "\<exists>fs'. init_node (ext_codec demo_ext) demo_fs demo_config i ''http://d'' ''http://c'' = Inr (demo_id i, fs') \<and>
    readable fs' = (\<lambda>_. True) \<and> writable fs' = (\<lambda>_. True)"
proof -
  obtain n fs' where n: "init_node (ext_codec demo_ext) demo_fs demo_config i ''http://d'' ''http://c'' = Inr (n, fs')"
      "readable fs' = (\<lambda>_. True)" "writable fs' = (\<lambda>_. True)"
    using demo_init [of demo_fs demo_config i "''http://d''" "''http://c''"] by (auto simp: demo_fs_def)
  moreover have "n = demo_id i"
    using init_node_fresh [OF demo_ext_codec_ok _ n(1)] by (simp add: path_exists_def demo_fs_def demo_id_def)
  ultimately show ?thesis by blast
qed

lemma demo_pair_run:
  "\<exists>f1 f2. cluster_run demo_ext cluster_empty (demo_pair f1 f2) \<and>
    readable f1 = (\<lambda>_. True) \<and> writable f1 = (\<lambda>_. True) \<and> unwrapped (demo_pair f1 f2)"
proof -
  obtain f1 f2 where f: "init_node (ext_codec demo_ext) demo_fs demo_config 1 ''http://d'' ''http://c'' = Inr (demo_id 1, f1)"
      "readable f1 = (\<lambda>_. True)" "writable f1 = (\<lambda>_. True)"
      "init_node (ext_codec demo_ext) demo_fs demo_config 2 ''http://d'' ''http://c'' = Inr (demo_id 2, f2)"
    using demo_boot [of 1] demo_boot [of 2] by blast
  let ?c1 = "\<lparr>cl_nodes = [1 \<mapsto> started (demo_id 1) (cfg_initial_peers demo_config) ''/d'' f1], cl_wire = {}\<rparr>"
  have 1: "cluster_step demo_ext cluster_empty ?c1"
    using cluster_step.boot [OF f(1), of cluster_empty] by (simp add: cluster_empty_def)
  have 2: "cluster_step demo_ext ?c1 (demo_pair f1 f2)"
    using cluster_step.boot [OF f(4), of ?c1] by (simp add: demo_pair_def)
  have "unwrapped (cluster_empty :: (nat, string) cluster)" "unwrapped ?c1"
    by (simp_all add: unwrapped_def cluster_empty_def)
  then have "cluster_run demo_ext cluster_empty (demo_pair f1 f2)"
    using cluster_run_step [OF cluster_run_step [OF rtranclp.rtrancl_refl _ 1] _ 2] by simp
  with f show ?thesis
    by (intro exI [of _ f1] exI [of _ f2]) (auto simp: unwrapped_def demo_pair_def ran_def)
qed

text \<open>The first node pings the second one and starts its own table.\<close>

lemma demo_pinged_run:
  "\<exists>c n p. cluster_run demo_ext cluster_empty c \<and> cl_nodes c = [1 \<mapsto> n, 2 \<mapsto> p] \<and>
    table_of n = membership_from_iter [alive_now 5 (demo_id 1)] \<and>
    table_of p = membership_from_iter [alive_now 7 (demo_id 1)] \<and>
    current_of n = demo_id 1 \<and> current_of p = demo_id 2"
proof -
  obtain f1 f2 where run: "cluster_run demo_ext cluster_empty (demo_pair f1 f2)" and u: "unwrapped (demo_pair f1 f2)"
    using demo_pair_run by blast
  let ?n = "started (demo_id 1) (cfg_initial_peers demo_config) ''/d'' f1"
  let ?p = "started (demo_id 2) (cfg_initial_peers demo_config) ''/d'' f2"
  let ?n' = "?n\<lparr>cn_state := (cn_state ?n)\<lparr>membership_cell := membership_from_iter [alive_now 5 (current_of ?n)]\<rparr>\<rparr>"
  obtain s' fs' r where h: "handle_message demo_ext 7 (cn_state ?p) (cn_files ?p) (Ping (demo_id 1)) = (s', fs', r)"
    by (metis prod_cases3)
  let ?p' = "?p\<lparr>cn_state := s', cn_files := fs'\<rparr>"
  let ?c1 = "\<lparr>cl_nodes = [1 \<mapsto> ?n, 2 \<mapsto> ?p], cl_wire = {Ping (demo_id 1)}\<rparr>"
  let ?c2 = "\<lparr>cl_nodes = [1 \<mapsto> ?n, 2 \<mapsto> ?p'], cl_wire = insert (Ping (demo_id 1)) (replies r)\<rparr>"
  let ?c3 = "\<lparr>cl_nodes = [1 \<mapsto> ?n', 2 \<mapsto> ?p'], cl_wire = insert (Ping (demo_id 1)) (replies r)\<rparr>"
  have 1: "cluster_step demo_ext (demo_pair f1 f2) ?c1"
    using cluster_step.local [of "demo_pair f1 f2" 1 ?n demo_ext, OF _ node_step.send_ping]
    by (simp add: demo_pair_def fun_upd_twist)
  have 2: "cluster_step demo_ext ?c1 ?c2"
    using cluster_step.local [of ?c1 2 ?p demo_ext, OF _ node_step.receive [OF _ h]] by simp
  have 3: "cluster_step demo_ext ?c2 ?c3"
    using cluster_step.local [of ?c2 1 ?n demo_ext, OF _ node_step.reset [where now = 5]]
    by (simp add: fun_upd_twist)
  have m: "membership_cell s' = merge_member (alive_now 7 (demo_id 1)) membership_default"
    using handle_message_membership [of demo_ext 7 "cn_state ?p" "cn_files ?p" "Ping (demo_id 1)"] h by simp
  have id: "is_dead (membership_cell s') 2 = False"
    unfolding m by (simp add: is_dead_def member_of_merge alive_now_def)
  then have cur: "current_node s' = demo_id 2"
    using h by (auto simp: handle_message_def Let_def m split: if_splits)
  have "unwrapped ?c1" "unwrapped ?c2"
    using cur by (auto simp: unwrapped_def ran_def)
  then have "cluster_run demo_ext cluster_empty ?c3"
    using cluster_run_step [OF cluster_run_step [OF cluster_run_step [OF run u 1] _ 2] _ 3] by simp
  then show ?thesis
    by (intro exI [of _ ?c3] exI [of _ ?n'] exI [of _ ?p'])
      (simp add: m cur membership_from_iter_def)
qed

section \<open>Properties\<close>

text \<open>
  C15: however messages are lost, repeated, reordered or delivered late, and whichever nodes crash and
  restart from their disks, no table of the cluster ever shows a node at an incarnation that the node
  has not announced itself, and an entry at the node's present incarnation has its present urls.
\<close>
theorem cluster_reports_are_announced:
  assumes "codec_ok (ext_codec ext)" and "cluster_run ext cluster_empty c"
    and "cl_nodes c i = Some n" and "member_of (table_of n) k = Some m"
  shows "\<exists>n'. cl_nodes c k = Some n' \<and> node_id (info m) = k \<and>
    (incarnation (info m) < incarnation (current_of n') \<or> info m = current_of n')"
proof -
  have inv: "cluster_inv ext c"
    using assms(1,2) by (intro cluster.reachable_inv) (auto simp: cluster_initial_def)
  note circ = table_entry_circulates [OF assms(3,4)] and id = table_entry_id [OF inv assms(3,4)]
  obtain n' where n': "cl_nodes c k = Some n'" "incarnation (info m) \<le> incarnation (current_of n')"
    using cluster_invD(4) [OF inv circ] id by auto
  then show ?thesis
    using cluster_invD(3) [OF inv circ current_circulates [OF n'(1)]] cluster_invD(2) [OF inv n'(1)] id
    by (auto simp: order_less_le)
qed

theorem cluster_reports_are_announced_witness:
  "\<exists>c p m n'. cluster_run demo_ext cluster_empty c \<and> cl_nodes c 2 = Some p \<and>
     member_of (table_of p) 1 = Some m \<and> cl_nodes c 1 = Some n' \<and> node_id (info m) = 1 \<and>
     (incarnation (info m) < incarnation (current_of n') \<or> info m = current_of n')"
proof -
  obtain c n p where "cluster_run demo_ext cluster_empty c" "cl_nodes c = [1 \<mapsto> n, 2 \<mapsto> p]"
      "table_of p = membership_from_iter [alive_now 7 (demo_id 1)]"
    using demo_pinged_run by blast
  then have c: "cluster_run demo_ext cluster_empty c" "cl_nodes c 2 = Some p"
      "member_of (table_of p) 1 = Some (alive_now 7 (demo_id 1))" by (simp_all add: alive_now_def)
  with cluster_reports_are_announced [OF demo_ext_codec_ok c] show ?thesis by blast
qed

text \<open>
  Two nodes of the cluster that hold the same incarnation of a third agree on all of its identity,
  so they redirect its keys to the same url.
\<close>
lemma equal_incarnations_agree:
  assumes "codec_ok (ext_codec ext)" and "cluster_run ext cluster_empty c"
    and "cl_nodes c i = Some n" and "cl_nodes c j = Some p"
    and "member_of (table_of n) k = Some m" and "member_of (table_of p) k = Some m'"
    and "incarnation (info m) = incarnation (info m')"
  shows "info m = info m'"
proof -
  have inv: "cluster_inv ext c"
    using assms(1,2) by (intro cluster.reachable_inv) (auto simp: cluster_initial_def)
  show ?thesis
    using cluster_invD(3) [OF inv table_entry_circulates [OF assms(3,5)] table_entry_circulates [OF assms(4,6)]]
      table_entry_id [OF inv assms(3,5)] table_entry_id [OF inv assms(4,6)] assms(7) by simp
qed

lemma equal_incarnations_agree_witness:
  "\<exists>c n p m m'. cluster_run demo_ext cluster_empty c \<and> cl_nodes c 1 = Some n \<and> cl_nodes c 2 = Some p \<and>
     member_of (table_of n) 1 = Some m \<and> member_of (table_of p) 1 = Some m' \<and>
     incarnation (info m) = incarnation (info m') \<and> info m = info m'"
proof -
  obtain c n p where "cluster_run demo_ext cluster_empty c" "cl_nodes c = [1 \<mapsto> n, 2 \<mapsto> p]"
      "table_of n = membership_from_iter [alive_now 5 (demo_id 1)]"
      "table_of p = membership_from_iter [alive_now 7 (demo_id 1)]"
    using demo_pinged_run by blast
  then have c: "cluster_run demo_ext cluster_empty c" "cl_nodes c 1 = Some n" "cl_nodes c 2 = Some p"
      "member_of (table_of n) 1 = Some (alive_now 5 (demo_id 1))"
      "member_of (table_of p) 1 = Some (alive_now 7 (demo_id 1))" by (simp_all add: alive_now_def)
  with equal_incarnations_agree [OF demo_ext_codec_ok c] show ?thesis by auto
qed

text \<open>
  C17: a node that changes its identity, because it refutes its death or because it restarts with new
  urls, is believed by everyone: whatever another node has in its table, a ping with the new identity
  leaves it there alive with exactly that identity.
\<close>
theorem new_identity_wins_everywhere:
  assumes "codec_ok (ext_codec ext)" and "cluster_run ext cluster_empty c" and "unwrapped c"
    and "cluster_step ext c d" and k: "cl_nodes c k = Some n" "cl_nodes d k = Some n'"
    and "current_of n' \<noteq> current_of n" and j: "j \<noteq> k" "cl_nodes d j = Some p"
    and "handle_message ext now (cn_state p) (cn_files p) (Ping (current_of n')) = (s', fs', r)"
  shows "member_of (membership_cell s') k = Some (alive_now now (current_of n'))"
proof -
  have inv: "cluster_inv ext c"
    using assms(1,2) by (intro cluster.reachable_inv) (auto simp: cluster_initial_def)
  have d: "cluster_inv ext d" using inv assms(4,3) by (rule cluster_step_inv)
  have p: "cl_nodes c j = Some p"
    using cluster_step_other [OF assms(4) k assms(7) j(1)] j(2) by simp
  have "incarnation (info m) < incarnation (current_of n')" if "member_of (table_of p) k = Some m" for m
    using identity_change_is_newer [OF inv assms(4,3) k assms(7) table_entry_circulates [OF p that]]
      table_entry_id [OF inv p that] by simp
  then show ?thesis
    using handle_message_membership [of ext now "cn_state p" "cn_files p" "Ping (current_of n')"]
      assms(10) cluster_invD(2) [OF d k(2)]
    by (auto simp: member_of_merge merged_def alive_now_def split: option.split)
qed

theorem new_identity_wins_everywhere_witness:
  "\<exists>f1 f2 d n' p s' fs' r. cluster_step demo_ext (demo_pair f1 f2) d \<and> cl_nodes d 1 = Some n' \<and>
     current_of n' \<noteq> demo_id 1 \<and> cl_nodes d 2 = Some p \<and>
     handle_message demo_ext 9 (cn_state p) (cn_files p) (Ping (current_of n')) = (s', fs', r) \<and>
     member_of (membership_cell s') 1 = Some (alive_now 9 (current_of n'))"
proof -
  obtain f1 f2 where run: "cluster_run demo_ext cluster_empty (demo_pair f1 f2)" "unwrapped (demo_pair f1 f2)"
      and f1: "readable f1 = (\<lambda>_. True)" "writable f1 = (\<lambda>_. True)"
    using demo_pair_run by blast
  let ?n = "started (demo_id 1) (cfg_initial_peers demo_config) ''/d'' f1"
  obtain node fs where i: "init_node (ext_codec demo_ext) (cn_files ?n) demo_config 9 ''x'' ''y'' = Inr (node, fs)"
    using demo_init [OF f1, of demo_config 9 "''x''" "''y''"] by auto
  have n: "cl_nodes (demo_pair f1 f2) 1 = Some ?n" by (simp add: demo_pair_def)
  have inv: "cluster_inv demo_ext (demo_pair f1 f2)"
    by (rule cluster.reachable_inv [OF _ run(1)]) (simp add: cluster_initial_def demo_ext_codec_ok)
  let ?d = "(demo_pair f1 f2)\<lparr>cl_nodes := (cl_nodes (demo_pair f1 f2))
    (1 \<mapsto> started node (cfg_initial_peers demo_config) (cfg_server_dir demo_config) fs)\<rparr>"
  have dir: "cfg_server_dir demo_config = dir (cn_state ?n)" by (simp add: gossip_new_def)
  have st: "cluster_step demo_ext (demo_pair f1 f2) ?d"
    by (rule cluster_step.restart [OF n dir _ i]) (simp add: f1)
  have "incarnation node = 1"
    using restart_identity(2) [OF cluster_invD(1) [OF inv n] dir _ i] by (simp add: f1)
  then have ne: "node \<noteq> demo_id 1" by auto
  let ?p = "started (demo_id 2) (cfg_initial_peers demo_config) ''/d'' f2"
  obtain s' fs' r where h: "handle_message demo_ext 9 (cn_state ?p) (cn_files ?p) (Ping node) = (s', fs', r)"
    by (metis prod_cases3)
  have "member_of (membership_cell s') 1 = Some (alive_now 9 node)"
    using new_identity_wins_everywhere [OF demo_ext_codec_ok run st n, of _ 2 ?p 9 s' fs' r] ne h
    by (simp add: demo_pair_def)
  with st ne h show ?thesis
    by (intro exI [of _ f1] exI [of _ f2] exI [of _ ?d]) (auto simp: demo_pair_def)
qed

text \<open>
  C16: when the nodes of a cluster see the same alive points on their rings, every key has exactly one
  owner: one node serves it, every other node redirects it there, under a url the owner has announced,
  which is the present one when the entry has the owner's present incarnation.
\<close>
theorem agreed_cluster_has_one_owner:
  assumes "codec_ok (ext_codec ext)" and "cluster_run ext cluster_empty c"
    and agree: "\<forall>n\<in>ran (cl_nodes c). alive_points (cn_state n) = A"
    and "cl_nodes c \<noteq> Map.empty" and "A \<noteq> {}"
  shows "\<exists>i n. cl_nodes c i = Some n \<and> proxy_route ext (proxy_new (cn_state n)) key = Local \<and>
    (\<forall>j p. j \<noteq> i \<and> cl_nodes c j = Some p \<longrightarrow> (\<exists>m. member_of (table_of p) i = Some m \<and>
       proxy_route ext (proxy_new (cn_state p)) key = RemoteAddr (advertise_data_url (info m)) \<and>
       (incarnation (info m) < incarnation (current_of n) \<or> info m = current_of n)))"
proof -
  have inv: "cluster_inv ext c"
    using assms(1,2) by (intro cluster.reachable_inv) (auto simp: cluster_initial_def)
  obtain i where i: "successor (hash_key (ext_mur3 ext) key) A = Some i"
    using successor_None_iff [of "hash_key (ext_mur3 ext) key" A] assms(5) by blast
  have serve: "serving_node ext (cn_state p) key = Some i" if "cl_nodes c j = Some p" for j p
    using agree that i by (auto simp: serving_node_def ran_def)
  have entry: "\<exists>m n. member_of (table_of p) i = Some m \<and> cl_nodes c i = Some n \<and>
      (incarnation (info m) < incarnation (current_of n) \<or> info m = current_of n)" if p: "cl_nodes c j = Some p" for j p
  proof -
    obtain m where m: "member_of (table_of p) i = Some m" using serving_node_alive(1) [OF serve [OF p]] by blast
    obtain n where n: "cl_nodes c i = Some n" "incarnation (info m) \<le> incarnation (current_of n)"
      using cluster_invD(4) [OF inv table_entry_circulates [OF p m]] table_entry_id [OF inv p m] by auto
    then show ?thesis
      using m cluster_invD(3) [OF inv table_entry_circulates [OF p m] current_circulates [OF n(1)]]
        cluster_invD(2) [OF inv n(1)] table_entry_id [OF inv p m] by (auto simp: order_less_le)
  qed
  have route: "proxy_route ext (proxy_new (cn_state p)) key =
      (if i = j then Local else RemoteAddr (advertise_data_url (info (the (member_of (table_of p) i)))))"
    if p: "cl_nodes c j = Some p" for j p
    using proxy_route_serving [of "cn_state p" ext key] serve [OF p] cluster_invD(1,2) [OF inv p]
    by (simp add: gossip_inv_def)
  obtain j p where "cl_nodes c j = Some p" using assms(4) by (metis not_None_eq ext)
  then obtain n where n: "cl_nodes c i = Some n" using entry by blast
  show ?thesis
  proof (rule exI [of _ i], rule exI [of _ n], intro conjI allI impI)
    show "cl_nodes c i = Some n" by (rule n)
    show "proxy_route ext (proxy_new (cn_state n)) key = Local" using route [OF n] by simp
    fix j p
    assume "j \<noteq> i \<and> cl_nodes c j = Some p"
    then show "\<exists>m. member_of (table_of p) i = Some m \<and>
       proxy_route ext (proxy_new (cn_state p)) key = RemoteAddr (advertise_data_url (info m)) \<and>
       (incarnation (info m) < incarnation (current_of n) \<or> info m = current_of n)"
      using entry [of j p] route [of j p] n by auto
  qed
qed

text \<open>Both nodes of the demonstration cluster know the first one only, and build their rings.\<close>

lemma demo_ring_run:
  "\<exists>c n p. cluster_run demo_ext cluster_empty c \<and> cl_nodes c = [1 \<mapsto> n, 2 \<mapsto> p] \<and>
    alive_points (cn_state n) = node_points (ext_mur3 demo_ext) (ext_as_ref demo_ext) DEFAULT_VNODE_COUNT 1 \<and>
    alive_points (cn_state p) = node_points (ext_mur3 demo_ext) (ext_as_ref demo_ext) DEFAULT_VNODE_COUNT 1"
proof -
  obtain c n p where c: "cluster_run demo_ext cluster_empty c" "cl_nodes c = [1 \<mapsto> n, 2 \<mapsto> p]"
      "table_of n = membership_from_iter [alive_now 5 (demo_id 1)]"
      "table_of p = membership_from_iter [alive_now 7 (demo_id 1)]"
      "current_of n = demo_id 1" "current_of p = demo_id 2"
    using demo_pinged_run by blast
  let ?n = "n\<lparr>cn_state := rebuild_ring demo_ext 9 (cn_state n)\<rparr>"
  let ?p = "p\<lparr>cn_state := rebuild_ring demo_ext 9 (cn_state p)\<rparr>"
  let ?c1 = "\<lparr>cl_nodes = [1 \<mapsto> ?n, 2 \<mapsto> p], cl_wire = cl_wire c\<rparr>"
  let ?c2 = "\<lparr>cl_nodes = [1 \<mapsto> ?n, 2 \<mapsto> ?p], cl_wire = cl_wire c\<rparr>"
  have 1: "cluster_step demo_ext c ?c1"
    using cluster_step.local [of c 1 n demo_ext, OF _ node_step.rebuild [where now = 9]] c(2)
    by (simp add: fun_upd_twist)
  have 2: "cluster_step demo_ext ?c1 ?c2"
    using cluster_step.local [of ?c1 2 p demo_ext, OF _ node_step.rebuild [where now = 9]] by simp
  have "unwrapped c" "unwrapped ?c1"
    using c(2,5,6) by (auto simp: unwrapped_def ran_def rebuild_ring_frame)
  then have run: "cluster_run demo_ext cluster_empty ?c2"
    using cluster_run_step [OF cluster_run_step [OF c(1) _ 1] _ 2] by simp
  have alive: "alive_points (rebuild_ring demo_ext 9 s) = node_points (ext_mur3 demo_ext) (ext_as_ref demo_ext) DEFAULT_VNODE_COUNT 1"
    if "membership_cell s = membership_from_iter [alive_now t (demo_id 1)]" for s t
    using that by (auto simp: alive_points_def is_alive_def rebuild_ring_points rebuild_ring_frame node_points_def
        alive_now_def split: if_splits)
  show ?thesis
    using run alive [OF c(3)] alive [OF c(4)] by (intro exI [of _ ?c2] exI [of _ ?n] exI [of _ ?p]) simp
qed

theorem agreed_cluster_has_one_owner_witness:
  "\<exists>c n p. (cluster_run demo_ext cluster_empty c \<and> cl_nodes c = [1 \<mapsto> n, 2 \<mapsto> p]) \<and>
     (\<exists>i q. cl_nodes c i = Some q \<and> proxy_route demo_ext (proxy_new (cn_state q)) [] = Local \<and>
       (\<forall>j p. j \<noteq> i \<and> cl_nodes c j = Some p \<longrightarrow> (\<exists>m. member_of (table_of p) i = Some m \<and>
          proxy_route demo_ext (proxy_new (cn_state p)) [] = RemoteAddr (advertise_data_url (info m)) \<and>
          (incarnation (info m) < incarnation (current_of q) \<or> info m = current_of q))))"
proof -
  let ?A = "node_points (ext_mur3 demo_ext) (ext_as_ref demo_ext) DEFAULT_VNODE_COUNT (1 :: nat)"
  obtain c n p where c: "cluster_run demo_ext cluster_empty c" "cl_nodes c = [1 \<mapsto> n, 2 \<mapsto> p]"
      "alive_points (cn_state n) = ?A" "alive_points (cn_state p) = ?A"
    using demo_ring_run by blast
  have view: "\<forall>q\<in>ran (cl_nodes c). alive_points (cn_state q) = ?A"
    using c by (auto simp: ran_def split: if_splits)
  have ne: "cl_nodes c \<noteq> Map.empty" using c(2) by (metis fun_upd_same option.distinct(1))
  show ?thesis
    by (rule exI [of _ c], rule exI [of _ n], rule exI [of _ p], rule conjI [OF conjI [OF c(1,2)]],
        rule agreed_cluster_has_one_owner [where A = ?A, OF demo_ext_codec_ok c(1) view ne default_points_nonempty])
qed

end
