(* ===== verification/ClusterSync.thy ===== *)
theory ClusterSync
  imports Cluster
begin

text \<open>
  The anti-entropy exchange between two nodes of a cluster: what \<open>sync\<close> on one side and the control
  server's handler on the other side do to the two tables together, and what follows for rounds of
  exchanges with a common peer, as in the bootstrap from a seed.
\<close>

section \<open>One exchange of \<open>sync\<close>\<close>

text \<open>
  \<open>sync\<close> of node \<open>a\<close> with node \<open>b\<close>, both given by state and disk: the message is \<open>a\<close>'s table, \<open>b\<close>'s control
  server handles it at time \<open>t b\<close>, and \<open>a\<close>'s task handles the reply at time \<open>t a\<close>. When \<open>b\<close> panics there
  is no reply and \<open>a\<close> marks it dead.
\<close>

definition sync_exchange ::
  "('id, 'url) gossip_ext \<Rightarrow> timestamp \<Rightarrow> timestamp \<Rightarrow> ('id::linorder, 'url) gossip_state \<times> file_system \<Rightarrow>
   ('id, 'url) gossip_state \<times> file_system \<Rightarrow>
   (('id, 'url) gossip_state \<times> file_system) \<times> (('id, 'url) gossip_state \<times> file_system)" where
  "sync_exchange ext tb ta a b =
     (case handle_message ext tb (fst b) (snd b) (Sync (bt_values (members (membership_cell (fst a))))) of
        (b', fb', r) \<Rightarrow>
          (let outcome = (case r of Inr (Some reply) \<Rightarrow> Ok reply | _ \<Rightarrow> Err (GossipError ''failed to send message''))
           in case sync_done ext ta (current_node (fst b)) outcome (fst a) (snd a) of
                (a', fa', _) \<Rightarrow> ((a', fa'), (b', fb'))))"

text \<open>A node whose file can be written never panics on a message.\<close>

definition can_persist :: "('id, 'url) gossip_ext \<Rightarrow> ('id, 'url) gossip_state \<times> file_system \<Rightarrow> bool" where
  "can_persist ext a \<longleftrightarrow> writable (snd a) (node_file_path (dir (fst a))) \<and>
     (\<forall>p. to_string_pretty (ext_codec ext) p \<noteq> None)"

lemma can_persist_answers:
  assumes "can_persist ext (s, fs)" "handle_message ext now s fs msg = (s', fs', r)"
  shows "\<exists>v. r = Inr v" and "can_persist ext (s', fs')"
proof -
  have "\<exists>fs2. node_persist (ext_codec ext) fs (node_file_path (dir s)) n = Inr fs2 \<and> writable fs2 = writable fs" for n
    using assms(1) by (auto simp: can_persist_def node_persist_def persistent_persist_def fs_write_def split: option.split)
  note ok = this [of "node_advance_incarnation (current_node s)"]
  show "\<exists>v. r = Inr v" using assms(2) ok
    by (cases rule: handle_message_cases [of now s msg ext fs]) auto
  show "can_persist ext (s', fs')" using assms ok
    by (cases rule: handle_message_cases [of now s msg ext fs]) (auto simp: can_persist_def)
qed

text \<open>The later of two versions, either of which may be missing.\<close>

fun latest :: "'v::linorder option \<Rightarrow> 'v option \<Rightarrow> 'v option" where
  "latest None y = y"
| "latest x None = x"
| "latest (Some x) (Some y) = Some (max x y)"

abbreviation seen_version :: "('id::linorder, 'url) membership \<Rightarrow> 'id \<Rightarrow> (u64 \<times> timestamp) option" where
  "seen_version m k \<equiv> map_option version (member_of m k)"

lemma values_of_id:
  "membership_wf m \<Longrightarrow> {s \<in> set (bt_values (members m)). node_id (info s) = k} = set_option (member_of m k)"
  by (auto simp: membership_wf_iff mem_bt_values)

lemma seen_version_merge_table:
  assumes "membership_wf m'"
  shows "seen_version (fold merge_member (bt_values (members m')) m) k =
    latest (seen_version m k) (seen_version m' k)"
  using mt.fold_merge_ver [of "bt_values (members m')" m k] values_of_id [OF assms, of k]
  by (cases "member_of m k"; cases "member_of m' k") (simp_all add: Let_def max.commute)

lemma seen_version_merge_other:
  "k \<noteq> node_id (info s) \<Longrightarrow> seen_version (merge_member s m) k = seen_version m k"
  by (simp add: member_of_merge)

lemma seen_version_handle_sync:
  assumes "handle_message ext now s fs (Sync (bt_values (members m))) = (s', fs', r)" "membership_wf m"
    and "k \<noteq> node_id (current_node s)"
  shows "seen_version (membership_cell s') k = latest (seen_version (membership_cell s) k) (seen_version m k)"
  using handle_message_membership [of ext now s fs "Sync (bt_values (members m))"] assms
  by (simp add: seen_version_merge_other seen_version_merge_table alive_now_def)

lemma latest_below: "latest a (latest b a) = latest b a"
  by (cases a; cases b) (auto simp: max_def)

lemma latest_mono:
  assumes "latest a b = b" "\<And>x. b = Some x \<Longrightarrow> \<exists>y. c = Some y \<and> x \<le> y"
  shows "latest a c = c"
  using assms by (cases a; cases b; cases c) (auto simp: max_def split: if_splits)

text \<open>Whoever has handled a table is at least as recent on every node of it.\<close>

lemma handle_sync_absorbs:
  assumes "handle_message ext now s fs (Sync (bt_values (members m))) = (s', fs', r)" "membership_wf m"
  shows "latest (seen_version m k) (seen_version (membership_cell s') k) = seen_version (membership_cell s') k"
proof (rule latest_mono)
  let ?f = "fold merge_member (bt_values (members m)) (membership_cell s)"
  show "latest (seen_version m k) (seen_version ?f k) = seen_version ?f k"
    unfolding seen_version_merge_table [OF assms(2)] by (rule latest_below)
  fix x
  assume "seen_version ?f k = Some x"
  then show "\<exists>y. seen_version (membership_cell s') k = Some y \<and> x \<le> y"
    using handle_message_membership [of ext now s fs "Sync (bt_values (members m))"] assms(1)
      mt.merge_mono [of ?f k _ "alive_now now (current_node s)"] by fastforce
qed

lemma handle_sync_reply:
  assumes "handle_message ext now s fs (Sync ms) = (s', fs', Inr v)"
  shows "v = Some (Sync (bt_values (members (membership_cell s'))))"
  using assms by (cases rule: handle_message_cases [of now s "Sync ms" ext fs]) auto

text \<open>A sync over a transport that delivers the reply.\<close>

lemma sync_delivered:
  assumes "retry_ok (ext_retry ext)" "ext_join ext (advertise_ctrl_url peer) ''gossip'' = Some u"
    and "\<And>attempt. net attempt u (Sync (bt_values (members (membership_cell s)))) =
      Some \<lparr>resp_status = 200, resp_json = Some reply\<rparr>"
  shows "sync ext net now peer s fs = sync_done ext now peer (Inr reply) s fs"
proof -
  let ?f = "\<lambda>attempt. transport_send ext (net attempt) (advertise_ctrl_url peer)
    (Sync (bt_values (members (membership_cell s))))"
  have f: "?f attempt = Inr reply" for attempt using assms(2,3) by (simp add: transport_send_def)
  then have "ext_retry ext DEFAULT_RETRIES ?f = Inr reply"
    using retry_okD [OF assms(1), of DEFAULT_RETRIES ?f]
    by (cases "ext_retry ext DEFAULT_RETRIES ?f") auto
  then show ?thesis by (simp add: sync_def send_with_retry_def)
qed

section \<open>Rounds of exchanges\<close>

abbreviation knows :: "('id::linorder, 'url) gossip_state \<times> file_system \<Rightarrow> 'id set" where
  "knows a \<equiv> dom (member_of (membership_cell (fst a)))"

text \<open>Each node of a list syncs with the same peer, one after the other.\<close>

fun sync_round ::
  "('id, 'url) gossip_ext \<Rightarrow> (nat \<Rightarrow> timestamp) \<Rightarrow> nat \<Rightarrow> ('id::linorder, 'url) gossip_state \<times> file_system \<Rightarrow>
   (('id, 'url) gossip_state \<times> file_system) list \<Rightarrow>
   (('id, 'url) gossip_state \<times> file_system) \<times> (('id, 'url) gossip_state \<times> file_system) list" where
  "sync_round ext t k h [] = (h, [])"
| "sync_round ext t k h (a # as) =
     (let (a', h') = sync_exchange ext (t (2 * k)) (t (2 * k + 1)) a h;
          (h'', as') = sync_round ext t (Suc k) h' as
      in (h'', a' # as'))"

abbreviation table_wf :: "('id::linorder, 'url) gossip_state \<times> file_system \<Rightarrow> bool" where
  "table_wf a \<equiv> membership_wf (membership_cell (fst a))"

lemma knows_handle_sync:
  assumes "handle_message ext now s fs (Sync (bt_values (members m))) = (s', fs', r)"
  shows "knows (s, fs) \<subseteq> knows (s', fs')" and "membership_wf m \<Longrightarrow> dom (member_of m) \<subseteq> knows (s', fs')"
proof -
  let ?ss = "bt_values (members m) @ [alive_now now (current_node s)]"
  have m': "membership_cell s' = fold merge_member ?ss (membership_cell s)"
    using handle_message_membership [of ext now s fs "Sync (bt_values (members m))"] assms by simp
  then show "knows (s, fs) \<subseteq> knows (s', fs')"
    using mt.fold_merge_mono [of "membership_cell s" _ _ ?ss] by fastforce
  have "seen_version (membership_cell s') k \<noteq> None" if "membership_wf m" "member_of m k = Some c" for k c
  proof -
    have "c \<in> {x \<in> set ?ss. node_id (info x) = k}"
      using that by (auto simp: membership_wf_iff mem_bt_values)
    then show ?thesis unfolding m' mt.fold_merge_ver by (auto simp: Let_def)
  qed
  then show "membership_wf m \<Longrightarrow> dom (member_of m) \<subseteq> knows (s', fs')" by fastforce
qed

lemma sync_exchange_knows:
  assumes ex: "sync_exchange ext tb ta a b = (a', b')" and ok: "can_persist ext b" "table_wf a" "table_wf b"
  shows "knows a \<union> knows b \<subseteq> knows b'" "knows b' \<subseteq> knows a'" "can_persist ext b'" "table_wf a'" "table_wf b'"
proof -
  let ?msg = "\<lambda>s. Sync (bt_values (members (membership_cell s)))"
  obtain sb fb r where h: "handle_message ext tb (fst b) (snd b) (?msg (fst a)) = (sb, fb, r)" by (metis prod_cases3)
  obtain v where "r = Inr v" using can_persist_answers(1) [OF _ h] ok(1) by auto
  then have r: "r = Inr (Some (?msg sb))" using handle_sync_reply h by blast
  obtain sa fa q where g: "handle_message ext ta (fst a) (snd a) (?msg sb) = (sa, fa, q)" by (metis prod_cases3)
  have eq: "a' = (sa, fa)" "b' = (sb, fb)" using ex by (auto simp: sync_exchange_def h r sync_done_def g)
  show "can_persist ext b'" using can_persist_answers(2) [OF _ h] ok(1) eq by simp
  show wb: "table_wf b'" using handle_message_wf [of "fst b" ext tb "snd b" "?msg (fst a)"] ok(3) h eq by simp
  show "table_wf a'" using handle_message_wf [of "fst a" ext ta "snd a" "?msg sb"] ok(2) g eq by simp
  show "knows a \<union> knows b \<subseteq> knows b'" using knows_handle_sync [OF h] ok(2) eq by auto
  show "knows b' \<subseteq> knows a'" using knows_handle_sync(2) [OF g] wb eq by auto
qed

lemma sync_round_knows:
  assumes "sync_round ext t k h as = (h', as')" "can_persist ext h" "table_wf h" "list_all table_wf as"
  shows "can_persist ext h' \<and> table_wf h' \<and> list_all table_wf as' \<and> knows h \<subseteq> knows h' \<and>
    (\<forall>a\<in>set as. knows a \<subseteq> knows h') \<and> (\<forall>a\<in>set as'. knows h \<subseteq> knows a)"
  using assms
proof (induction as arbitrary: k h h' as')
  case Nil
  then show ?case by simp
next
  case (Cons a as)
  obtain a1 h1 where e: "sync_exchange ext (t (2 * k)) (t (2 * k + 1)) a h = (a1, h1)" by (metis prod.exhaust)
  obtain h2 as2 where r: "sync_round ext t (Suc k) h1 as = (h2, as2)" by (metis prod.exhaust)
  have out: "h' = h2" "as' = a1 # as2" using Cons.prems(1) e r by auto
  note ex = sync_exchange_knows [OF e Cons.prems(2)]
  have "can_persist ext h2 \<and> table_wf h2 \<and> list_all table_wf as2 \<and> knows h1 \<subseteq> knows h2 \<and>
      (\<forall>a\<in>set as. knows a \<subseteq> knows h2) \<and> (\<forall>a\<in>set as2. knows h1 \<subseteq> knows a)"
    using Cons.prems ex by (intro Cons.IH [OF r]) auto
  then show ?case using ex Cons.prems(3,4) unfolding out by (simp add: subset_iff)
qed

section \<open>Properties\<close>

text \<open>
  One delivered \<open>sync\<close> makes two nodes agree: of every node but the caller itself, both end up with the
  same version, and of every third node it is the later of the two versions they had.
\<close>
lemma sync_exchange_converges:
  assumes "codec_ok (ext_codec ext)" and "cluster_run ext cluster_empty c"
    and nodes: "cl_nodes c i = Some a" "cl_nodes c j = Some b"
    and serve: "handle_message ext tb (cn_state b) (cn_files b)
      (Sync (bt_values (members (table_of a)))) = (sb, fb, Inr (Some reply))"
    and "retry_ok (ext_retry ext)" and "ext_join ext (advertise_ctrl_url peer) ''gossip'' = Some u"
    and "\<And>attempt. net attempt u (Sync (bt_values (members (table_of a)))) =
      Some \<lparr>resp_status = 200, resp_json = Some reply\<rparr>"
    and "sync ext net ta peer (cn_state a) (cn_files a) = (sa, fa, r)" and "k \<noteq> i"
  shows "seen_version (membership_cell sa) k = seen_version (membership_cell sb) k \<and>
    (k \<noteq> j \<longrightarrow> seen_version (membership_cell sb) k = latest (seen_version (table_of b) k) (seen_version (table_of a) k))"
proof -
  have inv: "cluster_inv ext c"
    using assms(1,2) by (intro cluster.reachable_inv) (auto simp: cluster_initial_def)
  note ga = cluster_invD(1) [OF inv nodes(1)] and gb = cluster_invD(1) [OF inv nodes(2)]
  have wf: "membership_wf (table_of a)" "membership_wf (membership_cell sb)"
    using ga gb handle_message_inv [OF gb serve] by (simp_all add: gossip_inv_def)
  have ids: "node_id (current_of a) = i" "node_id (current_of b) = j" using ga gb by (simp_all add: gossip_inv_def)
  have "sync_done ext ta peer (Inr (Sync (bt_values (members (membership_cell sb))))) (cn_state a) (cn_files a) = (sa, fa, r)"
    using sync_delivered [OF assms(6,7), where s = "cn_state a" and reply = reply and net = net and now = ta and fs = "cn_files a"]
      assms(8,9) handle_sync_reply [OF serve] by simp
  then have "\<exists>q. handle_message ext ta (cn_state a) (cn_files a) (Sync (bt_values (members (membership_cell sb)))) = (sa, fa, q)"
    by (auto simp: sync_done_def prod_eq_iff)
  then obtain q where q: "handle_message ext ta (cn_state a) (cn_files a)
      (Sync (bt_values (members (membership_cell sb)))) = (sa, fa, q)" ..
  have sb: "seen_version (membership_cell sb) k = latest (seen_version (table_of b) k) (seen_version (table_of a) k)" if "k \<noteq> j"
    using seen_version_handle_sync [OF serve wf(1)] that ids by simp
  have sa: "seen_version (membership_cell sa) k = latest (seen_version (table_of a) k) (seen_version (membership_cell sb) k)"
    using seen_version_handle_sync [OF q wf(2)] assms(10) ids by simp
  with sb handle_sync_absorbs [OF serve wf(1), of k] show ?thesis by simp
qed

lemma demo_transport:
  "retry_ok (ext_retry demo_ext)" "ext_join demo_ext u ''gossip'' = Some (u @ ''/gossip'')"
  using first_ok_retry_ok by (simp_all add: demo_ext_def)

lemma sync_exchange_converges_witness:
  "\<exists>f1 f2 sa fa r sb fb reply.
     handle_message demo_ext 7 (gossip_new (demo_id 2) (cfg_initial_peers demo_config) ''/d'') f2
       (Sync []) = (sb, fb, Inr (Some reply)) \<and>
     sync demo_ext (\<lambda>_ _ _. Some \<lparr>resp_status = 200, resp_json = Some reply\<rparr>) 8 (demo_id 2)
       (gossip_new (demo_id 1) (cfg_initial_peers demo_config) ''/d'') f1 = (sa, fa, r) \<and>
     seen_version (membership_cell sa) 2 = seen_version (membership_cell sb) 2 \<and>
     seen_version (membership_cell sb) 2 = Some (0, 7)"
proof -
  obtain f1 f2 where run: "cluster_run demo_ext cluster_empty (demo_pair f1 f2)"
    using demo_pair_run by blast
  let ?a = "started (demo_id 1) (cfg_initial_peers demo_config) ''/d'' f1"
  let ?b = "started (demo_id 2) (cfg_initial_peers demo_config) ''/d'' f2"
  have ab: "cl_nodes (demo_pair f1 f2) 1 = Some ?a" "cl_nodes (demo_pair f1 f2) 2 = Some ?b"
    by (simp_all add: demo_pair_def)
  have nil: "bt_values (members membership_default) = []"
    by (simp add: membership_default_def bt_values_def btree_simps)
  obtain sb fb reply where h: "handle_message demo_ext 7 (cn_state ?b) (cn_files ?b)
      (Sync (bt_values (members (table_of ?a)))) = (sb, fb, Inr (Some reply))"
    by (cases rule: handle_message_cases [of 7 "cn_state ?b" "Sync []" demo_ext "cn_files ?b"])
      (auto simp: nil is_dead_def member_of_merge merged_def alive_now_def)
  let ?net = "\<lambda>(_ :: nat) (_ :: string) (_ :: (nat, string) gossip_message). Some \<lparr>resp_status = 200, resp_json = Some reply\<rparr>"
  obtain sa fa r where s: "sync demo_ext ?net 8 (demo_id 2) (cn_state ?a) (cn_files ?a) = (sa, fa, r)"
    by (metis prod_cases3)
  have "seen_version (membership_cell sa) 2 = seen_version (membership_cell sb) 2"
    using sync_exchange_converges [OF demo_ext_codec_ok run ab h demo_transport refl s, of 2] by simp
  moreover have "membership_cell sb = merge_member (alive_now 7 (demo_id 2)) membership_default"
    using handle_message_membership [of demo_ext 7 "cn_state ?b" "cn_files ?b"
        "Sync (bt_values (members (table_of ?a)))"] unfolding h by (simp add: nil)
  then have "seen_version (membership_cell sb) 2 = Some (0, 7)"
    by (simp add: member_of_merge merged_def alive_now_def version_def)
  ultimately show ?thesis
    using h [unfolded started_simps nil] s [unfolded started_simps] by blast
qed

text \<open>
  C19: two rounds of anti-entropy with a common seed are enough for everyone to know everyone: when each
  node of a list syncs with the seed once and then once more, every node, the seed included, ends up
  knowing all that any of them knew before.
\<close>
theorem two_rounds_discover_everyone:
  assumes "can_persist ext h" and "table_wf h" and "list_all table_wf as"
    and "sync_round ext t 0 h as = (h1, as1)" and "sync_round ext t (length as) h1 as1 = (h2, as2)"
    and "x \<in> insert h2 (set as2)" and "y \<in> insert h (set as)"
  shows "knows y \<subseteq> knows x"
proof -
  note r1 = sync_round_knows [OF assms(4,1-3)]
  then have ok: "can_persist ext h1" "table_wf h1" "list_all table_wf as1" by simp_all
  have "knows y \<subseteq> knows h1" using r1 assms(7) by blast
  also have "\<dots> \<subseteq> knows x" using sync_round_knows [OF assms(5) ok] assms(6) by blast
  finally show ?thesis .
qed

lemma length_sync_round: "length (snd (sync_round ext t k h as)) = length as"
proof (induction as arbitrary: k h)
  case Nil
  then show ?case by simp
next
  case (Cons a as)
  show ?case by (simp add: Cons split_beta Let_def)
qed

definition demo_peer :: "nat \<Rightarrow> (nat, string) gossip_state \<times> file_system" where
  "demo_peer i = ((gossip_new (demo_node i 0) [] ''/d'')
     \<lparr>membership_cell := membership_from_iter [alive_now 5 (demo_node i 0)]\<rparr>, demo_fs)"

lemma demo_peer_ok: "can_persist demo_ext (demo_peer i)" "table_wf (demo_peer i)" "knows (demo_peer i) = {i}"
  by (auto simp: can_persist_def demo_peer_def demo_fs_def demo_ext_def membership_wf_iff alive_now_def
      demo_node_def split: if_splits)

theorem two_rounds_discover_everyone_witness:
  "\<exists>h1 as1 h2 as2. sync_round demo_ext int 0 (demo_peer 1) [demo_peer 2, demo_peer 3] = (h1, as1) \<and>
     sync_round demo_ext int 2 h1 as1 = (h2, as2) \<and> length as2 = 2 \<and>
     (\<forall>x\<in>insert h2 (set as2). {1, 2, 3} \<subseteq> knows x)"
proof -
  obtain h1 as1 where 1: "sync_round demo_ext int 0 (demo_peer 1) [demo_peer 2, demo_peer 3] = (h1, as1)"
    by (metis prod.exhaust)
  obtain h2 as2 where 2: "sync_round demo_ext int 2 h1 as1 = (h2, as2)" by (metis prod.exhaust)
  have know: "knows y \<subseteq> knows x" if "x \<in> insert h2 (set as2)" "y \<in> insert (demo_peer 1) (set [demo_peer 2, demo_peer 3])" for x y
    using two_rounds_discover_everyone [OF demo_peer_ok(1,2) _ 1 _ that] 2 demo_peer_ok(2) by (simp add: numeral_2_eq_2)
  have "{1, 2, 3} \<subseteq> knows x" if "x \<in> insert h2 (set as2)" for x
    using know [OF that, of "demo_peer 1"] know [OF that, of "demo_peer 2"] know [OF that, of "demo_peer 3"]
    unfolding demo_peer_ok(3) by simp
  moreover have "length as2 = 2"
    using length_sync_round [of demo_ext int 0 "demo_peer 1" "[demo_peer 2, demo_peer 3]"]
      length_sync_round [of demo_ext int 2 h1 as1] 1 2 by simp
  ultimately show ?thesis using 1 2 by blast
qed

end
