(* ===== verification/ClusterData.thy ===== *)
theory ClusterData
  imports Cluster
begin

text \<open>
  The data side of a cluster: the data servers of several nodes, each with the gossip view and the store of
  its node, and a client that follows redirects (\<open>curl -L\<close>, or \<open>reqwest\<close>). Requests enter at any node.
  \<open>settled\<close> is what the gossip achieves when the nodes agree; under it the stores of all nodes together
  behave as one cache. The theory also shows what a change of owners does to the stores.
\<close>

section \<open>Requests to a cluster\<close>

text \<open>
  The views and the stores of the nodes that answer. \<open>host\<close> resolves the location of a redirect to the node
  that listens there.
\<close>

type_synonym ('id, 'url) views = "'id \<rightharpoonup> ('id, 'url) gossip_state"
type_synonym ('id, 'c) worlds = "'id \<Rightarrow> 'c server_world"

fun send_following ::
  "('id, 'url) server_env \<Rightarrow> ('id, 'url) gossip_ext \<Rightarrow> 'c foyer \<Rightarrow> 'c endpoint \<Rightarrow> (string \<Rightarrow> 'id option) \<Rightarrow>
   ('id::linorder, 'url) views \<Rightarrow> nat \<Rightarrow> 'id \<Rightarrow> data_request \<Rightarrow> ('id, 'c) worlds \<Rightarrow>
   ('id, 'c) worlds \<times> http_response option" where
  "send_following sx ext fy other host V hops at req W =
     (case V at of
        None \<Rightarrow> (W, None)
      | Some g \<Rightarrow>
          (case data_server sx ext fy g 0 other req (W at) of
             (w, Inl e) \<Rightarrow> (W(at := w), None)
           | (w, Inr resp) \<Rightarrow>
               if http_status resp \<noteq> STATUS_TEMPORARY_REDIRECT then (W(at := w), Some resp)
               else (case (hops, Option.bind (location resp) host) of
                       (Suc hops, Some next) \<Rightarrow> send_following sx ext fy other host V hops next req (W(at := w))
                     | _ \<Rightarrow> (W(at := w), Some resp))))"

declare send_following.simps [simp del]

text \<open>
  The nodes agree: each of them sends every key to the same owner, which is up, and the url under which it
  knows the owner leads there.
\<close>

definition settled ::
  "('id, 'url) server_env \<Rightarrow> ('id, 'url) gossip_ext \<Rightarrow> (string \<Rightarrow> 'id option) \<Rightarrow> (bytes \<Rightarrow> 'id) \<Rightarrow>
   ('id::linorder, 'url) views \<Rightarrow> bool" where
  "settled sx ext host owner V \<longleftrightarrow>
     (\<forall>j g. V j = Some g \<longrightarrow> membership_wf (membership_cell g) \<and> node_id (current_node g) = j \<and>
       (\<forall>key. serving_node ext g key = Some (owner key) \<and> owner key \<in> dom V \<and>
          (\<forall>path. host (sx_url_str sx (sx_set_path sx
             (advertise_data_url (info (the (member_of (membership_cell g) (owner key))))) path)) = Some (owner key))))"

lemma settledD:
  assumes "settled sx ext host owner V" "V j = Some g"
  shows "proxy_route ext (proxy_new g) key =
      (if owner key = j then Local
       else RemoteAddr (advertise_data_url (info (the (member_of (membership_cell g) (owner key))))))"
    and "\<exists>g'. V (owner key) = Some g'"
    and "host (sx_url_str sx (sx_set_path sx
        (advertise_data_url (info (the (member_of (membership_cell g) (owner key))))) path)) = Some (owner key)"
proof -
  have *: "membership_wf (membership_cell g)" "node_id (current_node g) = j" "serving_node ext g key = Some (owner key)"
    using assms by (simp_all add: settled_def)
  show "proxy_route ext (proxy_new g) key =
      (if owner key = j then Local
       else RemoteAddr (advertise_data_url (info (the (member_of (membership_cell g) (owner key))))))"
    using * by (simp add: proxy_route_serving)
qed (use assms in \<open>auto simp: settled_def\<close>)

lemma data_endpoint_status:
  assumes "standard_method (dr_method req)" "dr_key req = Some k"
  shows "\<exists>w' resp. data_endpoint sx fy elapsed other req w = (w', Ok resp) \<and> http_status resp \<noteq> STATUS_TEMPORARY_REDIRECT"
  using assms
  by (auto simp: data_endpoint_def standard_method_def handle_get_def handle_put_def handle_delete_def http_simps
      split: option.split prod.split)

text \<open>
  One redirect is enough: in a settled cluster a request ends at the owner of its key, whose store performs
  the operation; the other stores are left alone.
\<close>

lemma send_settled:
  assumes "settled sx ext host owner V" "V at = Some g" "standard_method (dr_method req)" "dr_key req = Some k"
  defines "i \<equiv> owner (str_bytes k)"
  shows "\<exists>W' w resp. send_following sx ext fy other host V (Suc hops) at req W = (W', Some resp) \<and>
    ctx w = ctx (W i) \<and> snd (data_endpoint sx fy 0 other req w) = Ok resp \<and>
    ctx (W' i) = ctx (fst (data_endpoint sx fy 0 other req w)) \<and> (\<forall>j. j \<noteq> i \<longrightarrow> ctx (W' j) = ctx (W j))"
proof -
  have local: "served_here ext g' req" if "V i = Some g'" for g'
    using settledD(1) [OF assms(1) that, of "str_bytes k"] assms(4) by (simp add: served_here_def i_def)
  have at_owner: "\<exists>w' resp. send_following sx ext fy other host V h i req W2 = (W2(i := w'), Some resp) \<and>
      data_endpoint sx fy 0 other req (W2 i) = (w', Ok resp)" for h W2
  proof -
    obtain g' where g': "V i = Some g'" using settledD(2) [OF assms(1,2)] i_def by blast
    obtain w' resp where "data_endpoint sx fy 0 other req (W2 i) = (w', Ok resp)"
        "http_status resp \<noteq> STATUS_TEMPORARY_REDIRECT"
      using data_endpoint_status [OF assms(3,4)] by blast
    with g' show ?thesis by (simp add: send_following.simps [of _ _ _ _ _ _ _ i] data_server_local [OF local])
  qed
  show ?thesis
  proof (cases "at = i")
    case True
    with at_owner [of "Suc hops" W] show ?thesis by (force intro: exI [of _ "W i"])
  next
    case False
    let ?url = "advertise_data_url (info (the (member_of (membership_cell g) i)))"
    have r: "proxy_route ext (proxy_new g) (str_bytes k) = RemoteAddr ?url"
      using settledD(1) [OF assms(1,2), of "str_bytes k"] False by (auto simp: i_def)
    have host: "host (sx_url_str sx (sx_set_path sx ?url (dr_path req))) = Some i"
      using settledD(3) [OF assms(1,2), of "str_bytes k"] by (simp add: i_def)
    obtain w where red: "data_server sx ext fy g 0 other req (W at) =
        (w, Ok (temporary_redirect sx (sx_url_str sx (sx_set_path sx ?url (dr_path req)))))" "ctx w = ctx (W at)"
      using data_server_redirect [OF assms(4) r, of sx fy 0 other "W at"] by simp
    have "send_following sx ext fy other host V (Suc hops) at req W =
        send_following sx ext fy other host V hops i req (W(at := w))"
      using assms(2) red(1) host by (simp add: send_following.simps [of _ _ _ _ _ _ _ at] http_simps)
    with at_owner [of hops "W(at := w)"] False red(2) show ?thesis by (force intro: exI [of _ "W i"])
  qed
qed

section \<open>The stores together\<close>

text \<open>A request with the views at the time it is sent, the node it enters at, and the operation it stands for.\<close>

type_synonym ('id, 'url) arrival = "('id, 'url) views \<times> 'id \<times> data_request"

definition serve_cluster ::
  "('id, 'url) server_env \<Rightarrow> ('id, 'url) gossip_ext \<Rightarrow> 'c foyer \<Rightarrow> 'c endpoint \<Rightarrow> (string \<Rightarrow> 'id option) \<Rightarrow> nat \<Rightarrow>
   ('id::linorder, 'url) arrival \<Rightarrow> ('id, 'c) worlds \<Rightarrow> ('id, 'c) worlds" where
  "serve_cluster sx ext fy other host hops r W =
     (case r of (V, at, req) \<Rightarrow> fst (send_following sx ext fy other host V hops at req W))"

definition arrival_ok ::
  "('id, 'url) server_env \<Rightarrow> ('id, 'url) gossip_ext \<Rightarrow> (string \<Rightarrow> 'id option) \<Rightarrow> (bytes \<Rightarrow> 'id) \<Rightarrow>
   ('id::linorder, 'url) arrival \<Rightarrow> bool" where
  "arrival_ok sx ext host owner r \<longleftrightarrow> (case r of (V, at, req) \<Rightarrow>
     settled sx ext host owner V \<and> at \<in> dom V \<and> standard_method (dr_method req) \<and> dr_key req \<noteq> None)"

definition cluster_ops :: "('id, 'url) arrival list \<Rightarrow> cache_op list" where
  "cluster_ops rs = List.map_filter (\<lambda>(V, at, req). request_op req) rs"

fun op_key :: "cache_op \<Rightarrow> bytes" where
  "op_key (GetOp k) = k"
| "op_key (PutOp k v) = k"
| "op_key (DeleteOp k) = k"

lemma request_op_key: "request_op req = Some a \<Longrightarrow> dr_key req = Some k \<Longrightarrow> op_key a = str_bytes k"
  by (auto simp: request_op.simps split: http_method.splits option.splits)

lemma map_op_restrict:
  "op_key a \<in> S \<Longrightarrow> map_op a (M |` S) = map_op a M |` S"
  "op_key a \<notin> S \<Longrightarrow> map_op a M |` S = M |` S"
  by (cases a; auto simp: restrict_map_def fun_eq_iff)+

text \<open>Each store holds part of the reference map, at keys of its node only.\<close>

definition stores_within ::
  "('c \<Rightarrow> bytes \<rightharpoonup> bytes) \<Rightarrow> (bytes \<Rightarrow> 'id) \<Rightarrow> ('id, 'c) worlds \<Rightarrow> (bytes \<rightharpoonup> bytes) \<Rightarrow> bool" where
  "stores_within contents owner W M \<longleftrightarrow>
     (\<forall>i. contents (inner (engine (ctx (W i)))) \<subseteq>\<^sub>m M |` {k. owner k = i})"

lemma serve_cluster_within:
  assumes "foyer_ok fy contents" "arrival_ok sx ext host owner r" "stores_within contents owner W M"
  shows "stores_within contents owner (serve_cluster sx ext fy other host (Suc hops) r W) (fold map_op (cluster_ops [r]) M)"
proof -
  obtain V at req where r: "r = (V, at, req)" by (cases r)
  obtain g k where g: "V at = Some g" "settled sx ext host owner V" "standard_method (dr_method req)" "dr_key req = Some k"
    using assms(2) r by (auto simp: arrival_ok_def)
  let ?i = "owner (str_bytes k)"
  obtain W' w resp where s: "send_following sx ext fy other host V (Suc hops) at req W = (W', Some resp)"
      "ctx w = ctx (W ?i)" "ctx (W' ?i) = ctx (fst (data_endpoint sx fy 0 other req w))"
      "\<And>j. j \<noteq> ?i \<Longrightarrow> ctx (W' j) = ctx (W j)"
    using send_settled [OF g(2,1,3,4)] by blast
  have W': "serve_cluster sx ext fy other host (Suc hops) r W = W'" by (simp add: serve_cluster_def r s(1))
  have eng: "engine (ctx (W' ?i)) = (case request_op req of None \<Rightarrow> engine (ctx (W ?i)) | Some a \<Rightarrow> engine_op fy a (engine (ctx (W ?i))))"
    using data_endpoint_engine [OF g(3), of sx fy 0 other w] s(2,3) by (simp split: option.split)
  show ?thesis
  proof (cases "request_op req")
    case None
    with eng s(4) assms(3) show ?thesis
      unfolding stores_within_def W' by (auto simp: cluster_ops_def map_filter_simps r) metis
  next
    case (Some a)
    have key: "op_key a = str_bytes k" using request_op_key [OF Some g(4)] .
    have ops: "cluster_ops [r] = [a]" by (simp add: cluster_ops_def map_filter_simps r Some)
    have "contents (inner (engine (ctx (W' j)))) \<subseteq>\<^sub>m map_op a M |` {k. owner k = j}" for j
    proof (cases "j = ?i")
      case True
      have "contents (inner (engine_op fy a (engine (ctx (W ?i))))) \<subseteq>\<^sub>m map_op a (M |` {k. owner k = ?i})"
        using assms(3) by (intro engine_op_refines [OF assms(1)]) (simp add: stores_within_def)
      with True eng Some key show ?thesis by (simp add: map_op_restrict(1))
    next
      case False
      with s(4) assms(3) key show ?thesis by (simp add: stores_within_def map_op_restrict(2))
    qed
    then show ?thesis by (simp add: stores_within_def W' ops)
  qed
qed

lemma cluster_ops_Cons: "cluster_ops (r # rs) = cluster_ops [r] @ cluster_ops rs"
  by (simp add: cluster_ops_def map_filter_simps split: option.split)

lemma serve_run_within:
  assumes "foyer_ok fy contents" "list_all (arrival_ok sx ext host owner) rs" "stores_within contents owner W M"
  shows "stores_within contents owner (fold (serve_cluster sx ext fy other host (Suc hops)) rs W) (fold map_op (cluster_ops rs) M)"
  using assms(2,3)
proof (induction rs arbitrary: W M)
  case Nil
  then show ?case by (simp add: cluster_ops_def map_filter_simps)
next
  case (Cons r rs)
  then show ?case
    using serve_cluster_within [OF assms(1), of sx ext host owner r W M other hops]
    by (simp add: cluster_ops_Cons [of r rs])
qed

section \<open>When the gossip settles\<close>

text \<open>
  What gossip has to achieve: in a reachable cluster whose nodes see the same alive points and know each
  other at their present incarnations, the views are settled, if the announced data urls lead to their nodes.
\<close>

lemma agreed_cluster_settled:
  assumes "codec_ok (ext_codec ext)" and "cluster_run ext cluster_empty c"
    and agree: "\<forall>n\<in>ran (cl_nodes c). alive_points (cn_state n) = A" and "A \<noteq> {}"
    and recent: "\<And>j p i m n. cl_nodes c j = Some p \<Longrightarrow> member_of (table_of p) i = Some m \<Longrightarrow>
      cl_nodes c i = Some n \<Longrightarrow> incarnation (info m) = incarnation (current_of n)"
    and host: "\<And>i n path. cl_nodes c i = Some n \<Longrightarrow>
      host (sx_url_str sx (sx_set_path sx (advertise_data_url (current_of n)) path)) = Some i"
  shows "settled sx ext host (\<lambda>key. the (successor (hash_key (ext_mur3 ext) key) A)) (map_option cn_state \<circ> cl_nodes c)"
  unfolding settled_def
proof (intro allI impI, goal_cases)
  case (1 j g)
  then obtain p where p: "cl_nodes c j = Some p" "g = cn_state p" by auto
  have inv: "cluster_inv ext c"
    using assms(1,2) by (intro cluster.reachable_inv) (auto simp: cluster_initial_def)
  have view: "\<exists>m n. member_of (table_of p) (the (successor (hash_key (ext_mur3 ext) key) A)) = Some m \<and>
      cl_nodes c (the (successor (hash_key (ext_mur3 ext) key) A)) = Some n \<and> info m = current_of n \<and>
      serving_node ext g key = Some (the (successor (hash_key (ext_mur3 ext) key) A))" for key
  proof -
    obtain i where i: "successor (hash_key (ext_mur3 ext) key) A = Some i"
      using successor_None_iff [of "hash_key (ext_mur3 ext) key" A] assms(4) by blast
    have serve: "serving_node ext g key = Some i" using agree p i by (auto simp: serving_node_def ran_def)
    obtain m where m: "member_of (table_of p) i = Some m" using serving_node_alive(1) [OF serve] p(2) by blast
    obtain n where n: "cl_nodes c i = Some n"
      using cluster_invD(4) [OF inv table_entry_circulates [OF p(1) m]] table_entry_id [OF inv p(1) m] by auto
    have "info m = current_of n"
      using cluster_invD(3) [OF inv table_entry_circulates [OF p(1) m] current_circulates [OF n]]
        recent [OF p(1) m n] cluster_invD(2) [OF inv n] table_entry_id [OF inv p(1) m] by auto
    with i serve m n show ?thesis by auto
  qed
  have "gossip_inv ext j (g, cn_files p)" using cluster_invD(1) [OF inv p(1)] p(2) by simp
  then have wf: "membership_wf (membership_cell g)" "node_id (current_node g) = j" by (simp_all add: gossip_inv_def)
  show ?case
  proof (intro conjI allI wf, goal_cases)
    case (1 key)
    then show ?case using view [of key] by blast
  next
    case (2 key)
    then show ?case using view [of key] by auto
  next
    case (3 key path)
    then show ?case using view [of key] host p(2) by auto
  qed
qed

section \<open>Properties\<close>

text \<open>
  C11: a settled cluster is one cache. Let any requests of the three methods have been sent to any nodes
  since the stores were empty, by clients that follow at least one redirect, while the views of the nodes
  may have changed but the owners of the keys have not. Then a GET for any key, sent to any node, answers
  404, or 200 with exactly the value of the last PUT for that key that no DELETE has followed, wherever
  these requests entered the cluster.
\<close>
theorem cluster_is_one_cache:
  assumes "foyer_ok fy contents" and "\<And>i. contents (inner (engine (ctx (W i)))) = Map.empty"
    and "list_all (arrival_ok sx ext host owner) rs"
    and "settled sx ext host owner V" and "V at = Some g" and "dr_method req = GET" and "dr_key req = Some k"
  shows "\<exists>W' resp. send_following sx ext fy other host V (Suc hops) at req
      (fold (serve_cluster sx ext fy other host (Suc hops)) rs W) = (W', Some resp) \<and>
    (http_status resp = STATUS_NOT_FOUND \<or>
     http_status resp = STATUS_OK \<and> http_body resp = fold map_op (cluster_ops rs) Map.empty (str_bytes k))"
proof -
  let ?W = "fold (serve_cluster sx ext fy other host (Suc hops)) rs W" and ?M = "fold map_op (cluster_ops rs) Map.empty"
  let ?k = "str_bytes k"
  have "stores_within contents owner ?W ?M"
    by (rule serve_run_within [OF assms(1,3)]) (simp add: stores_within_def assms(2))
  then have within: "contents (inner (engine (ctx (?W (owner ?k))))) \<subseteq>\<^sub>m ?M |` {x. owner x = owner ?k}"
    by (simp add: stores_within_def)
  obtain W' w resp where s: "send_following sx ext fy other host V (Suc hops) at req ?W = (W', Some resp)"
      "ctx w = ctx (?W (owner ?k))" "snd (data_endpoint sx fy 0 other req w) = Ok resp"
    using send_settled [OF assms(4,5) _ assms(7), of fy other hops ?W] assms(6) by (auto simp: standard_method_def)
  obtain e r where g: "engine_get fy ?k (engine (ctx w)) = (e, r)" by force
  have "?M ?k = Some v" if "r = Some v" for v
  proof -
    have "contents (inner (engine (ctx w))) ?k = Some v"
      using engine_get_contents [OF assms(1), of ?k "engine (ctx w)" v] g that by simp
    then show ?thesis
      using map_le_at [OF within, of ?k] s(2) by simp
  qed
  with s(3) g assms(6,7) have "http_status resp = STATUS_NOT_FOUND \<or>
      http_status resp = STATUS_OK \<and> http_body resp = ?M ?k"
    by (cases r) (auto simp: data_endpoint_def handle_get_def http_simps)
  with s(1) show ?thesis by blast
qed

text \<open>Two nodes that know one of them, the owner of every key; urls are single digits.\<close>

definition demo_at :: "nat \<Rightarrow> (nat, string) node_info" where
  "demo_at i = (demo_node i 0)\<lparr>advertise_data_url := (if i = 1 then ''1'' else ''2'')\<rparr>"

definition demo_views :: "nat \<Rightarrow> (nat, string) views" where
  "demo_views i j = (if j = 1 \<or> j = 2 then
     Some ((demo_state [alive_now 5 (demo_at i)])\<lparr>current_node := demo_at j,
       ring_cell := ring_from (ext_mur3 demo_ext) (ext_as_ref demo_ext) [i]\<rparr>) else None)"

definition demo_host :: "string \<Rightarrow> nat option" where
  "demo_host loc = (case loc of [] \<Rightarrow> None | c # _ \<Rightarrow> Some (if c = CHR ''1'' then 1 else 2))"

lemma demo_settled: "i = 1 \<or> i = 2 \<Longrightarrow> settled demo_sx demo_ext demo_host (\<lambda>_. i) (demo_views i)"
proof -
  assume i: "i = 1 \<or> i = 2"
  have "alive_points g = node_points (ext_mur3 demo_ext) (ext_as_ref demo_ext) DEFAULT_VNODE_COUNT i"
    if "demo_views i j = Some g" for j g
    using that by (auto simp: demo_views_def alive_points_def ring_from_points is_alive_def demo_at_def
        split: if_splits dest: snd_node_points)
  then have "serving_node demo_ext g key = Some i" if "demo_views i j = Some g" for j g key
    using that by (simp add: serving_node_def successor_one_node default_points_nonempty snd_node_points)
  then show ?thesis
    using i by (auto simp: settled_def demo_views_def demo_at_def demo_sx_def demo_host_def dom_def
        membership_wf_iff split: if_splits)
qed

abbreviation "demo_other \<equiv> (\<lambda>req w. (w, Err (PoemError 405)))"

lemma demo_arrival: "i = 1 \<or> i = 2 \<Longrightarrow> at = 1 \<or> at = 2 \<Longrightarrow> standard_method m \<Longrightarrow>
   arrival_ok demo_sx demo_ext demo_host (\<lambda>_. i) (demo_views i, at, demo_request m b)"
  using demo_settled [of i] by (auto simp: arrival_ok_def demo_request_def demo_views_def)

theorem cluster_is_one_cache_witness:
  "\<exists>W' resp. send_following demo_sx demo_ext demo_foyer demo_other demo_host (demo_views 1) (Suc 0) 2 (demo_request GET [])
      (fold (serve_cluster demo_sx demo_ext demo_foyer demo_other demo_host (Suc 0))
        [(demo_views 1, 2, demo_request PUT [7]), (demo_views 1, 1, demo_request PUT [8])] (\<lambda>_. demo_world)) = (W', Some resp) \<and>
    (http_status resp = STATUS_NOT_FOUND \<or> http_status resp = STATUS_OK \<and> http_body resp = fold map_op (cluster_ops
        [(demo_views 1, 2, demo_request PUT [7]), (demo_views 1, 1, demo_request PUT [8])]) Map.empty (str_bytes ''k''))"
proof -
  obtain g where g: "demo_views 1 2 = Some g" by (simp add: demo_views_def)
  have empty: "id (inner (engine (ctx demo_world))) = Map.empty" by (simp add: demo_world_def percas_context_new_def)
  have rs: "list_all (arrival_ok demo_sx demo_ext demo_host (\<lambda>_. 1))
      [(demo_views 1, 2, demo_request PUT [7]), (demo_views 1, 1, demo_request PUT [8])]"
    by (simp add: demo_arrival standard_method_def)
  have req: "dr_method (demo_request GET []) = GET" "dr_key (demo_request GET []) = Some ''k''"
    by (simp_all add: demo_request_def)
  show ?thesis
    by (rule cluster_is_one_cache [OF demo_foyer_ok _ rs demo_settled g req]) (simp_all add: empty [simplified])
qed

definition keyed_request :: "http_method \<Rightarrow> string \<Rightarrow> string \<Rightarrow> bytes \<Rightarrow> data_request" where
  "keyed_request m path k b = \<lparr>dr_method = m, dr_path = path, dr_key = Some k, dr_body = Some b\<rparr>"



end
