(* ===== verification/Utf8.thy ===== *)
theory Utf8
  imports Prelude
begin

text \<open>
  The text functions of Rust's standard library that the developer tasks use. A \<open>string\<close> is the list of
  its UTF-8 bytes, one \<open>char\<close> per byte, and so is the output of a process, which need not be valid:
  \<open>String::from_utf8\<close>, \<open>String::from_utf8_lossy\<close>, \<open>str::trim\<close>, \<open>str::find\<close> of a one-byte character,
  \<open>is_char_boundary\<close> and \<open>String::replace_range\<close>, with their panics.
\<close>

section \<open>Sequences\<close>

definition is_cont :: "char \<Rightarrow> bool" where
  "is_cont c \<longleftrightarrow> 128 \<le> (of_char c :: nat) \<and> (of_char c :: nat) < 192"

text \<open>How many bytes follow a leading byte; \<open>None\<close> for a byte that cannot lead.\<close>

definition utf8_need :: "nat \<Rightarrow> nat option" where
  "utf8_need b =
     (if b < 128 then Some 0 else if b < 194 then None else if b < 224 then Some 1
      else if b < 240 then Some 2 else if b < 245 then Some 3 else None)"

text \<open>The second byte is restricted after some leading bytes (no overlong forms, no surrogates).\<close>

definition second_ok :: "nat \<Rightarrow> char \<Rightarrow> bool" where
  "second_ok b c \<longleftrightarrow>
     (if b = 224 then 160 else if b = 240 then 144 else 128) \<le> (of_char c :: nat) \<and>
     (of_char c :: nat) \<le> (if b = 237 then 159 else if b = 244 then 143 else 191)"

text \<open>How many of the \<open>n\<close> bytes a leading byte needs are there.\<close>

fun tail_len :: "nat \<Rightarrow> nat \<Rightarrow> string \<Rightarrow> nat" where
  "tail_len b 0 cs = 0"
| "tail_len b (Suc n) [] = 0"
| "tail_len b (Suc n) (c # cs) = (if second_ok b c then Suc (length (takeWhile is_cont (take n cs))) else 0)"

lemma length_takeWhile_take: "length (takeWhile P (take n xs)) \<le> n"
  by (metis length_take length_takeWhile_le min.cobounded2 order_trans)

lemma tail_len_le: "tail_len b n cs \<le> n"
  by (induction b n cs rule: tail_len.induct) (simp_all add: length_takeWhile_take)

lemma tail_len_le_length: "tail_len b n cs \<le> length cs"
  by (induction b n cs rule: tail_len.induct) (auto intro: order_trans [OF length_takeWhile_le])

section \<open>Decoding\<close>

definition REPLACEMENT_CHARACTER :: string where
  "REPLACEMENT_CHARACTER = map char_of [239, 191, 189 :: nat]"

text \<open>Each maximal invalid part becomes one replacement character.\<close>

function from_utf8_lossy :: "string \<Rightarrow> string" where
  "from_utf8_lossy [] = []"
| "from_utf8_lossy (c # cs) =
     (case utf8_need (of_char c) of
        None \<Rightarrow> REPLACEMENT_CHARACTER @ from_utf8_lossy cs
      | Some n \<Rightarrow>
          (let k = tail_len (of_char c) n cs in
           (if k = n then c # take k cs else REPLACEMENT_CHARACTER) @ from_utf8_lossy (drop k cs)))"
  by pat_completeness auto
termination by (relation "measure length") auto

function utf8_valid :: "string \<Rightarrow> bool" where
  "utf8_valid [] \<longleftrightarrow> True"
| "utf8_valid (c # cs) \<longleftrightarrow>
     (case utf8_need (of_char c) of
        None \<Rightarrow> False
      | Some n \<Rightarrow> tail_len (of_char c) n cs = n \<and> utf8_valid (drop n cs))"
  by pat_completeness auto
termination by (relation "measure length") auto

definition from_utf8 :: "string \<Rightarrow> string option" where
  "from_utf8 raw = (if utf8_valid raw then Some raw else None)"

lemma from_utf8_lossy_valid: "utf8_valid s \<Longrightarrow> from_utf8_lossy s = s"
  by (induction s rule: utf8_valid.induct) (auto split: option.splits)

text \<open>A complete sequence stays complete whatever follows it.\<close>

lemma takeWhile_all_iff: "length (takeWhile P (take n xs)) = n \<longleftrightarrow> n \<le> length xs \<and> list_all P (take n xs)"
proof (induction xs arbitrary: n)
  case Nil
  then show ?case by auto
next
  case (Cons x xs)
  then show ?case by (cases n) auto
qed

lemma tail_len_append:
  assumes "tail_len b n cs = n"
  shows "tail_len b n (take n cs @ ys) = n"
proof (cases n)
  case (Suc m)
  with assms obtain d ds where cs: "cs = d # ds" by (cases cs) auto
  have "second_ok b d" "length (takeWhile is_cont (take m ds)) = m"
    using assms by (auto simp: Suc cs split: if_splits)
  then show ?thesis by (auto simp: Suc cs takeWhile_all_iff)
qed simp

lemma utf8_valid_replacement [simp]: "utf8_valid (REPLACEMENT_CHARACTER @ s) = utf8_valid s"
  by (simp add: REPLACEMENT_CHARACTER_def utf8_need_def second_ok_def is_cont_def numeral_2_eq_2)

lemma utf8_valid_lossy: "utf8_valid (from_utf8_lossy s)"
proof (induction s rule: from_utf8_lossy.induct)
  case 1
  then show ?case by simp
next
  case (2 c cs)
  show ?case
  proof (cases "utf8_need (of_char c)")
    case None
    with 2 show ?thesis by simp
  next
    case (Some n)
    let ?k = "tail_len (of_char c) n cs"
    have IH: "utf8_valid (from_utf8_lossy (drop ?k cs))" using 2 Some by blast
    show ?thesis
    proof (cases "?k = n")
      case True
      then have "length (take n cs) = n" using tail_len_le_length [of "of_char c" n cs] by simp
      with True Some IH show ?thesis by (simp add: Let_def tail_len_append)
    next
      case False
      with Some IH show ?thesis by (simp add: Let_def)
    qed
  qed
qed

section \<open>Trimming and searching\<close>

text \<open>The characters with the property \<open>White_Space\<close>, as byte sequences.\<close>

definition WHITE_SPACE :: "string list" where
  "WHITE_SPACE = map (map char_of)
     ([[9], [10], [11], [12], [13], [32], [194, 133], [194, 160], [225, 154, 128]] @
      map (\<lambda>b. [226, 128, b]) [128..<139] @
      [[226, 128, 168], [226, 128, 169], [226, 128, 175], [226, 129, 159], [227, 128, 128 :: nat]])"

definition starts_with :: "string \<Rightarrow> string \<Rightarrow> bool" where
  "starts_with s w \<longleftrightarrow> w \<noteq> [] \<and> take (length w) s = w"

lemma starts_with_shorter: "starts_with s w \<Longrightarrow> length (drop (length w) s) < length s"
  by (cases s; cases w) (auto simp: starts_with_def)

function strip_start :: "string list \<Rightarrow> string \<Rightarrow> string" where
  "strip_start ws s =
     (case List.find (starts_with s) ws of None \<Rightarrow> s | Some w \<Rightarrow> strip_start ws (drop (length w) s))"
  by pat_completeness auto
termination
  by (relation "measure (\<lambda>(ws, s). length s)") (auto simp: find_Some_iff dest: starts_with_shorter)

declare strip_start.simps [simp del]

definition trim :: "string \<Rightarrow> string" where
  "trim s = rev (strip_start (map rev WHITE_SPACE) (rev (strip_start WHITE_SPACE s)))"

lemma strip_start_stuck: "\<forall>w\<in>set ws. \<not> starts_with s w \<Longrightarrow> strip_start ws s = s"
  by (subst strip_start.simps) (simp add: find_None_iff [THEN iffD2])

lemma strip_start_result: "w \<in> set ws \<Longrightarrow> \<not> starts_with (strip_start ws s) w"
proof (induction ws s rule: strip_start.induct)
  case (1 ws s)
  show ?case
  proof (cases "List.find (starts_with s) ws")
    case None
    then have "strip_start ws s = s" by (subst strip_start.simps) simp
    with None 1 show ?thesis by (simp add: find_None_iff)
  next
    case (Some v)
    with 1 show ?thesis by (subst strip_start.simps) simp
  qed
qed

text \<open>\<open>str::find\<close> of an ASCII character: the byte index of its first occurrence.\<close>

fun find_char :: "char \<Rightarrow> string \<Rightarrow> nat option" where
  "find_char c [] = None"
| "find_char c (d # ds) = (if d = c then Some 0 else map_option Suc (find_char c ds))"

section \<open>Replacing a range of a string\<close>

definition is_char_boundary :: "string \<Rightarrow> nat \<Rightarrow> bool" where
  "is_char_boundary s i \<longleftrightarrow> i = 0 \<or> i = length s \<or> i < length s \<and> \<not> is_cont (s ! i)"

text \<open>\<open>None\<close> is the panic: a bound inside a character, past the end, or bounds out of order.\<close>

definition replace_range :: "string \<Rightarrow> nat \<Rightarrow> nat \<Rightarrow> string \<Rightarrow> string option" where
  "replace_range s a b new =
     (if is_char_boundary s a \<and> is_char_boundary s b \<and> a \<le> b
      then Some (take a s @ new @ drop b s) else None)"

lemma boundary_le: "is_char_boundary s i \<Longrightarrow> i \<le> length s"
  by (auto simp: is_char_boundary_def)

end
