(* ===== verification/ConfigSchema.thy ===== *)
theory ConfigSchema
  imports Config BTree Utf8 Json
begin

text \<open>
  The schema test of \<open>crates/core/src/config.rs\<close> (module \<open>codegen\<close>), which keeps the table of environment
  variables in step with the configuration: it walks through the JSON schema that \<open>schemars\<close> derives from
  \<open>Config\<close>, collects the options it finds and compares them with the table. The schema is generated code
  and an argument here; objects are association lists in the order in which \<open>serde_json\<close> iterates them. The
  walk follows references, so that it need not end; it is given fuel, and the properties show when enough
  fuel exists and what the collected options are.
\<close>

section \<open>Collected options\<close>

datatype owned_option_entry =
  OwnedOptionEntry (own_env_name: string) (own_ent_path: string) (own_ent_type: string)

type_synonym entry_map = "(string, owned_option_entry) btree_map"

definition option_eq_owned :: "option_entry \<Rightarrow> owned_option_entry \<Rightarrow> bool" where
  "option_eq_owned e o' \<longleftrightarrow>
     env_name e = own_env_name o' \<and> ent_path e = own_ent_path o' \<and> ent_type e = own_ent_type o'"

definition owned_eq_option :: "owned_option_entry \<Rightarrow> option_entry \<Rightarrow> bool" where
  "owned_eq_option o' e \<longleftrightarrow>
     own_env_name o' = env_name e \<and> own_ent_path o' = ent_path e \<and> own_ent_type o' = ent_type e"

section \<open>The walk\<close>

text \<open>The slice \<open>&r["#/$defs/".len()..]\<close> panics when eight bytes do not end at a character of \<open>r\<close>.\<close>

definition fetch_ref_object :: "object \<Rightarrow> string \<Rightarrow> panic + object" where
  "fetch_ref_object defs r =
     (let n = length ''#/$defs/'' in
      if is_char_boundary r n then panic_bind (get_unwrap defs (drop n r)) as_object
      else Err SliceOutOfBounds)"

text \<open>The arm for a type that is neither \<open>null\<close> nor \<open>object\<close>.\<close>

definition record_option :: "string \<Rightarrow> string \<Rightarrow> entry_map \<Rightarrow> panic + entry_map" where
  "record_option prefix ty result =
     (case bt_get result prefix of
        None \<Rightarrow> Ok (bt_insert prefix (OwnedOptionEntry (env_name_of prefix) prefix ty) result)
      | Some ent \<Rightarrow> if own_ent_type ent = ty then Ok result else Err AssertFailed)"

text \<open>\<open>if prefix.is_empty() { k.clone() } else { format!("{prefix}.{k}") }\<close>\<close>

definition join_prefix :: "string \<Rightarrow> string \<Rightarrow> string" where
  "join_prefix prefix k = (if prefix = [] then k else prefix @ ''.'' @ k)"

text \<open>The types of an object: an array of them or a single one.\<close>

fun type_list :: "json \<Rightarrow> json list" where
  "type_list (JArr types) = types"
| "type_list ty = [ty]"

text \<open>A walk with fuel: \<open>None\<close> when the fuel is used up; a panic ends it. \<open>for\<close> threads the map through.\<close>

type_synonym walk = "(panic + entry_map) option"

fun for_each :: "('a \<Rightarrow> entry_map \<Rightarrow> walk) \<Rightarrow> 'a list \<Rightarrow> entry_map \<Rightarrow> walk" where
  "for_each f [] result = Some (Ok result)"
| "for_each f (x # xs) result =
     (case f x result of
        None \<Rightarrow> None
      | Some (Inl p) \<Rightarrow> Some (Err p)
      | Some (Inr result') \<Rightarrow> for_each f xs result')"

fun unwrap_then :: "panic + 'a \<Rightarrow> ('a \<Rightarrow> walk) \<Rightarrow> walk" where
  "unwrap_then (Inl p) f = Some (Err p)"
| "unwrap_then (Inr x) f = f x"

text \<open>\<open>dump_config_schema(prefix, defs, v.as_object().unwrap(), result)\<close>, given the call.\<close>

definition on_object :: "(object \<Rightarrow> entry_map \<Rightarrow> walk) \<Rightarrow> json \<Rightarrow> entry_map \<Rightarrow> walk" where
  "on_object f v result = unwrap_then (as_object v) (\<lambda>obj. f obj result)"

fun dump_config_schema :: "nat \<Rightarrow> string \<Rightarrow> object \<Rightarrow> object \<Rightarrow> entry_map \<Rightarrow> walk" where
  "dump_config_schema 0 prefix defs obj result = None"
| "dump_config_schema (Suc n) prefix defs obj result =
     (case map_of obj ''$ref'' of
        Some r \<Rightarrow>
          unwrap_then (panic_bind (as_str r) (fetch_ref_object defs))
            (\<lambda>obj'. dump_config_schema n prefix defs obj' result)
      | None \<Rightarrow>
          case map_of obj ''oneOf'' of
            Some one_of \<Rightarrow>
              unwrap_then (as_array one_of)
                (\<lambda>vs. for_each (on_object (dump_config_schema n prefix defs)) vs result)
          | None \<Rightarrow>
              case map_of obj ''anyOf'' of
                Some any_of \<Rightarrow>
                  unwrap_then (as_array any_of)
                    (\<lambda>vs. for_each (on_object (dump_config_schema n prefix defs)) vs result)
              | None \<Rightarrow>
                  unwrap_then (get_unwrap obj ''type'')
                    (\<lambda>ty. for_each
                      (\<lambda>ty result. unwrap_then (as_str ty)
                        (\<lambda>ty. if ty = ''null'' then Some (Ok result)
                          else if ty = ''object'' then
                            unwrap_then (panic_bind (get_unwrap obj ''properties'') as_object)
                              (\<lambda>props. for_each
                                (\<lambda>(k, v). on_object (dump_config_schema n (join_prefix prefix k) defs) v)
                                props result)
                          else Some (record_option prefix ty result)))
                      (type_list ty) result))"

text \<open>
  The test. \<open>assert_that!\<close> with \<open>container_eq\<close> fails unless the collected entries, in the order of their
  paths, equal the table entry by entry.
\<close>

definition test_config_schema :: "nat \<Rightarrow> json \<Rightarrow> (panic + unit) option" where
  "test_config_schema n schema =
     (case panic_bind (as_object schema)
         (\<lambda>obj. panic_bind (panic_bind (get_unwrap obj ''$defs'') as_object) (\<lambda>defs. Ok (defs, obj))) of
        Inl p \<Rightarrow> Some (Err p)
      | Inr (defs, obj) \<Rightarrow>
          map_option (\<lambda>r. panic_bind r (\<lambda>result.
              if list_all2 owned_eq_option (bt_values result) known_option_entries then Ok ()
              else Err AssertFailed))
            (dump_config_schema n '''' defs obj bt_new))"

section \<open>What a schema declares\<close>

text \<open>
  The options of a schema, independent of the walk: the option at \<open>path\<close> has the type \<open>ty\<close> below the object
  \<open>obj\<close>, which stands at \<open>prefix\<close>.
\<close>

abbreviation plain :: "object \<Rightarrow> bool" where
  "plain obj \<equiv> map_of obj ''$ref'' = None \<and> map_of obj ''oneOf'' = None \<and> map_of obj ''anyOf'' = None"

definition has_type :: "object \<Rightarrow> string \<Rightarrow> bool" where
  "has_type obj ty \<longleftrightarrow> (\<exists>t. map_of obj ''type'' = Some t \<and> JStr ty \<in> set (type_list t))"

inductive schema_option :: "object \<Rightarrow> string \<Rightarrow> object \<Rightarrow> string \<Rightarrow> string \<Rightarrow> bool" for defs where
  by_ref: "map_of obj ''$ref'' = Some (JStr r) \<Longrightarrow> fetch_ref_object defs r = Ok obj' \<Longrightarrow>
    schema_option defs prefix obj' path ty \<Longrightarrow> schema_option defs prefix obj path ty"
| by_one_of: "map_of obj ''$ref'' = None \<Longrightarrow> map_of obj ''oneOf'' = Some (JArr vs) \<Longrightarrow> JObj obj' \<in> set vs \<Longrightarrow>
    schema_option defs prefix obj' path ty \<Longrightarrow> schema_option defs prefix obj path ty"
| by_any_of: "map_of obj ''$ref'' = None \<Longrightarrow> map_of obj ''oneOf'' = None \<Longrightarrow>
    map_of obj ''anyOf'' = Some (JArr vs) \<Longrightarrow> JObj obj' \<in> set vs \<Longrightarrow>
    schema_option defs prefix obj' path ty \<Longrightarrow> schema_option defs prefix obj path ty"
| by_property: "plain obj \<Longrightarrow> has_type obj ''object'' \<Longrightarrow> map_of obj ''properties'' = Some (JObj props) \<Longrightarrow>
    (k, JObj obj') \<in> set props \<Longrightarrow>
    schema_option defs (join_prefix prefix k) obj' path ty \<Longrightarrow> schema_option defs prefix obj path ty"
| leaf: "plain obj \<Longrightarrow> has_type obj ty \<Longrightarrow> ty \<noteq> ''null'' \<Longrightarrow> ty \<noteq> ''object'' \<Longrightarrow>
    schema_option defs path obj path ty"

inductive_cases schema_optionE: "schema_option defs prefix obj path ty"

text \<open>The objects that the walk visits directly from an object.\<close>

inductive visits :: "object \<Rightarrow> object \<Rightarrow> object \<Rightarrow> bool" for defs where
  "map_of obj ''$ref'' = Some (JStr r) \<Longrightarrow> fetch_ref_object defs r = Ok obj' \<Longrightarrow> visits defs obj' obj"
| "map_of obj ''oneOf'' = Some (JArr vs) \<Longrightarrow> JObj obj' \<in> set vs \<Longrightarrow> visits defs obj' obj"
| "map_of obj ''anyOf'' = Some (JArr vs) \<Longrightarrow> JObj obj' \<in> set vs \<Longrightarrow> visits defs obj' obj"
| "map_of obj ''properties'' = Some (JObj props) \<Longrightarrow> (k, JObj obj') \<in> set props \<Longrightarrow> visits defs obj' obj"

inductive_simps visits_ref: "visits defs obj' [(''$ref'', v)]"

section \<open>What the walk collects\<close>

definition well_named :: "entry_map \<Rightarrow> bool" where
  "well_named m \<longleftrightarrow> (\<forall>path e. bt_get m path = Some e \<longrightarrow>
     own_env_name e = env_name_of path \<and> own_ent_path e = path)"

definition collected :: "entry_map \<Rightarrow> (string \<times> string) set" where
  "collected m = {(path, ty). \<exists>e. bt_get m path = Some e \<and> own_ent_type e = ty}"

definition adds :: "entry_map \<Rightarrow> (string \<times> string) set \<Rightarrow> entry_map \<Rightarrow> bool" where
  "adds m S m' \<longleftrightarrow> (well_named m \<longrightarrow> well_named m' \<and> collected m' = collected m \<union> S)"

lemma adds_refl [simp]: "adds m {} m"
  by (simp add: adds_def)

lemma adds_trans: "adds m S m' \<Longrightarrow> adds m' T m'' \<Longrightarrow> adds m (S \<union> T) m''"
  by (auto simp: adds_def)

lemma record_option_adds: "record_option prefix ty m = Ok m' \<Longrightarrow> adds m {(prefix, ty)} m'"
  by (auto simp: record_option_def adds_def well_named_def collected_def split: option.splits if_splits)

lemma for_each_adds:
  assumes "for_each f xs m = Some (Ok m')" and "\<And>x m m'. x \<in> set xs \<Longrightarrow> f x m = Some (Ok m') \<Longrightarrow> adds m (S x) m'"
  shows "adds m (\<Union>x\<in>set xs. S x) m'"
  using assms
proof (induction xs arbitrary: m)
  case (Cons x xs)
  then obtain m1 where "f x m = Some (Ok m1)" "for_each f xs m1 = Some (Ok m')"
    by (auto split: option.splits sum.splits)
  with Cons.IH [of m1] Cons.prems(2) show ?case by (fastforce intro: adds_trans)
qed simp

lemma unwrap_then_Ok: "unwrap_then r f = Some (Ok m) \<longleftrightarrow> (\<exists>x. r = Ok x \<and> f x = Some (Ok m))"
  by (cases r) auto

lemmas walk_simps = unwrap_then_Ok panic_bind_Ok on_object_def

abbreviation options :: "object \<Rightarrow> string \<Rightarrow> object \<Rightarrow> (string \<times> string) set" where
  "options defs prefix obj \<equiv> {(path, ty). schema_option defs prefix obj path ty}"

text \<open>The options of the objects in a list of values, and those an object declares by one of its types.\<close>

definition options_in :: "object \<Rightarrow> string \<Rightarrow> json \<Rightarrow> (string \<times> string) set" where
  "options_in defs prefix v = (case v of JObj obj \<Rightarrow> options defs prefix obj | _ \<Rightarrow> {})"

definition options_by :: "object \<Rightarrow> string \<Rightarrow> object \<Rightarrow> json \<Rightarrow> (string \<times> string) set" where
  "options_by defs prefix obj ty =
     (if ty = JStr ''object'' then
        (case map_of obj ''properties'' of
           Some (JObj props) \<Rightarrow> \<Union>(k, v)\<in>set props. options_in defs (join_prefix prefix k) v
         | _ \<Rightarrow> {})
      else case ty of JStr s \<Rightarrow> if s = ''null'' then {} else {(prefix, s)} | _ \<Rightarrow> {})"

lemma options_in_iff: "x \<in> options_in defs prefix v \<longleftrightarrow> (\<exists>obj. v = JObj obj \<and> x \<in> options defs prefix obj)"
  by (cases v) (auto simp: options_in_def)

lemma options_ref:
  "map_of obj ''$ref'' = Some (JStr r) \<Longrightarrow> fetch_ref_object defs r = Ok obj' \<Longrightarrow>
   options defs prefix obj = options defs prefix obj'"
  by (auto intro: by_ref elim: schema_optionE)

lemma options_alternatives:
  assumes "map_of obj ''$ref'' = None"
    and "map_of obj ''oneOf'' = Some (JArr vs) \<or> map_of obj ''oneOf'' = None \<and> map_of obj ''anyOf'' = Some (JArr vs)"
  shows "options defs prefix obj = (\<Union>v\<in>set vs. options_in defs prefix v)"
proof (intro subset_antisym subsetI)
  fix x assume "x \<in> options defs prefix obj"
  then obtain path s where x: "x = (path, s)" "schema_option defs prefix obj path s" by auto
  from x(2) show "x \<in> (\<Union>v\<in>set vs. options_in defs prefix v)"
    by (cases rule: schema_optionE) (use assms x(1) in \<open>auto simp: options_in_iff\<close>)
next
  fix x assume "x \<in> (\<Union>v\<in>set vs. options_in defs prefix v)"
  with assms show "x \<in> options defs prefix obj"
    by (auto simp: options_in_iff intro: by_one_of by_any_of)
qed

lemma options_types:
  assumes "plain obj" "map_of obj ''type'' = Some ty"
  shows "options defs prefix obj = (\<Union>t\<in>set (type_list ty). options_by defs prefix obj t)"
proof (intro subset_antisym subsetI)
  fix x assume "x \<in> options defs prefix obj"
  then obtain path s where x: "x = (path, s)" "schema_option defs prefix obj path s" by auto
  from x(2) show "x \<in> (\<Union>t\<in>set (type_list ty). options_by defs prefix obj t)"
  proof cases
    case (by_property props k obj')
    then have "x \<in> options_in defs (join_prefix prefix k) (JObj obj')"
      using x(1) by (simp add: options_in_def)
    with by_property have "x \<in> options_by defs prefix obj (JStr ''object'')"
      by (auto simp: options_by_def)
    with by_property assms(2) show ?thesis by (auto simp: has_type_def)
  next
    case leaf
    with x(1) have "x \<in> options_by defs prefix obj (JStr s)" by (simp add: options_by_def)
    with leaf assms(2) show ?thesis by (auto simp: has_type_def)
  qed (use assms in auto)
next
  fix x assume "x \<in> (\<Union>t\<in>set (type_list ty). options_by defs prefix obj t)"
  then obtain t where t: "t \<in> set (type_list ty)" "x \<in> options_by defs prefix obj t" by auto
  show "x \<in> options defs prefix obj"
  proof (cases "t = JStr ''object''")
    case True
    with t assms have "has_type obj ''object''" by (auto simp: has_type_def)
    with True t assms show ?thesis
      by (auto simp: options_by_def options_in_iff intro: by_property split: option.splits json.splits)
  next
    case False
    with t obtain s where s: "t = JStr s" "s \<noteq> ''null''" "s \<noteq> ''object''" "x = (prefix, s)"
      by (auto simp: options_by_def split: json.splits if_splits)
    with t assms have "has_type obj s" by (auto simp: has_type_def)
    with s assms show ?thesis by (auto intro: leaf)
  qed
qed

lemma on_object_adds:
  assumes "on_object (dump_config_schema n prefix defs) v m = Some (Ok m')"
    and "\<And>obj m m'. dump_config_schema n prefix defs obj m = Some (Ok m') \<Longrightarrow> adds m (options defs prefix obj) m'"
  shows "adds m (options_in defs prefix v) m'"
  using assms by (auto simp: walk_simps options_in_def)

lemma dump_adds: "dump_config_schema n prefix defs obj m = Some (Ok m') \<Longrightarrow> adds m (options defs prefix obj) m'"
proof (induction n arbitrary: prefix obj m m')
  case (Suc n)
  show ?case
  proof (cases "map_of obj ''$ref''")
    case (Some v)
    with Suc.prems obtain r obj' where "map_of obj ''$ref'' = Some (JStr r)" "fetch_ref_object defs r = Ok obj'"
        "dump_config_schema n prefix defs obj' m = Some (Ok m')"
      by (auto simp: walk_simps)
    with Suc.IH options_ref show ?thesis by metis
  next
    case no_ref: None
    show ?thesis
    proof (cases "map_of obj ''oneOf'' = None \<and> map_of obj ''anyOf'' = None")
      case False
      with no_ref Suc.prems obtain vs where
        vs: "map_of obj ''oneOf'' = Some (JArr vs) \<or> map_of obj ''oneOf'' = None \<and> map_of obj ''anyOf'' = Some (JArr vs)"
        and run: "for_each (on_object (dump_config_schema n prefix defs)) vs m = Some (Ok m')"
        by (auto simp: unwrap_then_Ok split: option.splits)
      have "adds m (\<Union>v\<in>set vs. options_in defs prefix v) m'"
        by (rule for_each_adds [OF run]) (rule on_object_adds [OF _ Suc.IH])
      with options_alternatives [OF no_ref vs] show ?thesis by simp
    next
      case True
      with no_ref Suc.prems obtain ty where ty: "map_of obj ''type'' = Some ty"
        and run: "for_each (\<lambda>ty result. unwrap_then (as_str ty)
                        (\<lambda>ty. if ty = ''null'' then Some (Ok result)
                          else if ty = ''object'' then
                            unwrap_then (panic_bind (get_unwrap obj ''properties'') as_object)
                              (\<lambda>props. for_each
                                (\<lambda>(k, v). on_object (dump_config_schema n (join_prefix prefix k) defs) v)
                                props result)
                          else Some (record_option prefix ty result)))
                      (type_list ty) m = Some (Ok m')"
        by (auto simp: unwrap_then_Ok)
      have "adds m (\<Union>t\<in>set (type_list ty). options_by defs prefix obj t) m'"
      proof (rule for_each_adds [OF run])
        fix t m m'
        assume step: "unwrap_then (as_str t)
                        (\<lambda>ty. if ty = ''null'' then Some (Ok m)
                          else if ty = ''object'' then
                            unwrap_then (panic_bind (get_unwrap obj ''properties'') as_object)
                              (\<lambda>props. for_each
                                (\<lambda>(k, v). on_object (dump_config_schema n (join_prefix prefix k) defs) v)
                                props m)
                          else Some (record_option prefix ty m)) = Some (Ok m')"
        show "adds m (options_by defs prefix obj t) m'"
        proof (cases "t = JStr ''object''")
          case True
          with step obtain props where props: "map_of obj ''properties'' = Some (JObj props)"
            and each: "for_each (\<lambda>(k, v). on_object (dump_config_schema n (join_prefix prefix k) defs) v) props m = Some (Ok m')"
            by (auto simp: unwrap_then_Ok panic_bind_Ok)
          have "adds m (\<Union>x\<in>set props. case x of (k, v) \<Rightarrow> options_in defs (join_prefix prefix k) v) m'"
            by (rule for_each_adds [OF each]) (auto intro: on_object_adds [OF _ Suc.IH])
          with True props show ?thesis by (simp add: options_by_def)
        next
          case False
          with step show ?thesis
            by (auto simp: unwrap_then_Ok options_by_def record_option_adds split: if_splits)
        qed
      qed
      with options_types [OF _ ty] no_ref True show ?thesis by simp
    qed
  qed
qed simp

section \<open>Fuel\<close>

text \<open>More fuel does not change a result.\<close>

definition le_walk :: "walk \<Rightarrow> walk \<Rightarrow> bool" where
  "le_walk a b \<longleftrightarrow> a = None \<or> a = b"

lemma le_walk_refl [simp]: "le_walk a a"
  by (simp add: le_walk_def)

lemma le_walk_unwrap: "(\<And>x. le_walk (f x) (g x)) \<Longrightarrow> le_walk (unwrap_then r f) (unwrap_then r g)"
  by (cases r) auto

lemma le_walk_for_each: "(\<And>x m. le_walk (f x m) (g x m)) \<Longrightarrow> le_walk (for_each f xs m) (for_each g xs m)"
proof (induction xs arbitrary: m)
  case (Cons x xs)
  from Cons.prems [of x m] consider "f x m = None" | "f x m = g x m" by (auto simp: le_walk_def)
  then show ?case
  proof cases
    case 2
    from Cons.IH [OF Cons.prems] have "le_walk (for_each f xs m') (for_each g xs m')" for m' .
    with 2 show ?thesis by (simp split: option.split sum.split)
  qed (simp add: le_walk_def)
qed simp

lemma le_walk_on_object: "(\<And>obj m. le_walk (f obj m) (g obj m)) \<Longrightarrow> le_walk (on_object f v m) (on_object g v m)"
  unfolding on_object_def by (rule le_walk_unwrap)

lemma dump_le_Suc: "le_walk (dump_config_schema n prefix defs obj m) (dump_config_schema (Suc n) prefix defs obj m)"
proof (induction n arbitrary: prefix obj m)
  case 0
  then show ?case by (simp add: le_walk_def)
next
  case (Suc n)
  note rules = le_walk_unwrap le_walk_for_each le_walk_on_object Suc.IH
  show ?case
    by (subst (1 2) dump_config_schema.simps(2))
      (auto split: option.split intro!: rules simp del: dump_config_schema.simps(2))
qed

lemma dump_mono: "dump_config_schema n prefix defs obj m = Some r \<Longrightarrow> n \<le> n' \<Longrightarrow> dump_config_schema n' prefix defs obj m = Some r"
proof (induction n')
  case (Suc n')
  then show ?case using dump_le_Suc [of n' prefix defs obj m]
    by (cases "n = Suc n'") (auto simp: le_walk_def simp del: dump_config_schema.simps(2))
qed simp

lemma unwrap_then_returns: "(\<And>x. r = Ok x \<Longrightarrow> f x \<noteq> None) \<Longrightarrow> unwrap_then r f \<noteq> None"
  by (cases r) auto

lemma for_each_returns: "(\<And>x m. x \<in> set xs \<Longrightarrow> f x m \<noteq> None) \<Longrightarrow> for_each f xs m \<noteq> None"
proof (induction xs arbitrary: m)
  case (Cons x xs)
  then have "f x m \<noteq> None" by simp
  with Cons show ?case by (auto split: option.split sum.split)
qed simp

lemma on_object_returns: "(\<And>obj. v = JObj obj \<Longrightarrow> f obj m \<noteq> None) \<Longrightarrow> on_object f v m \<noteq> None"
  unfolding on_object_def by (rule unwrap_then_returns) simp

lemmas walk_returns = unwrap_then_returns for_each_returns on_object_returns

lemma dump_Suc_returns:
  assumes "\<And>obj' prefix m. visits defs obj' obj \<Longrightarrow> dump_config_schema n prefix defs obj' m \<noteq> None"
  shows "dump_config_schema (Suc n) prefix defs obj m \<noteq> None"
proof -
  have props: "unwrap_then (panic_bind (get_unwrap obj ''properties'') as_object)
      (\<lambda>props. for_each (\<lambda>(k, v). on_object (dump_config_schema n (join_prefix prefix k) defs) v) props m) \<noteq> None" for m
    by (rule walk_returns)+ (auto simp: panic_bind_Ok simp del: not_None_eq intro!: on_object_returns assms intro: visits.intros)
  then have types: "unwrap_then (as_str ty) (\<lambda>ty. if ty = ''null'' then Some (Ok m)
      else if ty = ''object'' then
        unwrap_then (panic_bind (get_unwrap obj ''properties'') as_object)
          (\<lambda>props. for_each (\<lambda>(k, v). on_object (dump_config_schema n (join_prefix prefix k) defs) v) props m)
      else Some (record_option prefix ty m)) \<noteq> None" for ty m
    by (cases "as_str ty") (simp_all del: not_None_eq)
  show ?thesis
    unfolding dump_config_schema.simps
    by (auto simp: panic_bind_Ok simp del: not_None_eq split: option.split
        intro!: walk_returns assms types intro: visits.intros)
qed

lemma finite_visits: "finite {obj'. visits defs obj' obj}"
proof -
  let ?v = "\<lambda>k. the (map_of obj k)"
  let ?ref = "{projr (fetch_ref_object defs (case ?v ''$ref'' of JStr r \<Rightarrow> r))}"
  let ?arr = "\<lambda>k. (\<lambda>v. case v of JObj obj' \<Rightarrow> obj') ` set (case ?v k of JArr vs \<Rightarrow> vs)"
  let ?props = "(\<lambda>(k, v). case v of JObj obj' \<Rightarrow> obj') ` set (case ?v ''properties'' of JObj props \<Rightarrow> props)"
  have "{obj'. visits defs obj' obj} \<subseteq> ?ref \<union> ?arr ''oneOf'' \<union> ?arr ''anyOf'' \<union> ?props"
    by (auto elim!: visits.cases intro: rev_image_eqI)
  then show ?thesis by (rule finite_subset) simp
qed

section \<open>Comparing with the table\<close>

definition to_owned :: "option_entry \<Rightarrow> owned_option_entry" where
  "to_owned e = OwnedOptionEntry (env_name e) (ent_path e) (ent_type e)"

lemma owned_eq_iff: "owned_eq_option o' e \<longleftrightarrow> o' = to_owned e"
  by (cases o') (auto simp: owned_eq_option_def to_owned_def)

lemma all_owned_eq: "list_all2 owned_eq_option xs ys \<longleftrightarrow> xs = map to_owned ys"
  by (induction xs arbitrary: ys) (auto simp: list_all2_Cons1 owned_eq_iff list_all2_Nil)

lemma known_paths_increasing: "sorted_wrt (<) (map ent_path known_option_entries)"
proof -
  have "transp ((<) :: string \<Rightarrow> string \<Rightarrow> bool)"
    by (auto intro: transpI)
  note step = sorted_wrt2 [OF this]
  show ?thesis
    unfolding known_option_entries_def list.map option_entry.sel step sorted_wrt1 by code_simp
qed

lemma known_member:
  "OptionEntry (env_name_of path) path ty \<in> set known_option_entries \<longleftrightarrow>
   (\<exists>e\<in>set known_option_entries. ent_path e = path \<and> ent_type e = ty)"
proof
  assume "\<exists>e\<in>set known_option_entries. ent_path e = path \<and> ent_type e = ty"
  then obtain e where e: "e \<in> set known_option_entries" "ent_path e = path" "ent_type e = ty" by blast
  then have "env_name e = env_name_of path" using known_names by (auto simp: list_all_iff)
  with e have "e = OptionEntry (env_name_of path) path ty" by (metis option_entry.collapse)
  with e(1) show "OptionEntry (env_name_of path) path ty \<in> set known_option_entries" by simp
qed force

lemma values_known:
  assumes "well_named m"
  shows "bt_values m = map to_owned known_option_entries \<longleftrightarrow>
    (\<forall>path ty. (path, ty) \<in> collected m \<longleftrightarrow> OptionEntry (env_name_of path) path ty \<in> set known_option_entries)"
    (is "?same \<longleftrightarrow> ?exact")
proof
  assume ?same
  have "(path, ty) \<in> collected m \<longleftrightarrow> (\<exists>e\<in>set (bt_values m). own_ent_path e = path \<and> own_ent_type e = ty)" for path ty
    using assms by (fastforce simp: collected_def well_named_def Bex_def mem_bt_values)
  then show ?exact
    unfolding \<open>?same\<close> known_member by (simp add: to_owned_def)
next
  assume exact: ?exact
  let ?es = "map (\<lambda>e. (ent_path e, to_owned e)) known_option_entries"
  have inc: "increasing ?es"
    using known_paths_increasing by (simp add: comp_def)
  have "map_of (bt_entries m) path = Some e \<longleftrightarrow> map_of ?es path = Some e" for path e
  proof -
    have "map_of (bt_entries m) path = Some e \<longleftrightarrow>
        e = OwnedOptionEntry (env_name_of path) path (own_ent_type e) \<and> (path, own_ent_type e) \<in> collected m"
      unfolding map_of_bt_entries collected_def using assms [unfolded well_named_def]
      by simp (metis owned_option_entry.collapse)
    also have "\<dots> \<longleftrightarrow> (path, e) \<in> set ?es"
      using exact known_names by (cases e) (auto simp: known_member to_owned_def list_all_iff image_iff)
    finally show ?thesis
      using inc increasing_distinct [of ?es] by simp
  qed
  then have "map_of (bt_entries m) path = map_of ?es path" for path
    by (metis option.exhaust)
  then have "map_of (bt_entries m) = map_of ?es" ..
  then have "bt_entries m = ?es"
    by (rule increasing_unique [OF bt_entries_increasing inc])
  then show ?same by (simp add: bt_values_def comp_def)
qed

lemma collected_options:
  assumes "dump_config_schema n '''' defs obj bt_new = Some (Ok m)"
  shows "well_named m" "collected m = options defs '''' obj"
  using dump_adds [OF assms] by (simp_all add: adds_def well_named_def collected_def)

section \<open>Properties\<close>

text \<open>
  A schema of the shape \<open>schemars\<close> derives, with only the enum of the counter kept apart in \<open>$defs\<close> and the
  other structs written in place: optional fields are \<open>anyOf\<close> a struct and \<open>null\<close> or have a pair of types,
  the enum is a \<open>oneOf\<close>. The fields are in descending order.
\<close>

abbreviation jtype :: "string \<Rightarrow> json" where
  "jtype ty \<equiv> JObj [(''type'', JStr ty)]"

abbreviation jopt :: "string \<Rightarrow> json" where
  "jopt ty \<equiv> JObj [(''type'', JArr [JStr ty, JStr ''null''])]"

abbreviation jstruct :: "(string \<times> json) list \<Rightarrow> object" where
  "jstruct props \<equiv> [(''properties'', JObj props), (''type'', JStr ''object'')]"

abbreviation jopt_struct :: "(string \<times> json) list \<Rightarrow> json" where
  "jopt_struct props \<equiv> JObj [(''anyOf'', JArr [JObj (jstruct props), jtype ''null''])]"

definition demo_defs :: object where
  "demo_defs =
     [(''IopsCounter'', JObj
        [(''oneOf'', JArr
          [JObj (jstruct [(''size'', jtype ''integer''), (''mode'', jtype ''string'')]),
           JObj (jstruct [(''mode'', jtype ''string'')])])])]"

definition demo_server_schema :: object where
  "demo_server_schema = jstruct
     [(''listen_data_addr'', jtype ''string''), (''listen_ctrl_addr'', jtype ''string''),
      (''initial_peers'', jtype ''array''), (''dir'', jtype ''string''), (''cluster_id'', jtype ''string''),
      (''advertise_data_addr'', jopt ''string''), (''advertise_ctrl_addr'', jopt ''string'')]"

definition demo_storage_schema :: object where
  "demo_storage_schema = jstruct
     [(''memory_capacity'', jtype ''string''),
      (''disk_throttle'', jopt_struct
        [(''write_throughput'', jopt ''integer''), (''write_iops'', jopt ''integer''),
         (''read_throughput'', jopt ''integer''), (''read_iops'', jopt ''integer''),
         (''iops_counter'', JObj [(''$ref'', JStr ''#/$defs/IopsCounter'')])]),
      (''disk_capacity'', jtype ''string''), (''data_dir'', jtype ''string'')]"

definition demo_telemetry_schema :: object where
  "demo_telemetry_schema = jstruct
     [(''traces'', jopt_struct
        [(''opentelemetry'', jopt_struct [(''otlp_endpoint'', jtype ''string'')]),
         (''capture_log_filter'', jtype ''string'')]),
      (''metrics'', jopt_struct
        [(''opentelemetry'', jopt_struct
           [(''push_interval'', jtype ''string''), (''otlp_endpoint'', jtype ''string'')])]),
      (''logs'', JObj (jstruct
        [(''stderr'', jopt_struct [(''filter'', jtype ''string'')]),
         (''opentelemetry'', jopt_struct [(''otlp_endpoint'', jtype ''string''), (''filter'', jtype ''string'')]),
         (''file'', jopt_struct
           [(''max_files'', jopt ''integer''), (''filter'', jtype ''string''), (''dir'', jtype ''string'')])]))]"

definition demo_schema :: object where
  "demo_schema = (''$defs'', JObj demo_defs) # jstruct
     [(''telemetry'', JObj demo_telemetry_schema), (''storage'', JObj demo_storage_schema),
      (''server'', JObj demo_server_schema)]"

lemma demo_schema_passes: "test_config_schema 9 (JObj demo_schema) = Some (Ok ())"
  by code_simp

text \<open>
  The walk over a schema ends when the references of the schema do not lead back: if no infinite path of
  visits starts from an object, then there is an amount of fuel with which the walk from it returns, with
  any prefix and any options collected before, and more fuel gives the same result.
\<close>
lemma schema_walk_terminates:
  assumes "Wellfounded.accp (visits defs) obj"
  shows "\<exists>n. \<forall>prefix m. \<exists>r. \<forall>n'\<ge>n. dump_config_schema n' prefix defs obj m = Some r"
proof -
  have "\<exists>n. \<forall>prefix m. dump_config_schema n prefix defs obj m \<noteq> None"
  proof (rule accp_induct [OF assms])
    fix obj
    assume "\<forall>obj'. visits defs obj' obj \<longrightarrow> (\<exists>n. \<forall>prefix m. dump_config_schema n prefix defs obj' m \<noteq> None)"
    then obtain fuel where fuel: "\<And>obj' prefix m. visits defs obj' obj \<Longrightarrow> dump_config_schema (fuel obj') prefix defs obj' m \<noteq> None"
      by metis
    let ?n = "Max (fuel ` {obj'. visits defs obj' obj})"
    have "dump_config_schema ?n prefix defs obj' m \<noteq> None" if "visits defs obj' obj" for obj' prefix m
    proof -
      have "fuel obj' \<le> ?n" using that finite_visits [of defs obj] by (intro Max_ge) auto
      with fuel [OF that, of prefix m] dump_mono show ?thesis by (metis not_None_eq)
    qed
    then show "\<exists>n. \<forall>prefix m. dump_config_schema n prefix defs obj m \<noteq> None"
      using dump_Suc_returns [of defs obj ?n] by (metis (no_types, lifting))
  qed
  with dump_mono show ?thesis by (metis not_None_eq)
qed

lemma schema_walk_terminates_witness:
  "\<exists>n. \<forall>prefix m. \<exists>r. \<forall>n'\<ge>n. dump_config_schema n' prefix [(''A'', jtype ''string'')] [(''$ref'', JStr ''#/$defs/A'')] m = Some r"
proof (rule schema_walk_terminates)
  let ?defs = "[(''A'', jtype ''string'')]" and ?leaf = "[(''type'', JStr ''string'')]"
  have "Wellfounded.accp (visits ?defs) ?leaf"
    by (rule accpI) (auto elim: visits.cases)
  moreover have "fetch_ref_object ?defs ''#/$defs/A'' = Ok ?leaf"
    by code_simp
  moreover have "visits ?defs obj' [(''$ref'', JStr r)] \<Longrightarrow> fetch_ref_object ?defs r = Ok obj'" for obj' r
    by (simp add: visits_ref)
  ultimately show "Wellfounded.accp (visits ?defs) [(''$ref'', JStr ''#/$defs/A'')]"
    by (metis accpI sum.inject(2))
qed

text \<open>
  C25: what the schema test establishes. It passes exactly when the walk from the root returns without a
  panic and the table of environment variables lists exactly the options that the schema declares: a path
  with a type is an option of the schema if and only if the table has it, under the derived name.
\<close>
theorem schema_test_exact:
  assumes "map_of obj ''$defs'' = Some (JObj defs)"
  shows "test_config_schema n (JObj obj) = Some (Ok ()) \<longleftrightarrow>
    (\<exists>m. dump_config_schema n '''' defs obj bt_new = Some (Ok m)) \<and>
    (\<forall>path ty. schema_option defs '''' obj path ty \<longleftrightarrow>
      OptionEntry (env_name_of path) path ty \<in> set known_option_entries)"
proof -
  have "test_config_schema n (JObj obj) = Some (Ok ()) \<longleftrightarrow>
      (\<exists>m. dump_config_schema n '''' defs obj bt_new = Some (Ok m) \<and> bt_values m = map to_owned known_option_entries)"
    using assms by (auto simp: test_config_schema_def get_unwrap_def all_owned_eq panic_bind_Ok split: if_splits)
  also have "\<dots> \<longleftrightarrow> (\<exists>m. dump_config_schema n '''' defs obj bt_new = Some (Ok m) \<and>
      (\<forall>path ty. schema_option defs '''' obj path ty \<longleftrightarrow>
        OptionEntry (env_name_of path) path ty \<in> set known_option_entries))"
    using collected_options [of n defs obj] by (metis (no_types, lifting) case_prodI mem_Collect_eq values_known case_prodD)
  finally show ?thesis by blast
qed

theorem schema_test_exact_witness:
  "schema_option demo_defs '''' demo_schema ''storage.disk_throttle.read_iops'' ''integer''"
proof -
  have defs: "map_of demo_schema ''$defs'' = Some (JObj demo_defs)" by (simp add: demo_schema_def)
  have "OptionEntry (env_name_of ''storage.disk_throttle.read_iops'') ''storage.disk_throttle.read_iops'' ''integer''
      \<in> set known_option_entries"
    by (simp only: known_member) (simp add: known_option_entries_def)
  with schema_test_exact [OF defs] demo_schema_passes show ?thesis by blast
qed

end
