(* ===== verification/ConfigSerde.thy ===== *)
theory ConfigSerde
  imports LoadConfig Json "HOL-Library.Monad_Syntax"
begin

text \<open>
  The configuration as a document: the encoders and decoders that the derive attributes of
  \<open>crates/core/src/config.rs\<close> and \<open>newtype.rs\<close> declare, with their defaults, skipped fields and refused
  unknown fields, over the tree of values of theory \<open>Json\<close>, which stands here for the tables, strings,
  integers, booleans and arrays of TOML (no field accepts its floats and dates). Socket addresses are read
  and printed as the standard library does, those of IPv6 through the environment; urls, byte sizes and
  durations are fields of the environment too. Theory \<open>ConfigDocument\<close> instantiates the parameter of
  \<open>load_config\<close> with these decoders.
\<close>

section \<open>Environment\<close>

record 'url config_env =
  cv_url_text :: "'url \<Rightarrow> string"
  cv_url_of_text :: "string \<Rightarrow> 'url option"
  size_text :: "u64 \<Rightarrow> string"
  size_of_text :: "string \<Rightarrow> u64 option"
  duration_text :: "int \<Rightarrow> string"
  duration_of_text :: "string \<Rightarrow> int option"
  v6_text :: "128 word \<Rightarrow> 16 word \<Rightarrow> string"
  v6_of_text :: "string \<Rightarrow> (128 word \<times> 16 word) option"

text \<open>
  Asked of the libraries: a url, a duration and an IPv6 address, which is printed in brackets, are read back
  as they were. A byte size is printed rounded, so for sizes there is no such law.
\<close>

definition config_env_ok :: "'url config_env \<Rightarrow> bool" where
  "config_env_ok cv \<longleftrightarrow>
     (\<forall>u. cv_url_of_text cv (cv_url_text cv u) = Some u) \<and>
     (\<forall>d. duration_of_text cv (duration_text cv d) = Some d) \<and>
     (\<forall>a p. v6_of_text cv (v6_text cv a p) = Some (a, p) \<and> (\<exists>t. v6_text cv a p = CHR ''['' # t))"

section \<open>Fields\<close>

text \<open>\<open>deny_unknown_fields\<close>; a field of type \<open>Option\<close>; a field with a default; a field left out when it is \<open>None\<close>.\<close>

definition known_fields :: "string list \<Rightarrow> object \<Rightarrow> unit option" where
  "known_fields ks kvs = (if list_all (\<lambda>e. fst e \<in> set ks) kvs then Some () else None)"

definition optional :: "(json \<Rightarrow> 'a option) \<Rightarrow> object \<Rightarrow> string \<Rightarrow> 'a option option" where
  "optional dec kvs k =
     (case filter (\<lambda>e. fst e = k) kvs of [] \<Rightarrow> Some None | [e] \<Rightarrow> map_option Some (dec (snd e)) | _ \<Rightarrow> None)"

definition defaulted :: "'a \<Rightarrow> (json \<Rightarrow> 'a option) \<Rightarrow> object \<Rightarrow> string \<Rightarrow> 'a option" where
  "defaulted d dec kvs k =
     (case filter (\<lambda>e. fst e = k) kvs of [] \<Rightarrow> Some d | [e] \<Rightarrow> dec (snd e) | _ \<Rightarrow> None)"

definition skip_none :: "string \<Rightarrow> ('a \<Rightarrow> json) \<Rightarrow> 'a option \<Rightarrow> object" where
  "skip_none k enc x = (case x of None \<Rightarrow> [] | Some v \<Rightarrow> [(k, enc v)])"

section \<open>Scalars\<close>

text \<open>\<open>SocketAddrV4\<close>: four numbers of at most three digits without a leading zero, and a port.\<close>

definition v4_text :: "u32 \<Rightarrow> string" where
  "v4_text a = (let n = uint a in
     decimal (n div 2 ^ 24) @ ''.'' @ decimal (n div 2 ^ 16 mod 256) @ ''.'' @
     decimal (n div 2 ^ 8 mod 256) @ ''.'' @ decimal (n mod 256))"

definition octet_of_text :: "string \<Rightarrow> int option" where
  "octet_of_text s =
     (if length s \<le> 3 \<and> (length s = 1 \<or> s = [] \<or> hd s \<noteq> CHR ''0'') then
        (case parse_digits s of None \<Rightarrow> None | Some n \<Rightarrow> if n < 256 then Some n else None)
      else None)"

definition v4_of_text :: "string \<Rightarrow> u32 option" where
  "v4_of_text s =
     (case split_on (CHR ''.'') s of
        [a, b, c, d] \<Rightarrow> do {
          a \<leftarrow> octet_of_text a; b \<leftarrow> octet_of_text b; c \<leftarrow> octet_of_text c; d \<leftarrow> octet_of_text d;
          Some (word_of_int (((a * 256 + b) * 256 + c) * 256 + d))
        }
      | _ \<Rightarrow> None)"

fun addr_text :: "'url config_env \<Rightarrow> socket_addr \<Rightarrow> string" where
  "addr_text cv sa =
     (case ip sa of
        V4 a \<Rightarrow> v4_text a @ '':'' @ decimal (uint (port sa))
      | V6 a \<Rightarrow> v6_text cv a (port sa))"

definition v4_addr_of_text :: "string \<Rightarrow> socket_addr option" where
  "v4_addr_of_text s =
     (case split_on (CHR '':'') s of
        [a, p] \<Rightarrow> do {
          a \<leftarrow> v4_of_text a;
          p \<leftarrow> parse_digits p;
          (if p < 2 ^ 16 then Some \<lparr>ip = V4 a, port = word_of_int p\<rparr> else None)
        }
      | _ \<Rightarrow> None)"

definition addr_of_text :: "'url config_env \<Rightarrow> string \<Rightarrow> socket_addr option" where
  "addr_of_text cv s =
     (case v4_addr_of_text s of
        Some sa \<Rightarrow> Some sa
      | None \<Rightarrow> map_option (\<lambda>(a, p). \<lparr>ip = V6 a, port = p\<rparr>) (v6_of_text cv s))"

definition addr_json :: "'url config_env \<Rightarrow> socket_addr \<Rightarrow> json" where
  "addr_json cv sa = JStr (addr_text cv sa)"

definition addr_of_json :: "'url config_env \<Rightarrow> json \<Rightarrow> socket_addr option" where
  "addr_of_json cv j = Option.bind (text_of j) (addr_of_text cv)"

definition cv_url_json :: "'url config_env \<Rightarrow> 'url \<Rightarrow> json" where
  "cv_url_json cv u = JStr (cv_url_text cv u)"

definition cv_url_of_json :: "'url config_env \<Rightarrow> json \<Rightarrow> 'url option" where
  "cv_url_of_json cv j = Option.bind (text_of j) (cv_url_of_text cv)"

definition duration_json :: "'url config_env \<Rightarrow> int \<Rightarrow> json" where
  "duration_json cv d = JStr (duration_text cv d)"

definition duration_of_json :: "'url config_env \<Rightarrow> json \<Rightarrow> int option" where
  "duration_of_json cv j = Option.bind (text_of j) (duration_of_text cv)"

text \<open>\<open>ByteSize\<close> is printed as text and read from text or from a number of bytes.\<close>

definition byte_size_json :: "'url config_env \<Rightarrow> u64 \<Rightarrow> json" where
  "byte_size_json cv b = JStr (size_text cv b)"

fun byte_size_of_json :: "'url config_env \<Rightarrow> json \<Rightarrow> u64 option" where
  "byte_size_of_json cv (JStr s) = size_of_text cv s"
| "byte_size_of_json cv j = word_of_json j"

definition nz_json :: "nonzero_usize \<Rightarrow> json" where
  "nz_json n = word_json (nz_get n)"

definition nz_of_json :: "json \<Rightarrow> nonzero_usize option" where
  "nz_of_json j = Option.bind (word_of_json j) nz_new"

section \<open>Sections of the configuration\<close>

definition server_config_json :: "'url config_env \<Rightarrow> 'url server_config \<Rightarrow> json" where
  "server_config_json cv c = JObj
     ([(''dir'', JStr (cfg_server_dir c)), (''listen_data_addr'', addr_json cv (listen_data_addr c))] @
      skip_none ''advertise_data_addr'' (addr_json cv) (advertise_data_addr c) @
      [(''listen_ctrl_addr'', addr_json cv (listen_ctrl_addr c))] @
      skip_none ''advertise_ctrl_addr'' (addr_json cv) (advertise_ctrl_addr c) @
      (if cfg_initial_peers c = [] then [] else [(''initial_peers'', list_json (cv_url_json cv) (cfg_initial_peers c))]) @
      [(''cluster_id'', JStr (cfg_cluster_id c))])"

definition server_config_of_json :: "'url config_env \<Rightarrow> json \<Rightarrow> 'url server_config option" where
  "server_config_of_json cv j = do {
     kvs \<leftarrow> object_of j;
     known_fields [''dir'', ''listen_data_addr'', ''advertise_data_addr'', ''listen_ctrl_addr'',
       ''advertise_ctrl_addr'', ''initial_peers'', ''cluster_id''] kvs;
     d \<leftarrow> defaulted default_dir text_of kvs ''dir'';
     ld \<leftarrow> defaulted default_listen_data_addr (addr_of_json cv) kvs ''listen_data_addr'';
     ad \<leftarrow> optional (addr_of_json cv) kvs ''advertise_data_addr'';
     lc \<leftarrow> defaulted default_listen_ctrl_addr (addr_of_json cv) kvs ''listen_ctrl_addr'';
     ac \<leftarrow> optional (addr_of_json cv) kvs ''advertise_ctrl_addr'';
     ps \<leftarrow> defaulted [] (list_of_json (cv_url_of_json cv)) kvs ''initial_peers'';
     ci \<leftarrow> defaulted default_cluster_id text_of kvs ''cluster_id'';
     Some \<lparr>cfg_server_dir = d, listen_data_addr = ld, advertise_data_addr = ad, listen_ctrl_addr = lc,
       advertise_ctrl_addr = ac, cfg_initial_peers = ps, cfg_cluster_id = ci\<rparr>
   }"

text \<open>The tag \<open>mode\<close> chooses the variant. The unit variant does not look at the other fields, the other one refuses unknown ones.\<close>

fun iops_counter_json :: "iops_counter \<Rightarrow> json" where
  "iops_counter_json PerIo = JObj [(''mode'', JStr ''per_io'')]"
| "iops_counter_json (PerIoSize n) = JObj [(''mode'', JStr ''per_io_size''), (''size'', nz_json n)]"

definition iops_counter_of_json :: "json \<Rightarrow> iops_counter option" where
  "iops_counter_of_json j = do {
     kvs \<leftarrow> object_of j;
     mode \<leftarrow> field text_of kvs ''mode'';
     (if mode = ''per_io'' then Some PerIo
      else if mode = ''per_io_size'' then do {
        known_fields [''mode'', ''size''] kvs;
        n \<leftarrow> field nz_of_json kvs ''size'';
        Some (PerIoSize n)
      }
      else None)
   }"

definition disk_throttle_json :: "disk_throttle \<Rightarrow> json" where
  "disk_throttle_json t = JObj
     (skip_none ''write_iops'' nz_json (write_iops t) @ skip_none ''read_iops'' nz_json (read_iops t) @
      skip_none ''write_throughput'' nz_json (write_throughput t) @
      skip_none ''read_throughput'' nz_json (read_throughput t) @
      [(''iops_counter'', iops_counter_json (iops_counter_of t))])"

definition disk_throttle_of_json :: "json \<Rightarrow> disk_throttle option" where
  "disk_throttle_of_json j = do {
     kvs \<leftarrow> object_of j;
     known_fields [''write_iops'', ''read_iops'', ''write_throughput'', ''read_throughput'', ''iops_counter''] kvs;
     wi \<leftarrow> optional nz_of_json kvs ''write_iops'';
     ri \<leftarrow> optional nz_of_json kvs ''read_iops'';
     wt \<leftarrow> optional nz_of_json kvs ''write_throughput'';
     rt \<leftarrow> optional nz_of_json kvs ''read_throughput'';
     ic \<leftarrow> field iops_counter_of_json kvs ''iops_counter'';
     Some \<lparr>write_iops = wi, read_iops = ri, write_throughput = wt, read_throughput = rt, iops_counter_of = ic\<rparr>
   }"

definition storage_config_json :: "'url config_env \<Rightarrow> storage_config \<Rightarrow> json" where
  "storage_config_json cv c = JObj
     ([(''data_dir'', JStr (data_dir c)), (''disk_capacity'', byte_size_json cv (disk_capacity c)),
       (''memory_capacity'', byte_size_json cv (memory_capacity c))] @
      skip_none ''disk_throttle'' disk_throttle_json (disk_throttle_of c))"

definition storage_config_of_json :: "'url config_env \<Rightarrow> u64 \<Rightarrow> json \<Rightarrow> storage_config option" where
  "storage_config_of_json cv available j = do {
     kvs \<leftarrow> object_of j;
     known_fields [''data_dir'', ''disk_capacity'', ''memory_capacity'', ''disk_throttle''] kvs;
     d \<leftarrow> defaulted default_data_dir text_of kvs ''data_dir'';
     dc \<leftarrow> defaulted default_disk_capacity (byte_size_of_json cv) kvs ''disk_capacity'';
     mc \<leftarrow> defaulted (default_memory_capacity available) (byte_size_of_json cv) kvs ''memory_capacity'';
     dt \<leftarrow> optional disk_throttle_of_json kvs ''disk_throttle'';
     Some \<lparr>data_dir = d, disk_capacity = dc, memory_capacity = mc, disk_throttle_of = dt\<rparr>
   }"

definition file_appender_json :: "file_appender_config \<Rightarrow> json" where
  "file_appender_json c = JObj
     ([(''filter'', JStr (file_filter c)), (''dir'', JStr (file_dir c))] @ skip_none ''max_files'' nz_json (max_files c))"

definition file_appender_of_json :: "json \<Rightarrow> file_appender_config option" where
  "file_appender_of_json j = do {
     kvs \<leftarrow> object_of j;
     known_fields [''filter'', ''dir'', ''max_files''] kvs;
     f \<leftarrow> field text_of kvs ''filter'';
     d \<leftarrow> field text_of kvs ''dir'';
     m \<leftarrow> optional nz_of_json kvs ''max_files'';
     Some \<lparr>file_filter = f, file_dir = d, max_files = m\<rparr>
   }"

definition stderr_appender_json :: "stderr_appender_config \<Rightarrow> json" where
  "stderr_appender_json c = JObj [(''filter'', JStr (stderr_filter c))]"

definition stderr_appender_of_json :: "json \<Rightarrow> stderr_appender_config option" where
  "stderr_appender_of_json j = do {
     kvs \<leftarrow> object_of j;
     known_fields [''filter''] kvs;
     f \<leftarrow> field text_of kvs ''filter'';
     Some \<lparr>stderr_filter = f\<rparr>
   }"

definition otel_appender_json :: "opentelemetry_appender_config \<Rightarrow> json" where
  "otel_appender_json c = JObj
     [(''filter'', JStr (otel_filter c)), (''otlp_endpoint'', JStr (logs_otlp_endpoint c))]"

definition otel_appender_of_json :: "json \<Rightarrow> opentelemetry_appender_config option" where
  "otel_appender_of_json j = do {
     kvs \<leftarrow> object_of j;
     known_fields [''filter'', ''otlp_endpoint''] kvs;
     f \<leftarrow> field text_of kvs ''filter'';
     e \<leftarrow> field text_of kvs ''otlp_endpoint'';
     Some \<lparr>otel_filter = f, logs_otlp_endpoint = e\<rparr>
   }"

definition logs_config_json :: "logs_config \<Rightarrow> json" where
  "logs_config_json c = JObj
     (skip_none ''file'' file_appender_json (logs_file c) @ skip_none ''stderr'' stderr_appender_json (logs_stderr c) @
      skip_none ''opentelemetry'' otel_appender_json (logs_opentelemetry c))"

definition logs_config_of_json :: "json \<Rightarrow> logs_config option" where
  "logs_config_of_json j = do {
     kvs \<leftarrow> object_of j;
     known_fields [''file'', ''stderr'', ''opentelemetry''] kvs;
     f \<leftarrow> optional file_appender_of_json kvs ''file'';
     s \<leftarrow> optional stderr_appender_of_json kvs ''stderr'';
     t \<leftarrow> optional otel_appender_of_json kvs ''opentelemetry'';
     Some \<lparr>logs_file = f, logs_stderr = s, logs_opentelemetry = t\<rparr>
   }"

definition otel_traces_json :: "opentelemetry_traces_config \<Rightarrow> json" where
  "otel_traces_json c = JObj [(''otlp_endpoint'', JStr (traces_otlp_endpoint c))]"

definition otel_traces_of_json :: "json \<Rightarrow> opentelemetry_traces_config option" where
  "otel_traces_of_json j = do {
     kvs \<leftarrow> object_of j;
     known_fields [''otlp_endpoint''] kvs;
     e \<leftarrow> field text_of kvs ''otlp_endpoint'';
     Some \<lparr>traces_otlp_endpoint = e\<rparr>
   }"

definition traces_config_json :: "traces_config \<Rightarrow> json" where
  "traces_config_json c = JObj
     ((''capture_log_filter'', JStr (capture_log_filter c)) #
      skip_none ''opentelemetry'' otel_traces_json (traces_opentelemetry c))"

definition traces_config_of_json :: "json \<Rightarrow> traces_config option" where
  "traces_config_of_json j = do {
     kvs \<leftarrow> object_of j;
     known_fields [''capture_log_filter'', ''opentelemetry''] kvs;
     f \<leftarrow> field text_of kvs ''capture_log_filter'';
     t \<leftarrow> optional otel_traces_of_json kvs ''opentelemetry'';
     Some \<lparr>capture_log_filter = f, traces_opentelemetry = t\<rparr>
   }"

definition otel_metrics_json :: "'url config_env \<Rightarrow> opentelemetry_metrics_config \<Rightarrow> json" where
  "otel_metrics_json cv c = JObj
     [(''otlp_endpoint'', JStr (metrics_otlp_endpoint c)), (''push_interval'', duration_json cv (push_interval c))]"

definition otel_metrics_of_json :: "'url config_env \<Rightarrow> json \<Rightarrow> opentelemetry_metrics_config option" where
  "otel_metrics_of_json cv j = do {
     kvs \<leftarrow> object_of j;
     known_fields [''otlp_endpoint'', ''push_interval''] kvs;
     e \<leftarrow> field text_of kvs ''otlp_endpoint'';
     p \<leftarrow> defaulted default_metrics_push_interval (duration_of_json cv) kvs ''push_interval'';
     Some \<lparr>metrics_otlp_endpoint = e, push_interval = p\<rparr>
   }"

definition metrics_config_json :: "'url config_env \<Rightarrow> metrics_config \<Rightarrow> json" where
  "metrics_config_json cv c = JObj (skip_none ''opentelemetry'' (otel_metrics_json cv) (metrics_opentelemetry c))"

definition metrics_config_of_json :: "'url config_env \<Rightarrow> json \<Rightarrow> metrics_config option" where
  "metrics_config_of_json cv j = do {
     kvs \<leftarrow> object_of j;
     known_fields [''opentelemetry''] kvs;
     t \<leftarrow> optional (otel_metrics_of_json cv) kvs ''opentelemetry'';
     Some \<lparr>metrics_opentelemetry = t\<rparr>
   }"

definition telemetry_config_json :: "'url config_env \<Rightarrow> telemetry_config \<Rightarrow> json" where
  "telemetry_config_json cv c = JObj
     ((''logs'', logs_config_json (logs c)) # skip_none ''traces'' traces_config_json (traces c) @
      skip_none ''metrics'' (metrics_config_json cv) (metrics c))"

definition telemetry_config_of_json :: "'url config_env \<Rightarrow> json \<Rightarrow> telemetry_config option" where
  "telemetry_config_of_json cv j = do {
     kvs \<leftarrow> object_of j;
     known_fields [''logs'', ''traces'', ''metrics''] kvs;
     l \<leftarrow> defaulted logs_config_default logs_config_of_json kvs ''logs'';
     t \<leftarrow> optional traces_config_of_json kvs ''traces'';
     m \<leftarrow> optional (metrics_config_of_json cv) kvs ''metrics'';
     Some \<lparr>logs = l, traces = t, metrics = m\<rparr>
   }"

definition config_json :: "'url config_env \<Rightarrow> 'url config \<Rightarrow> json" where
  "config_json cv c = JObj
     [(''server'', server_config_json cv (server c)), (''storage'', storage_config_json cv (storage_cfg c)),
      (''telemetry'', telemetry_config_json cv (telemetry c))]"

definition config_of_json :: "'url config_env \<Rightarrow> u64 \<Rightarrow> json \<Rightarrow> 'url config option" where
  "config_of_json cv available j = do {
     kvs \<leftarrow> object_of j;
     known_fields [''server'', ''storage'', ''telemetry''] kvs;
     s \<leftarrow> field (server_config_of_json cv) kvs ''server'';
     g \<leftarrow> field (storage_config_of_json cv available) kvs ''storage'';
     t \<leftarrow> field (telemetry_config_of_json cv) kvs ''telemetry'';
     Some \<lparr>server = s, storage_cfg = g, telemetry = t\<rparr>
   }"

section \<open>Reading back\<close>

text \<open>
  The interface of a section: values for which the decoder reads back what the encoder has written, and
  what follows for a field of that type, required, optional or with a default.
\<close>

locale section_type =
  fixes good :: "'a \<Rightarrow> bool"
    and enc :: "'a \<Rightarrow> json"
    and dec :: "json \<Rightarrow> 'a option"
  assumes reads_back: "good x \<Longrightarrow> dec (enc x) = Some x"
begin

lemma field_back: "filter (\<lambda>e. fst e = k) kvs = [(k, enc x)] \<Longrightarrow> good x \<Longrightarrow> field dec kvs k = Some x"
  by (simp add: field_def reads_back)

lemma defaulted_back: "filter (\<lambda>e. fst e = k) kvs = [(k, enc x)] \<Longrightarrow> good x \<Longrightarrow> defaulted d dec kvs k = Some x"
  by (simp add: defaulted_def reads_back)

lemma optional_back:
  "filter (\<lambda>e. fst e = k) kvs = skip_none k enc x \<Longrightarrow> pred_option good x \<Longrightarrow> optional dec kvs k = Some x"
  by (cases x) (simp_all add: optional_def skip_none_def reads_back)

lemma list_back: "list_all good xs \<Longrightarrow> list_of_json dec (list_json enc xs) = Some xs"
  by (induction xs) (simp_all add: list_json_def reads_back)

end

lemma known_fields_Some: "known_fields ks kvs = Some u \<longleftrightarrow> (\<forall>e\<in>set kvs. fst e \<in> set ks)"
  by (simp add: known_fields_def list_all_iff)

lemma known_fields_simps [simp]:
  "known_fields ks [] = Some ()"
  "known_fields ks (e # kvs) = (if fst e \<in> set ks then known_fields ks kvs else None)"
  "known_fields ks (kvs @ kvs') = Option.bind (known_fields ks kvs) (\<lambda>_. known_fields ks kvs')"
  "k \<in> set ks \<Longrightarrow> known_fields ks (skip_none k enc x) = Some ()"
  by (auto simp: known_fields_def skip_none_def split: option.split)

lemma filter_skip_none [simp]:
  "filter (\<lambda>e. fst e = k) (skip_none k' enc x) = (if k' = k then skip_none k' enc x else [])"
  by (cases x) (simp_all add: skip_none_def)

lemma pred_option_True [simp]: "pred_option (\<lambda>_. True) x"
  by (cases x) simp_all

lemma pred_option_const: "b \<Longrightarrow> pred_option (\<lambda>_. b) x"
  by (cases x) simp_all

text \<open>Addresses: the four numbers and the port are found again.\<close>

lemma split_on_free: "d \<notin> set xs \<Longrightarrow> split_on d xs = [xs]"
  by (induction xs) auto

lemma split_on_first: "d \<notin> set xs \<Longrightarrow> split_on d (xs @ d # ys) = xs # split_on d ys"
  by (induction xs) auto

lemma parse_zero [simp]: "parse_digits ''0'' = Some 0"
  by code_simp

lemma octet_back: "0 \<le> n \<Longrightarrow> n < 256 \<Longrightarrow> octet_of_text (decimal n) = Some n"
  using length_decimal [of n 2] decimal_hd [of n] by (cases "n = 0") (simp_all add: octet_of_text_def)

lemma separators: "digit_value CHR ''.'' = None" "digit_value CHR '':'' = None"
  by code_simp+

lemma uint_octets:
  fixes a :: u32
  shows "0 \<le> uint a div 2 ^ 24" "uint a div 2 ^ 24 < 256"
    "((uint a div 2 ^ 24 * 256 + uint a div 2 ^ 16 mod 256) * 256 + uint a div 2 ^ 8 mod 256) * 256 + uint a mod 256 = uint a"
proof -
  show "0 \<le> uint a div 2 ^ 24" by (rule div_int_pos_iff [THEN iffD2]) simp
  show "uint a div 2 ^ 24 < 256" using uint_lt2p [of a] by simp
  have "uint a div 2 ^ 16 = uint a div 2 ^ 8 div 256" "uint a div 2 ^ 24 = uint a div 2 ^ 8 div 256 div 256"
    by (simp_all add: div_mult2_eq [symmetric])
  then show "((uint a div 2 ^ 24 * 256 + uint a div 2 ^ 16 mod 256) * 256 + uint a div 2 ^ 8 mod 256) * 256 + uint a mod 256 = uint a"
    by (simp add: div_mult_mod_eq)
qed

lemma v4_back: "v4_of_text (v4_text a) = Some a"
proof -
  let ?n = "uint a"
  have "split_on CHR ''.'' (v4_text a) = [decimal (?n div 2 ^ 24), decimal (?n div 2 ^ 16 mod 256),
      decimal (?n div 2 ^ 8 mod 256), decimal (?n mod 256)]"
    unfolding v4_text_def Let_def using uint_octets(1) [of a]
    by (simp add: split_on_first split_on_free decimal_set separators del: power_numeral)
  then have "v4_of_text (v4_text a) = Some (word_of_int (((?n div 2 ^ 24 * 256 + ?n div 2 ^ 16 mod 256) * 256 +
      ?n div 2 ^ 8 mod 256) * 256 + ?n mod 256))"
    using uint_octets(1,2) [of a] by (simp only: v4_of_text_def) (simp add: octet_back del: power_numeral)
  also have "\<dots> = Some a" by (simp only: uint_octets(3)) simp
  finally show ?thesis .
qed

lemma v4_text_no_colon: "CHR '':'' \<notin> set (v4_text a)"
  using uint_octets(1) [of a] by (simp add: v4_text_def Let_def decimal_set separators del: power_numeral)

lemma split_bracket: "split_on CHR '':'' (CHR ''['' # t) = [x, p] \<Longrightarrow> \<exists>x'. x = CHR ''['' # x'"
  by (auto split: list.splits)

lemma v4_bracket: "v4_of_text (CHR ''['' # t) = None"
proof -
  have "digits_value 0 (CHR ''['' # t) = None" for t
    by (simp add: digit_value_def)
  then have "octet_of_text (CHR ''['' # t) = None" for t
    by (simp add: octet_of_text_def parse_digits_def)
  then show ?thesis by (auto simp: v4_of_text_def split: list.splits)
qed

lemma addr_back: "config_env_ok cv \<Longrightarrow> addr_of_text cv (addr_text cv sa) = Some sa"
proof (cases "ip sa")
  case (V4 a)
  have "split_on CHR '':'' (v4_text a @ CHR '':'' # decimal (uint (port sa))) = [v4_text a, decimal (uint (port sa))]"
    by (simp add: split_on_first split_on_free v4_text_no_colon decimal_set separators)
  moreover have "uint (port sa) < 2 ^ 16" using uint_lt2p [of "port sa"] by simp
  ultimately show ?thesis
    using V4 by (cases sa) (simp add: addr_of_text_def v4_addr_of_text_def v4_back)
next
  case (V6 a)
  assume ok: "config_env_ok cv"
  then obtain t where t: "v6_text cv a (port sa) = CHR ''['' # t"
    unfolding config_env_ok_def by blast
  have "v4_addr_of_text (CHR ''['' # t) = None"
    using split_bracket [of t] v4_bracket by (auto simp: v4_addr_of_text_def split: list.splits)
  then have "v4_addr_of_text (v6_text cv a (port sa)) = None" by (simp only: t)
  with ok V6 show ?thesis
    by (cases sa) (simp add: addr_of_text_def config_env_ok_def)
qed

section \<open>Interpretations\<close>

interpretation text_section: section_type "\<lambda>_. True" JStr text_of
  by unfold_locales simp

interpretation addr_section: section_type "\<lambda>_. config_env_ok cv" "addr_json cv" "addr_of_json cv" for cv
  by unfold_locales (simp add: addr_json_def addr_of_json_def addr_back del: addr_text.simps)

interpretation peer_section: section_type "\<lambda>_. config_env_ok cv" "cv_url_json cv" "cv_url_of_json cv" for cv
  by unfold_locales (simp add: cv_url_json_def cv_url_of_json_def config_env_ok_def)

interpretation duration_section: section_type "\<lambda>_. config_env_ok cv" "duration_json cv" "duration_of_json cv" for cv
  by unfold_locales (simp add: duration_json_def duration_of_json_def config_env_ok_def)

text \<open>A size that its text does not round.\<close>

definition exact_size :: "'url config_env \<Rightarrow> u64 \<Rightarrow> bool" where
  "exact_size cv b \<longleftrightarrow> size_of_text cv (size_text cv b) = Some b"

interpretation size_section: section_type "exact_size cv" "byte_size_json cv" "byte_size_of_json cv" for cv
  by unfold_locales (simp add: byte_size_json_def exact_size_def)

interpretation nz_section: section_type "\<lambda>_. True" nz_json nz_of_json
proof unfold_locales
  show "nz_of_json (nz_json n) = Some n" for n
    using nz_get_nonzero [of n] uint_lt2p [of "nz_get n"]
    by (simp add: nz_of_json_def nz_json_def word_json_def nz_new_def nz_get_def Rep_nonzero_usize_inverse)
qed

lemmas scalar_back = text_section.field_back text_section.defaulted_back addr_section.defaulted_back
  addr_section.optional_back duration_section.defaulted_back size_section.defaulted_back
  nz_section.field_back nz_section.optional_back

interpretation iops_section: section_type "\<lambda>_. True" iops_counter_json iops_counter_of_json
proof unfold_locales
  show "iops_counter_of_json (iops_counter_json c) = Some c" for c
    by (cases c) (simp_all add: iops_counter_of_json_def scalar_back)
qed

interpretation throttle_section: section_type "\<lambda>_. True" disk_throttle_json disk_throttle_of_json
  by unfold_locales
    (simp add: disk_throttle_json_def disk_throttle_of_json_def scalar_back iops_section.field_back
      pred_option_const)

definition exact_storage :: "'url config_env \<Rightarrow> storage_config \<Rightarrow> bool" where
  "exact_storage cv c \<longleftrightarrow> exact_size cv (disk_capacity c) \<and> exact_size cv (memory_capacity c)"

interpretation storage_section: section_type "exact_storage cv" "storage_config_json cv"
  "storage_config_of_json cv available" for cv available
  by unfold_locales
    (simp add: storage_config_json_def storage_config_of_json_def exact_storage_def scalar_back
      throttle_section.optional_back pred_option_const)

interpretation server_section: section_type "\<lambda>_. config_env_ok cv" "server_config_json cv"
  "server_config_of_json cv" for cv
proof unfold_locales
  fix c :: "'a server_config" assume ok: "config_env_ok cv"
  have peers: "defaulted [] (list_of_json (cv_url_of_json cv)) kvs ''initial_peers'' = Some (cfg_initial_peers c)"
    if "filter (\<lambda>e. fst e = ''initial_peers'') kvs = (if cfg_initial_peers c = [] then [] else
      [(''initial_peers'', list_json (cv_url_json cv) (cfg_initial_peers c))])" for kvs
    using ok by (simp add: that defaulted_def peer_section.list_back list_all_iff)
  show "server_config_of_json cv (server_config_json cv c) = Some c"
    using ok by (simp add: server_config_json_def server_config_of_json_def scalar_back peers pred_option_const)
qed

interpretation file_section: section_type "\<lambda>_. True" file_appender_json file_appender_of_json
  by unfold_locales
    (simp add: file_appender_json_def file_appender_of_json_def scalar_back pred_option_const)

interpretation stderr_section: section_type "\<lambda>_. True" stderr_appender_json stderr_appender_of_json
  by unfold_locales (simp add: stderr_appender_json_def stderr_appender_of_json_def scalar_back)

interpretation otel_section: section_type "\<lambda>_. True" otel_appender_json otel_appender_of_json
  by unfold_locales (simp add: otel_appender_json_def otel_appender_of_json_def scalar_back)

interpretation logs_section: section_type "\<lambda>_. True" logs_config_json logs_config_of_json
  by unfold_locales
    (simp add: logs_config_json_def logs_config_of_json_def file_section.optional_back
      stderr_section.optional_back otel_section.optional_back pred_option_const)

interpretation otel_traces_section: section_type "\<lambda>_. True" otel_traces_json otel_traces_of_json
  by unfold_locales (simp add: otel_traces_json_def otel_traces_of_json_def scalar_back)

interpretation traces_section: section_type "\<lambda>_. True" traces_config_json traces_config_of_json
  by unfold_locales
    (simp add: traces_config_json_def traces_config_of_json_def scalar_back otel_traces_section.optional_back
      pred_option_const)

interpretation otel_metrics_section: section_type "\<lambda>_. config_env_ok cv" "otel_metrics_json cv"
  "otel_metrics_of_json cv" for cv
  by unfold_locales (simp add: otel_metrics_json_def otel_metrics_of_json_def scalar_back)

interpretation metrics_section: section_type "\<lambda>_. config_env_ok cv" "metrics_config_json cv"
  "metrics_config_of_json cv" for cv
  by unfold_locales
    (simp add: metrics_config_json_def metrics_config_of_json_def otel_metrics_section.optional_back
      pred_option_const)

interpretation telemetry_section: section_type "\<lambda>_. config_env_ok cv" "telemetry_config_json cv"
  "telemetry_config_of_json cv" for cv
  by unfold_locales
    (simp add: telemetry_config_json_def telemetry_config_of_json_def logs_section.defaulted_back
      traces_section.optional_back metrics_section.optional_back pred_option_const)

interpretation config_section: section_type "\<lambda>c. config_env_ok cv \<and> exact_storage cv (storage_cfg c)"
  "config_json cv" "config_of_json cv available" for cv available
  by unfold_locales
    (simp add: config_json_def config_of_json_def server_section.field_back storage_section.field_back
      telemetry_section.field_back)

end
