(* ===== verification/ConfigDocument.thy ===== *)
theory ConfigDocument
  imports ConfigSerde
begin

text \<open>
  Documents and loading: which paths a configuration file may set, the instance of the document parameter
  of \<open>load_config\<close> by trees of values, the configuration files of the repository, and the unit tests of
  \<open>crates/core/src/config.rs\<close> and \<open>cmd/percas/src/config.rs\<close> about them.
\<close>

section \<open>Paths of a document\<close>

fun value_paths :: "json \<Rightarrow> string list list" where
  "value_paths (JObj kvs) = concat (map (\<lambda>e. map ((#) (fst e)) (value_paths (snd e))) kvs)"
| "value_paths _ = [[]]"

text \<open>
  What a decoder takes has only paths of a given list; for a struct these come from its fields. The
  locale is the interface of a decoder, its lemmas what the three kinds of fields pass on.
\<close>

lemma entries_of: "(k, v) \<in> set kvs \<Longrightarrow> filter (\<lambda>e. fst e = k) kvs = es \<Longrightarrow> (k, v) \<in> set es"
  by auto

locale path_type =
  fixes dec :: "json \<Rightarrow> 'a option"
    and allowed :: "string list \<Rightarrow> bool"
  assumes paths_allowed: "dec j = Some x \<Longrightarrow> p \<in> set (value_paths j) \<Longrightarrow> allowed p"
begin

lemma field_paths:
  assumes "field dec kvs k = Some x" "(k, v) \<in> set kvs" "p \<in> set (value_paths v)"
  shows "allowed p"
proof -
  obtain es where "filter (\<lambda>e. fst e = k) kvs = es" "(k, v) \<in> set es"
    using entries_of [OF assms(2) refl] by blast
  with assms(1,3) show ?thesis by (auto simp: field_def dest: paths_allowed split: list.splits)
qed

lemma defaulted_paths:
  assumes "defaulted d dec kvs k = Some x" "(k, v) \<in> set kvs" "p \<in> set (value_paths v)"
  shows "allowed p"
proof -
  obtain es where "filter (\<lambda>e. fst e = k) kvs = es" "(k, v) \<in> set es"
    using entries_of [OF assms(2) refl] by blast
  with assms(1,3) show ?thesis by (auto simp: defaulted_def dest: paths_allowed split: list.splits)
qed

lemma optional_paths:
  assumes "optional dec kvs k = Some x" "(k, v) \<in> set kvs" "p \<in> set (value_paths v)"
  shows "allowed p"
proof -
  obtain es where "filter (\<lambda>e. fst e = k) kvs = es" "(k, v) \<in> set es"
    using entries_of [OF assms(2) refl] by blast
  with assms(1,3) show ?thesis by (auto simp: optional_def dest: paths_allowed split: list.splits)
qed

end

lemma text_of_Some: "text_of j = Some s \<longleftrightarrow> j = JStr s"
  by (cases j) simp_all

lemma word_of_json_JObj [simp]: "word_of_json (JObj kvs) = None"
  by simp

interpretation text_paths: path_type text_of "\<lambda>p. p = []"
  by unfold_locales (auto simp: text_of_Some)

interpretation addr_paths: path_type "addr_of_json cv" "\<lambda>p. p = []" for cv
  by unfold_locales (auto simp: addr_of_json_def text_of_Some bind_eq_Some_conv)

interpretation duration_paths: path_type "duration_of_json cv" "\<lambda>p. p = []" for cv
  by unfold_locales (auto simp: duration_of_json_def text_of_Some bind_eq_Some_conv)

interpretation size_paths: path_type "byte_size_of_json cv" "\<lambda>p. p = []" for cv
proof unfold_locales
  show "p = []" if "byte_size_of_json cv j = Some x" "p \<in> set (value_paths j)" for j x p
    using that by (cases j) auto
qed

interpretation nz_paths: path_type nz_of_json "\<lambda>p. p = []"
proof unfold_locales
  show "p = []" if "nz_of_json j = Some x" "p \<in> set (value_paths j)" for j x p
    using that by (cases j) (auto simp: nz_of_json_def)
qed

interpretation peers_paths: path_type "list_of_json (cv_url_of_json cv)" "\<lambda>p. p = []" for cv
proof unfold_locales
  show "p = []" if "list_of_json (cv_url_of_json cv) j = Some x" "p \<in> set (value_paths j)" for j x p
    using that by (cases j) auto
qed

text \<open>The paths below the fields of a struct.\<close>

definition below :: "(string \<times> (string list \<Rightarrow> bool)) list \<Rightarrow> string list \<Rightarrow> bool" where
  "below flds p \<longleftrightarrow> (case p of [] \<Rightarrow> False | k # q \<Rightarrow> (case map_of flds k of None \<Rightarrow> False | Some a \<Rightarrow> a q))"

lemma struct_paths:
  assumes "object_of j = Some kvs" "p \<in> set (value_paths j)" "known_fields (map fst flds) kvs = Some u"
    and "\<And>k v a q. (k, v) \<in> set kvs \<Longrightarrow> map_of flds k = Some a \<Longrightarrow> q \<in> set (value_paths v) \<Longrightarrow> a q"
  shows "below flds p"
proof -
  from assms(1,2) obtain k v q where kv: "(k, v) \<in> set kvs" "p = k # q" "q \<in> set (value_paths v)"
    by (cases j) auto
  then have "k \<in> fst ` set flds" using assms(3) by (force simp: known_fields_Some)
  then obtain a where "map_of flds k = Some a" by (cases "map_of flds k") (auto simp: map_of_eq_None_iff)
  with assms(4) kv show ?thesis by (auto simp: below_def)
qed

abbreviation leaf :: "string list \<Rightarrow> bool" where "leaf p \<equiv> p = []"

text \<open>\<open>server\<close>, \<open>storage\<close> and \<open>telemetry\<close>, field by field; below the counter of the throttle anything may stand, as its unit variant looks at nothing else.\<close>

definition server_fields :: "(string \<times> (string list \<Rightarrow> bool)) list" where
  "server_fields = [(''dir'', leaf), (''listen_data_addr'', leaf), (''advertise_data_addr'', leaf),
     (''listen_ctrl_addr'', leaf), (''advertise_ctrl_addr'', leaf), (''initial_peers'', leaf), (''cluster_id'', leaf)]"

definition throttle_fields :: "(string \<times> (string list \<Rightarrow> bool)) list" where
  "throttle_fields = [(''write_iops'', leaf), (''read_iops'', leaf), (''write_throughput'', leaf),
     (''read_throughput'', leaf), (''iops_counter'', \<lambda>p. True)]"

definition storage_fields :: "(string \<times> (string list \<Rightarrow> bool)) list" where
  "storage_fields = [(''data_dir'', leaf), (''disk_capacity'', leaf), (''memory_capacity'', leaf),
     (''disk_throttle'', below throttle_fields)]"

definition logs_fields :: "(string \<times> (string list \<Rightarrow> bool)) list" where
  "logs_fields = [(''file'', below [(''filter'', leaf), (''dir'', leaf), (''max_files'', leaf)]),
     (''stderr'', below [(''filter'', leaf)]), (''opentelemetry'', below [(''filter'', leaf), (''otlp_endpoint'', leaf)])]"

definition telemetry_fields :: "(string \<times> (string list \<Rightarrow> bool)) list" where
  "telemetry_fields = [(''logs'', below logs_fields),
     (''traces'', below [(''capture_log_filter'', leaf), (''opentelemetry'', below [(''otlp_endpoint'', leaf)])]),
     (''metrics'', below [(''opentelemetry'', below [(''otlp_endpoint'', leaf), (''push_interval'', leaf)])])]"

definition config_fields :: "(string \<times> (string list \<Rightarrow> bool)) list" where
  "config_fields = [(''server'', below server_fields), (''storage'', below storage_fields),
     (''telemetry'', below telemetry_fields)]"

lemmas leaf_paths = text_paths.field_paths text_paths.defaulted_paths addr_paths.defaulted_paths
  addr_paths.optional_paths peers_paths.defaulted_paths duration_paths.defaulted_paths
  size_paths.defaulted_paths nz_paths.optional_paths

interpretation server_paths: path_type "server_config_of_json cv" "below server_fields" for cv
  by unfold_locales (auto simp: server_config_of_json_def bind_eq_Some_conv server_fields_def
      elim!: struct_paths split: if_splits dest: leaf_paths)

interpretation throttle_paths: path_type disk_throttle_of_json "below throttle_fields"
  by unfold_locales (auto simp: disk_throttle_of_json_def bind_eq_Some_conv throttle_fields_def
      elim!: struct_paths split: if_splits dest: leaf_paths)

interpretation storage_paths: path_type "storage_config_of_json cv available" "below storage_fields" for cv available
  by unfold_locales (auto simp: storage_config_of_json_def bind_eq_Some_conv storage_fields_def
      elim!: struct_paths split: if_splits dest: leaf_paths throttle_paths.optional_paths)

interpretation file_paths: path_type file_appender_of_json "below [(''filter'', leaf), (''dir'', leaf), (''max_files'', leaf)]"
  by unfold_locales (auto simp: file_appender_of_json_def bind_eq_Some_conv
      elim!: struct_paths split: if_splits dest: leaf_paths)

interpretation stderr_paths: path_type stderr_appender_of_json "below [(''filter'', leaf)]"
  by unfold_locales (auto simp: stderr_appender_of_json_def bind_eq_Some_conv
      elim!: struct_paths split: if_splits dest: leaf_paths)

interpretation otel_paths: path_type otel_appender_of_json "below [(''filter'', leaf), (''otlp_endpoint'', leaf)]"
  by unfold_locales (auto simp: otel_appender_of_json_def bind_eq_Some_conv
      elim!: struct_paths split: if_splits dest: leaf_paths)

interpretation logs_paths: path_type logs_config_of_json "below logs_fields"
  by unfold_locales (auto simp: logs_config_of_json_def bind_eq_Some_conv logs_fields_def
      elim!: struct_paths split: if_splits dest: file_paths.optional_paths stderr_paths.optional_paths otel_paths.optional_paths)

interpretation otel_traces_paths: path_type otel_traces_of_json "below [(''otlp_endpoint'', leaf)]"
  by unfold_locales (auto simp: otel_traces_of_json_def bind_eq_Some_conv
      elim!: struct_paths split: if_splits dest: leaf_paths)

interpretation traces_paths: path_type traces_config_of_json
  "below [(''capture_log_filter'', leaf), (''opentelemetry'', below [(''otlp_endpoint'', leaf)])]"
  by unfold_locales (auto simp: traces_config_of_json_def bind_eq_Some_conv
      elim!: struct_paths split: if_splits dest: leaf_paths otel_traces_paths.optional_paths)

interpretation otel_metrics_paths: path_type "otel_metrics_of_json cv"
  "below [(''otlp_endpoint'', leaf), (''push_interval'', leaf)]" for cv
  by unfold_locales (auto simp: otel_metrics_of_json_def bind_eq_Some_conv
      elim!: struct_paths split: if_splits dest: leaf_paths)

interpretation metrics_paths: path_type "metrics_config_of_json cv"
  "below [(''opentelemetry'', below [(''otlp_endpoint'', leaf), (''push_interval'', leaf)])]" for cv
  by unfold_locales (auto simp: metrics_config_of_json_def bind_eq_Some_conv
      elim!: struct_paths split: if_splits dest: otel_metrics_paths.optional_paths)

interpretation telemetry_paths: path_type "telemetry_config_of_json cv" "below telemetry_fields" for cv
  by unfold_locales (auto simp: telemetry_config_of_json_def bind_eq_Some_conv telemetry_fields_def
      elim!: struct_paths split: if_splits
      dest: logs_paths.defaulted_paths traces_paths.optional_paths metrics_paths.optional_paths)

interpretation config_paths: path_type "config_of_json cv available" "below config_fields" for cv available
  by unfold_locales (auto simp: config_of_json_def bind_eq_Some_conv config_fields_def
      elim!: struct_paths split: if_splits
      dest: server_paths.field_paths storage_paths.field_paths telemetry_paths.field_paths)

text \<open>The paths below the sections are those of the table of variables.\<close>

definition known_path :: "string list \<Rightarrow> bool" where
  "known_path p \<longleftrightarrow> (\<exists>e\<in>set known_option_entries. entry_parts e = p)"

lemma known_path_code: "known_path p \<longleftrightarrow> p \<in> set (map entry_parts known_option_entries)"
  by (auto simp: known_path_def)

lemma below_Cons:
  "below ((k, a) # flds) p \<longleftrightarrow> (case p of [] \<Rightarrow> False | k' # q \<Rightarrow> if k = k' then a q else below flds p)"
  "\<not> below [] p"
  by (auto simp: below_def split: list.splits)

lemma table_paths: "map entry_parts known_option_entries =
  [[''server'', ''advertise_ctrl_addr''], [''server'', ''advertise_data_addr''], [''server'', ''cluster_id''],
   [''server'', ''dir''], [''server'', ''initial_peers''], [''server'', ''listen_ctrl_addr''],
   [''server'', ''listen_data_addr''], [''storage'', ''data_dir''], [''storage'', ''disk_capacity''],
   [''storage'', ''disk_throttle'', ''iops_counter'', ''mode''],
   [''storage'', ''disk_throttle'', ''iops_counter'', ''size''], [''storage'', ''disk_throttle'', ''read_iops''],
   [''storage'', ''disk_throttle'', ''read_throughput''], [''storage'', ''disk_throttle'', ''write_iops''],
   [''storage'', ''disk_throttle'', ''write_throughput''], [''storage'', ''memory_capacity''],
   [''telemetry'', ''logs'', ''file'', ''dir''], [''telemetry'', ''logs'', ''file'', ''filter''],
   [''telemetry'', ''logs'', ''file'', ''max_files''], [''telemetry'', ''logs'', ''opentelemetry'', ''filter''],
   [''telemetry'', ''logs'', ''opentelemetry'', ''otlp_endpoint''], [''telemetry'', ''logs'', ''stderr'', ''filter''],
   [''telemetry'', ''metrics'', ''opentelemetry'', ''otlp_endpoint''],
   [''telemetry'', ''metrics'', ''opentelemetry'', ''push_interval''],
   [''telemetry'', ''traces'', ''capture_log_filter''],
   [''telemetry'', ''traces'', ''opentelemetry'', ''otlp_endpoint'']]"
  by code_simp

lemma below_config_known:
  "below config_fields p \<Longrightarrow> known_path p \<or> take 3 p = [''storage'', ''disk_throttle'', ''iops_counter'']"
  unfolding known_path_code table_paths
  by (auto simp: config_fields_def server_fields_def storage_fields_def throttle_fields_def telemetry_fields_def
      logs_fields_def below_Cons split: list.splits if_splits)

section \<open>Loading documents\<close>

fun put_entry :: "string \<Rightarrow> json \<Rightarrow> object \<Rightarrow> object" where
  "put_entry k v [] = [(k, v)]"
| "put_entry k v (e # kvs) = (if fst e = k then (k, v) # kvs else e # put_entry k v kvs)"

text \<open>
  Indexing a missing key makes an empty item, here \<open>JNull\<close>, which becomes a table when it is indexed in
  turn; indexing a scalar panics.
\<close>

definition config_ops :: "'url config_env \<Rightarrow> u64 \<Rightarrow> (string \<Rightarrow> json option) \<Rightarrow> (json, 'url) toml_ops" where
  "config_ops cv available parse =
     \<lparr>t_parse = parse, t_str = JStr, t_int = JNum, t_bool = JBool,
      t_get = (\<lambda>x k. Option.bind (object_of x) (\<lambda>kvs. map_of kvs k)),
      t_index = (\<lambda>x k. case x of
          JObj kvs \<Rightarrow> Ok (case map_of kvs k of None \<Rightarrow> JNull | Some y \<Rightarrow> y)
        | JNull \<Rightarrow> Ok JNull
        | _ \<Rightarrow> Err IndexNotFound),
      t_put = (\<lambda>x k v. case x of JObj kvs \<Rightarrow> JObj (put_entry k v kvs) | _ \<Rightarrow> JObj [(k, v)]),
      t_deserialize = config_of_json cv available\<rparr>"

lemma map_of_put_entry [simp]: "map_of (put_entry k v kvs) k' = (if k' = k then Some v else map_of kvs k')"
  by (induction kvs) auto

lemma config_ops_ok: "toml_ok (config_ops cv available parse)"
proof -
  let ?ops = "config_ops cv available parse"
  have "x = JNull \<or> (\<exists>kvs. x = JObj kvs)" if "t_index ?ops x k = Inr y" for x k y
    using that by (cases x) (simp_all add: config_ops_def)
  then show ?thesis
    unfolding toml_ok_def config_ops_def
    by (auto split: option.splits json.splits)
qed

text \<open>The file \<open>dev/standalone/config.toml\<close> of the repository.\<close>

definition dev_standalone :: json where
  "dev_standalone = JObj
     [(''server'', JObj
        [(''dir'', JStr ''.percas''), (''listen_data_addr'', JStr ''0.0.0.0:7654''),
         (''listen_ctrl_addr'', JStr ''0.0.0.0:7655''), (''cluster_id'', JStr ''percas-cluster'')]),
      (''storage'', JObj [(''data_dir'', JStr ''.percas/data''), (''disk_capacity'', JNum 536870912)]),
      (''telemetry'', JObj
        [(''logs'', JObj
           [(''file'', JObj [(''filter'', JStr ''INFO''), (''dir'', JStr ''logs''), (''max_files'', JNum 64)]),
            (''stderr'', JObj [(''filter'', JStr ''INFO'')]),
            (''opentelemetry'', JObj
               [(''filter'', JStr ''INFO''), (''otlp_endpoint'', JStr ''http://127.0.0.1:4317'')])]),
         (''traces'', JObj
           [(''capture_log_filter'', JStr ''INFO''),
            (''opentelemetry'', JObj [(''otlp_endpoint'', JStr ''http://127.0.0.1:4317'')])]),
         (''metrics'', JObj
           [(''opentelemetry'', JObj
              [(''otlp_endpoint'', JStr ''http://127.0.0.1:4317''), (''push_interval'', JStr ''30s'')])])])]"

section \<open>The unit tests\<close>

text \<open>\<open>load_config(..).unwrap().config\<close> on that file, as the three tests of loading begin.\<close>

definition load_dev_config ::
  "('t, 'url) toml_ops \<Rightarrow> file_system \<Rightarrow> string \<Rightarrow> (string \<times> string) list \<Rightarrow> panic + 'url config" where
  "load_dev_config ops fs workspace vars =
     panic_bind (load_config ops fs (workspace @ ''/dev/standalone/config.toml'') vars) (\<lambda>r.
     case r of Inl _ \<Rightarrow> Err UnwrapNone | Inr res \<Rightarrow> Ok (loaded res))"

definition test_default_config ::
  "('t, 'url) toml_ops \<Rightarrow> u64 \<Rightarrow> file_system \<Rightarrow> string \<Rightarrow> (string \<times> string) list \<Rightarrow> panic + unit" where
  "test_default_config ops available fs workspace vars =
     panic_bind (load_dev_config ops fs workspace vars) (\<lambda>dev_config.
     let dev_config = dev_config\<lparr>storage_cfg := (storage_cfg dev_config)\<lparr>data_dir := default_data_dir\<rparr>\<rparr>;
         dev_config = dev_config\<lparr>server := (server dev_config)
           \<lparr>cfg_server_dir := default_dir, advertise_data_addr := None\<rparr>\<rparr>
     in rust_assert (dev_config = config_default available))"

definition test_percas_prefix_no_conflict ::
  "('t, 'url) toml_ops \<Rightarrow> u64 \<Rightarrow> file_system \<Rightarrow> string \<Rightarrow> (string \<times> string) list \<Rightarrow> panic + unit" where
  "test_percas_prefix_no_conflict ops available fs workspace vars =
     panic_bind (load_dev_config ops fs workspace ((''PERCAS_FOO_BAR'', ''baz'') # vars)) (\<lambda>dev_config.
     let dev_config = dev_config\<lparr>storage_cfg := (storage_cfg dev_config)\<lparr>data_dir := default_data_dir\<rparr>\<rparr>;
         dev_config = dev_config\<lparr>server := (server dev_config)
           \<lparr>cfg_server_dir := default_dir, advertise_data_addr := None\<rparr>\<rparr>
     in rust_assert (dev_config = config_default available))"

definition test_override_otlp_endpoint ::
  "('t, 'url) toml_ops \<Rightarrow> file_system \<Rightarrow> string \<Rightarrow> (string \<times> string) list \<Rightarrow> panic + unit" where
  "test_override_otlp_endpoint ops fs workspace vars =
     panic_bind (load_dev_config ops fs workspace
       ((''PERCAS_CONFIG_TELEMETRY_LOGS_OPENTELEMETRY_OTLP_ENDPOINT'', ''http://192.168.1.14:4317'') # vars)) (\<lambda>dev_config.
     panic_bind (unwrap (logs_opentelemetry (logs (telemetry dev_config)))) (\<lambda>otel.
     rust_assert (logs_otlp_endpoint otel = ''http://192.168.1.14:4317'')))"

text \<open>\<open>assert_toml_snapshot!\<close> on the default configuration, with the size of the memory redacted.\<close>

fun redact :: "string list \<Rightarrow> json \<Rightarrow> json \<Rightarrow> json" where
  "redact [] v j = v"
| "redact (k # ks) v (JObj kvs) = JObj (map (\<lambda>e. if fst e = k then (k, redact ks v (snd e)) else e) kvs)"
| "redact (k # ks) v j = j"

definition default_config_test :: "'url config_env \<Rightarrow> u64 \<Rightarrow> panic + unit" where
  "default_config_test cv available =
     rust_assert (redact [''storage'', ''memory_capacity''] (JStr ''[available memory size]'')
         (config_json cv (config_default available)) = JObj
       [(''server'', JObj
          [(''dir'', JStr ''/var/lib/percas''), (''listen_data_addr'', JStr ''0.0.0.0:7654''),
           (''listen_ctrl_addr'', JStr ''0.0.0.0:7655''), (''cluster_id'', JStr ''percas-cluster'')]),
        (''storage'', JObj
          [(''data_dir'', JStr ''/var/lib/percas/data''), (''disk_capacity'', JStr ''512.0 MiB''),
           (''memory_capacity'', JStr ''[available memory size]'')]),
        (''telemetry'', JObj
          [(''logs'', JObj
             [(''file'', JObj [(''filter'', JStr ''INFO''), (''dir'', JStr ''logs''), (''max_files'', JNum 64)]),
              (''stderr'', JObj [(''filter'', JStr ''INFO'')]),
              (''opentelemetry'', JObj
                 [(''filter'', JStr ''INFO''), (''otlp_endpoint'', JStr ''http://127.0.0.1:4317'')])]),
           (''traces'', JObj
             [(''capture_log_filter'', JStr ''INFO''),
              (''opentelemetry'', JObj [(''otlp_endpoint'', JStr ''http://127.0.0.1:4317'')])]),
           (''metrics'', JObj
             [(''opentelemetry'', JObj
                [(''otlp_endpoint'', JStr ''http://127.0.0.1:4317''), (''push_interval'', JStr ''PT30S'')])])])])"

section \<open>Lemmas\<close>

lemma default_addresses:
  "addr_of_text cv ''0.0.0.0:7654'' = Some default_listen_data_addr"
  "addr_of_text cv ''0.0.0.0:7655'' = Some default_listen_ctrl_addr"
proof -
  have "v4_addr_of_text ''0.0.0.0:7654'' = Some default_listen_data_addr"
      "v4_addr_of_text ''0.0.0.0:7655'' = Some default_listen_ctrl_addr" by code_simp+
  then show "addr_of_text cv ''0.0.0.0:7654'' = Some default_listen_data_addr"
      "addr_of_text cv ''0.0.0.0:7655'' = Some default_listen_ctrl_addr" by (simp_all add: addr_of_text_def)
qed

lemma default_address_texts:
  "addr_text cv default_listen_data_addr = ''0.0.0.0:7654''" "addr_text cv default_listen_ctrl_addr = ''0.0.0.0:7655''"
proof -
  have "v4_text 0 @ '':'' @ decimal (uint (7654 :: 16 word)) = ''0.0.0.0:7654''"
      "v4_text 0 @ '':'' @ decimal (uint (7655 :: 16 word)) = ''0.0.0.0:7655''" by code_simp+
  then show "addr_text cv default_listen_data_addr = ''0.0.0.0:7654''"
      "addr_text cv default_listen_ctrl_addr = ''0.0.0.0:7655''"
    by (simp_all add: default_listen_data_addr_def default_listen_ctrl_addr_def)
qed

lemma default_sizes: "word_of_json (JNum 536870912) = Some (default_disk_capacity :: u64)"
  by (simp add: default_disk_capacity_def mib_def)

lemma nz_64: "nz_of_json (JNum 64) = nz_new 64" "map_option nz_get (nz_new 64) = Some 64"
  by (simp_all add: nz_of_json_def nz_new_def nz_get_def Abs_nonzero_usize_inverse)

definition dev_config :: "string \<Rightarrow> u64 \<Rightarrow> 'url config" where
  "dev_config endpoint available =
     (let c = config_default available in
      c\<lparr>server := (server c)\<lparr>cfg_server_dir := ''.percas''\<rparr>,
        storage_cfg := (storage_cfg c)\<lparr>data_dir := ''.percas/data''\<rparr>,
        telemetry := (telemetry c)\<lparr>logs := (logs (telemetry c))
          \<lparr>logs_opentelemetry := Some \<lparr>otel_filter = ''INFO'', logs_otlp_endpoint = endpoint\<rparr>\<rparr>\<rparr>\<rparr>)"

lemmas decoders = server_config_of_json_def storage_config_of_json_def telemetry_config_of_json_def
  logs_config_of_json_def file_appender_of_json_def stderr_appender_of_json_def otel_appender_of_json_def
  traces_config_of_json_def otel_traces_of_json_def metrics_config_of_json_def otel_metrics_of_json_def
  field_def optional_def defaulted_def

lemma dev_server: "server_config_of_json cv (JObj
    [(''dir'', JStr ''.percas''), (''listen_data_addr'', JStr ''0.0.0.0:7654''),
     (''listen_ctrl_addr'', JStr ''0.0.0.0:7655''), (''cluster_id'', JStr ''percas-cluster'')]) =
  Some \<lparr>cfg_server_dir = ''.percas'', listen_data_addr = default_listen_data_addr, advertise_data_addr = None,
    listen_ctrl_addr = default_listen_ctrl_addr, advertise_ctrl_addr = None, cfg_initial_peers = [],
    cfg_cluster_id = default_cluster_id\<rparr>"
  by (simp add: decoders addr_of_json_def default_addresses default_cluster_id_def)

lemma dev_storage: "storage_config_of_json cv available (JObj
    [(''data_dir'', JStr ''.percas/data''), (''disk_capacity'', JNum 536870912)]) =
  Some \<lparr>data_dir = ''.percas/data'', disk_capacity = default_disk_capacity,
    memory_capacity = default_memory_capacity available, disk_throttle_of = None\<rparr>"
  by (simp add: decoders default_sizes del: word_of_json.simps)

lemma dev_logs: "logs_config_of_json (JObj
     [(''file'', JObj [(''filter'', JStr ''INFO''), (''dir'', JStr ''logs''), (''max_files'', JNum 64)]),
      (''stderr'', JObj [(''filter'', JStr ''INFO'')]),
      (''opentelemetry'', JObj [(''filter'', JStr ''INFO''), (''otlp_endpoint'', JStr endpoint)])]) =
  Some \<lparr>logs_file = Some \<lparr>file_filter = ''INFO'', file_dir = ''logs'', max_files = nz_new 64\<rparr>,
    logs_stderr = Some \<lparr>stderr_filter = ''INFO''\<rparr>,
    logs_opentelemetry = Some \<lparr>otel_filter = ''INFO'', logs_otlp_endpoint = endpoint\<rparr>\<rparr>"
proof -
  obtain n where n: "nz_new 64 = Some n" using nz_new_Some [of 64] by auto
  then show ?thesis by (simp add: decoders nz_64)
qed

lemma dev_traces: "traces_config_of_json (JObj
     [(''capture_log_filter'', JStr ''INFO''),
      (''opentelemetry'', JObj [(''otlp_endpoint'', JStr ''http://127.0.0.1:4317'')])]) =
  Some \<lparr>capture_log_filter = ''INFO'',
    traces_opentelemetry = Some \<lparr>traces_otlp_endpoint = ''http://127.0.0.1:4317''\<rparr>\<rparr>"
  by (simp add: decoders)

lemma dev_metrics: "duration_of_text cv ''30s'' = Some d \<Longrightarrow> metrics_config_of_json cv (JObj
     [(''opentelemetry'', JObj
        [(''otlp_endpoint'', JStr ''http://127.0.0.1:4317''), (''push_interval'', JStr ''30s'')])]) =
  Some \<lparr>metrics_opentelemetry = Some
    \<lparr>metrics_otlp_endpoint = ''http://127.0.0.1:4317'', push_interval = d\<rparr>\<rparr>"
  by (simp add: decoders duration_of_json_def)

text \<open>The file with another endpoint for the logs, as the variable of the third test sets it.\<close>

definition dev_document :: "string \<Rightarrow> json" where
  "dev_document endpoint = JObj
     [(''server'', JObj
        [(''dir'', JStr ''.percas''), (''listen_data_addr'', JStr ''0.0.0.0:7654''),
         (''listen_ctrl_addr'', JStr ''0.0.0.0:7655''), (''cluster_id'', JStr ''percas-cluster'')]),
      (''storage'', JObj [(''data_dir'', JStr ''.percas/data''), (''disk_capacity'', JNum 536870912)]),
      (''telemetry'', JObj
        [(''logs'', JObj
           [(''file'', JObj [(''filter'', JStr ''INFO''), (''dir'', JStr ''logs''), (''max_files'', JNum 64)]),
            (''stderr'', JObj [(''filter'', JStr ''INFO'')]),
            (''opentelemetry'', JObj [(''filter'', JStr ''INFO''), (''otlp_endpoint'', JStr endpoint)])]),
         (''traces'', JObj
           [(''capture_log_filter'', JStr ''INFO''),
            (''opentelemetry'', JObj [(''otlp_endpoint'', JStr ''http://127.0.0.1:4317'')])]),
         (''metrics'', JObj
           [(''opentelemetry'', JObj
              [(''otlp_endpoint'', JStr ''http://127.0.0.1:4317''), (''push_interval'', JStr ''30s'')])])])]"

lemma dev_standalone_document: "dev_standalone = dev_document ''http://127.0.0.1:4317''"
  by (simp add: dev_standalone_def dev_document_def)

lemma bind_map_option: "Option.bind (map_option g x) f = Option.bind x (\<lambda>y. f (g y))"
  by (cases x) simp_all

lemma dev_document_config:
  assumes "duration_of_text cv ''30s'' = Some default_metrics_push_interval"
  shows "config_of_json cv available (dev_document endpoint) = Some (dev_config endpoint available)"
proof -
  have "telemetry_config_of_json cv (JObj [(''logs'', l), (''traces'', t), (''metrics'', m)]) =
      Option.bind (logs_config_of_json l) (\<lambda>l. Option.bind (traces_config_of_json t) (\<lambda>t.
      Option.bind (metrics_config_of_json cv m) (\<lambda>m. Some \<lparr>logs = l, traces = Some t, metrics = Some m\<rparr>)))" for l t m
    by (simp add: telemetry_config_of_json_def optional_def defaulted_def bind_map_option)
  then show ?thesis
    by (simp add: config_of_json_def dev_document_def field_def dev_server dev_storage dev_logs dev_traces
        dev_metrics [OF assms] dev_config_def config_default_def Let_def)
qed

lemma load_dev:
  assumes "read_to_string fs (workspace @ ''/dev/standalone/config.toml'') = Ok content"
    and "parse content = Some dev_standalone"
    and "apply_env (config_ops cv available parse) (filter (\<lambda>(k, _). starts_with k ''PERCAS_CONFIG_'') vars)
      dev_standalone [] = Ok (Ok (dev_document endpoint, ws))"
    and "duration_of_text cv ''30s'' = Some default_metrics_push_interval"
  shows "load_dev_config (config_ops cv available parse) fs workspace vars = Ok (dev_config endpoint available)"
proof -
  have parts: "t_parse (config_ops cv available parse) = parse"
      "t_deserialize (config_ops cv available parse) = config_of_json cv available"
    by (simp_all add: config_ops_def)
  show ?thesis
    using assms(1-3) dev_document_config [OF assms(4), of available endpoint]
    by (simp add: load_dev_config_def load_config_def Let_def parts)
qed

lemma dev_config_default:
  "(let c = dev_config ''http://127.0.0.1:4317'' available;
        c = c\<lparr>storage_cfg := (storage_cfg c)\<lparr>data_dir := default_data_dir\<rparr>\<rparr>
    in c\<lparr>server := (server c)\<lparr>cfg_server_dir := default_dir, advertise_data_addr := None\<rparr>\<rparr>) =
   config_default available"
  by (simp add: dev_config_def config_default_def Let_def)

lemma find_otlp_endpoint:
  "List.find (\<lambda>e. ''PERCAS_CONFIG_TELEMETRY_LOGS_OPENTELEMETRY_OTLP_ENDPOINT'' = env_name e) known_option_entries =
   Some (OptionEntry ''PERCAS_CONFIG_TELEMETRY_LOGS_OPENTELEMETRY_OTLP_ENDPOINT''
     ''telemetry.logs.opentelemetry.otlp_endpoint'' ''string'')"
  by (simp add: known_option_entries_def)

lemma split_endpoint_path: "split_on CHR ''.'' ''telemetry.logs.opentelemetry.otlp_endpoint'' =
    [''telemetry'', ''logs'', ''opentelemetry'', ''otlp_endpoint'']"
  by code_simp

lemma apply_otlp_endpoint:
  "apply_env (config_ops cv available parse)
     [(''PERCAS_CONFIG_TELEMETRY_LOGS_OPENTELEMETRY_OTLP_ENDPOINT'', endpoint)] dev_standalone [] =
   Ok (Ok (dev_document endpoint, []))"
  by (simp add: find_otlp_endpoint env_item_def set_toml_path_def split_endpoint_path config_ops_def
      dev_standalone_def dev_document_def)

lemma default_snapshot:
  assumes "size_text cv (default_disk_capacity :: u64) = ''512.0 MiB''"
    and "duration_text cv default_metrics_push_interval = ''PT30S''"
  shows "default_config_test cv available = Ok ()"
proof -
  obtain n where n: "nz_new 64 = Some n" "nz_get n = 64" using nz_new_Some [of 64] by auto
  show ?thesis
    using assms n default_address_texts [of cv]
    by (simp add: default_config_test_def rust_assert_def config_json_def config_default_def skip_none_def
        server_config_json_def storage_config_json_def telemetry_config_json_def logs_config_json_def
        file_appender_json_def stderr_appender_json_def otel_appender_json_def traces_config_json_def
        otel_traces_json_def metrics_config_json_def otel_metrics_json_def addr_json_def byte_size_json_def
        duration_json_def nz_json_def word_json_def default_dir_def default_data_dir_def default_cluster_id_def
        del: addr_text.simps)
qed

lemma prefixes:
  "starts_with ''PERCAS_CONFIG_TELEMETRY_LOGS_OPENTELEMETRY_OTLP_ENDPOINT'' ''PERCAS_CONFIG_''"
  "\<not> starts_with ''PERCAS_FOO_BAR'' ''PERCAS_CONFIG_''"
  by (simp_all add: starts_with_def)

section \<open>Properties\<close>

text \<open>
  C26: a configuration written to a file and loaded is the same configuration. The derived encoders and
  decoders of all sections, with their defaults, skipped fields and refused unknown fields, are inverse to
  each other; only sizes that their text rounds are lost.
\<close>
theorem config_file_round_trip:
  assumes "config_env_ok cv" and "exact_size cv (disk_capacity (storage_cfg c))"
    and "exact_size cv (memory_capacity (storage_cfg c))"
    and "read_to_string fs file = Ok content" and "parse content = Some (config_json cv c)"
    and "filter (\<lambda>(k, _). starts_with k ''PERCAS_CONFIG_'') vars = []"
  shows "load_config (config_ops cv available parse) fs file vars = Ok (Ok \<lparr>loaded = c, warnings_of = []\<rparr>)"
proof -
  have "config_of_json cv available (config_json cv c) = Some c"
    by (rule config_section.reads_back) (simp add: assms(1-3) exact_storage_def)
  then show ?thesis
    using assms(4-6) by (simp add: load_config_def config_ops_def)
qed


text \<open>
  The unit tests of the configuration pass: the file of the repository for one node gives the default
  configuration except for its directories, a variable with another prefix changes nothing, the variable of
  the endpoint of the logs replaces exactly that endpoint, and the default configuration is written as the
  recorded snapshot.
\<close>
lemma config_tests_pass:
  assumes "read_to_string fs (workspace @ ''/dev/standalone/config.toml'') = Ok content"
    and "parse content = Some dev_standalone"
    and "filter (\<lambda>(k, _). starts_with k ''PERCAS_CONFIG_'') vars = []"
    and "duration_of_text cv ''30s'' = Some default_metrics_push_interval"
    and "duration_text cv default_metrics_push_interval = ''PT30S''"
    and "size_text cv default_disk_capacity = ''512.0 MiB''"
  shows "test_default_config (config_ops cv available parse) available fs workspace vars = Ok () \<and>
    test_percas_prefix_no_conflict (config_ops cv available parse) available fs workspace vars = Ok () \<and>
    test_override_otlp_endpoint (config_ops cv available parse) fs workspace vars = Ok () \<and>
    default_config_test cv available = Ok ()"
proof -
  let ?ops = "config_ops cv available parse"
  have plain: "load_dev_config ?ops fs workspace vs = Ok (dev_config ''http://127.0.0.1:4317'' available)"
    if "filter (\<lambda>(k, _). starts_with k ''PERCAS_CONFIG_'') vs = []" for vs
    by (rule load_dev [where parse = parse, OF assms(1,2) _ assms(4)]) (simp add: that dev_standalone_document)
  have "load_dev_config ?ops fs workspace
      ((''PERCAS_CONFIG_TELEMETRY_LOGS_OPENTELEMETRY_OTLP_ENDPOINT'', ''http://192.168.1.14:4317'') # vars) =
      Ok (dev_config ''http://192.168.1.14:4317'' available)"
    by (rule load_dev [where parse = parse, OF assms(1,2) _ assms(4)]) (simp add: assms(3) prefixes apply_otlp_endpoint del: apply_env.simps)
  then show ?thesis
    using dev_config_default [of available] default_snapshot [OF assms(6,5), of available] assms(3)
    by (simp add: test_default_config_def test_percas_prefix_no_conflict_def test_override_otlp_endpoint_def
        plain prefixes rust_assert_def Let_def) (simp add: dev_config_def Let_def)
qed

section \<open>Witnesses\<close>

text \<open>An environment in which a size and a duration print as a number of units, and urls as they are.\<close>

definition demo_cv :: "string config_env" where
  "demo_cv =
     \<lparr>cv_url_text = id, cv_url_of_text = Some,
      size_text = (\<lambda>b. if b = default_disk_capacity then ''512.0 MiB'' else replicate (unat b) CHR ''b''),
      size_of_text = (\<lambda>s. if s = ''512.0 MiB'' then Some default_disk_capacity else Some (of_nat (length s))),
      duration_text = (\<lambda>d. if d = 30000000000 then ''PT30S'' else (if d < 0 then ''-'' else ''+'') @ replicate (nat \<bar>d\<bar>) CHR ''n''),
      duration_of_text = (\<lambda>s. if s = ''PT30S'' \<or> s = ''30s'' then Some 30000000000
        else if hd s = CHR ''-'' then Some (- int (length s - 1)) else Some (int (length s - 1))),
      v6_text = (\<lambda>a p. ''['' @ replicate (unat a) CHR ''a'' @ '']'' @ replicate (unat p) CHR ''p''),
      v6_of_text = (\<lambda>s. Some (of_nat (length (takeWhile (\<lambda>c. c = CHR ''a'') (tl s))),
        of_nat (length (takeWhile (\<lambda>c. c = CHR ''p'') (tl (dropWhile (\<lambda>c. c = CHR ''a'') (tl s)))))))\<rparr>"

lemma demo_cv_ok: "config_env_ok demo_cv"
proof -
  have a: "takeWhile (\<lambda>c. c = x) (replicate n x @ y # t) = replicate n x"
      "dropWhile (\<lambda>c. c = x) (replicate n x @ y # t) = y # t" if "x \<noteq> y" for n t and x y :: char
    using that by (induction n) auto
  have "takeWhile (\<lambda>c. c = x) (replicate n x) = replicate n x" for n and x :: char
    by (induction n) auto
  then show ?thesis by (auto simp: config_env_ok_def demo_cv_def a)
qed

lemma demo_cv_texts: "duration_of_text demo_cv ''30s'' = Some default_metrics_push_interval"
  "duration_text demo_cv default_metrics_push_interval = ''PT30S''"
  "size_text demo_cv default_disk_capacity = ''512.0 MiB''"
  "exact_size demo_cv default_disk_capacity" "exact_size demo_cv 0"
  by (simp_all add: demo_cv_def default_metrics_push_interval_def exact_size_def default_disk_capacity_def mib_def)

definition demo_files :: file_system where
  "demo_files = \<lparr>files = (\<lambda>_. Some ''text''), readable = (\<lambda>_. True), writable = (\<lambda>_. True)\<rparr>"

lemma demo_read: "read_to_string demo_files path = Ok ''text''"
  by (simp add: demo_files_def read_to_string_def)

theorem config_file_round_trip_witness:
  "load_config (config_ops demo_cv 5 (\<lambda>_. Some (config_json demo_cv (config_default 0)))) demo_files ''f'' [(''PATH'', ''/bin'')] =
   Ok (Ok \<lparr>loaded = config_default 0, warnings_of = []\<rparr>)"
  by (rule config_file_round_trip [OF demo_cv_ok _ _ demo_read])
    (simp_all add: config_default_def demo_cv_texts default_memory_capacity_def starts_with_def)


lemma config_tests_pass_witness:
  "test_default_config (config_ops demo_cv 2 (\<lambda>_. Some dev_standalone)) 2 demo_files ''/w'' [] = Ok () \<and>
   test_percas_prefix_no_conflict (config_ops demo_cv 2 (\<lambda>_. Some dev_standalone)) 2 demo_files ''/w'' [] = Ok () \<and>
   test_override_otlp_endpoint (config_ops demo_cv 2 (\<lambda>_. Some dev_standalone)) demo_files ''/w'' [] = Ok () \<and>
   default_config_test demo_cv 2 = Ok ()"
  by (rule config_tests_pass [OF demo_read _ _ demo_cv_texts(1-3)]) simp_all

end
