(* ===== verification/MemberTests.thy ===== *)
theory MemberTests
  imports Member
begin

text \<open>
  The unit tests of \<open>crates/gossip/src/member.rs\<close>, translated as programs over the model: a test is \<open>Ok ()\<close> when
  it passes and a panic when an \<open>unwrap\<close> or an assertion fails. The tests read the clock; here its readings
  are arguments, and the property shows that the tests pass whatever they are. The parser of urls and the
  nil id are arguments.
\<close>

definition make_node :: "(string \<Rightarrow> 'url option) \<Rightarrow> 'id \<Rightarrow> u64 \<Rightarrow> panic + ('id, 'url) node_info" where
  "make_node parse i inc =
     panic_bind (unwrap (parse ''http://127.0.0.1:7654'')) (\<lambda>data_url.
     panic_bind (unwrap (parse ''http://127.0.0.1:7655'')) (\<lambda>ctrl_url.
     Ok (node_new i ''cluster'' data_url ctrl_url)))"

definition add_new_member :: "(string \<Rightarrow> 'url option) \<Rightarrow> 'id::linorder \<Rightarrow> timestamp \<Rightarrow> panic + unit" where
  "add_new_member parse i now =
     panic_bind (make_node parse i 0) (\<lambda>node.
       let m = fst (update_member membership_default \<lparr>info = node, status = Alive, heartbeat = now\<rparr>)
       in rust_assert (bt_get (members m) i \<noteq> None))"

definition heartbeat_and_incarnation_merge ::
  "(string \<Rightarrow> 'url option) \<Rightarrow> 'id::linorder \<Rightarrow> timestamp \<Rightarrow> timestamp \<Rightarrow> panic + unit" where
  "heartbeat_and_incarnation_merge parse i t0 t1 =
     panic_bind (make_node parse i 0) (\<lambda>node.
       let m = fst (update_member membership_default \<lparr>info = node, status = Alive, heartbeat = t0\<rparr>);
           m = fst (update_member m \<lparr>info = node, status = Alive, heartbeat = t1\<rparr>)
       in panic_bind (unwrap (bt_get (members m) i)) (\<lambda>stored.
          panic_bind (rust_assert (heartbeat stored \<ge> t0)) (\<lambda>_.
          rust_assert (heartbeat stored \<ge> t1))))"

definition higher_incarnation_replaces ::
  "(string \<Rightarrow> 'url option) \<Rightarrow> 'id::linorder \<Rightarrow> timestamp \<Rightarrow> timestamp \<Rightarrow> panic + unit" where
  "higher_incarnation_replaces parse i now now' =
     panic_bind (make_node parse i 0) (\<lambda>node.
       let m = fst (update_member membership_default
             \<lparr>info = node\<lparr>incarnation := 1\<rparr>, status = Alive, heartbeat = now\<rparr>);
           m = fst (update_member m \<lparr>info = node\<lparr>incarnation := 2\<rparr>, status = Dead, heartbeat = now'\<rparr>)
       in panic_bind (unwrap (bt_get (members m) i)) (\<lambda>stored.
          panic_bind (rust_assert (incarnation (info stored) = 2)) (\<lambda>_.
          rust_assert (status stored = Dead))))"

text \<open>
  The unit tests of the membership table pass with every clock, also one that runs backwards between two
  readings, and with every id, provided that the two urls they parse are valid.
\<close>
lemma membership_tests_pass:
  assumes "parse ''http://127.0.0.1:7654'' = Some du" and "parse ''http://127.0.0.1:7655'' = Some cu"
  shows "add_new_member parse i now = Ok ()"
    and "heartbeat_and_incarnation_merge parse i t0 t1 = Ok ()"
    and "higher_incarnation_replaces parse i now now' = Ok ()"
proof -
  have node: "make_node parse i inc = Ok (node_new i ''cluster'' du cu)" for inc
    using assms by (simp add: make_node_def)
  note table = update_member_table member_of_merge
  show "add_new_member parse i now = Ok ()" "heartbeat_and_incarnation_merge parse i t0 t1 = Ok ()"
      "higher_incarnation_replaces parse i now now' = Ok ()"
    by (simp_all add: add_new_member_def heartbeat_and_incarnation_merge_def higher_incarnation_replaces_def
        node node_new_def table merged_def membership_default_def Let_def)
qed

end
