(* ===== verification/TestHarness.thy ===== *)
theory TestHarness
  imports Start Client
begin

text \<open>
  \<open>src/tests/src/lib.rs\<close>: the harness of the integration tests, which composes the library parts in its
  own way: a node in a temporary directory on unspecified ports, without initial peers, on one runtime of
  four threads, and a client of it. Every \<open>unwrap\<close> is a panic. The temporary directory and the type name of
  the test are arguments, and a test is a function of the node and the client.
\<close>

section \<open>Names\<close>

text \<open>The parts of a path of Rust, \<open>rsplit("::")\<close> read from its end.\<close>

fun split_path :: "string \<Rightarrow> string list" where
  "split_path [] = [[]]"
| "split_path [c] = [[c]]"
| "split_path (c # d # cs) =
     (if c = CHR '':'' \<and> d = CHR '':'' then [] # split_path cs
      else case split_path (d # cs) of [] \<Rightarrow> [[c]] | p # ps \<Rightarrow> (c # p) # ps)"

definition ascii_alphanumeric :: "char \<Rightarrow> bool" where
  "ascii_alphanumeric c =
     list_ex (\<lambda>(first, last). first \<le> c \<and> c \<le> last)
       [(CHR ''0'', CHR ''9''), (CHR ''A'', CHR ''Z''), (CHR ''a'', CHR ''z'')]"

definition make_test_name :: "string \<Rightarrow> panic + string" where
  "make_test_name type_name =
     panic_bind (unwrap (List.find (\<lambda>part. part \<noteq> ''{{closure}}'') (rev (split_path type_name)))) (\<lambda>test_name.
     Ok (map (\<lambda>c. if ascii_alphanumeric c then c else CHR ''_'') test_name))"

section \<open>The node of a test\<close>

definition test_listen_addr :: socket_addr where
  "test_listen_addr = \<lparr>ip = V4 0, port = 0\<rparr>"

definition test_config :: "u64 \<Rightarrow> string \<Rightarrow> 'url config" where
  "test_config available temp_dir =
     \<lparr>server =
        \<lparr>cfg_server_dir = temp_dir, listen_data_addr = test_listen_addr, advertise_data_addr = None,
         listen_ctrl_addr = test_listen_addr, advertise_ctrl_addr = None, cfg_initial_peers = [],
         cfg_cluster_id = default_cluster_id\<rparr>,
      storage_cfg =
        \<lparr>data_dir = path_join temp_dir ''data'', disk_capacity = default_disk_capacity,
         memory_capacity = default_memory_capacity available, disk_throttle_of = None\<rparr>,
      telemetry = \<lparr>logs = logs_config_default, traces = None, metrics = None\<rparr>\<rparr>"

record ('id, 'url, 'c) test_server_state =
  ts_server_state :: "'url server_state"
  ts_context :: "'c percas_context"
  ts_gossip :: "('id, 'url) gossip_state"

definition start_test_server ::
  "('id::linorder, 'url, 'c, 't) program_env \<Rightarrow> u64 \<Rightarrow> (machine \<Rightarrow> machine \<times> (io_error + string)) \<Rightarrow> string \<Rightarrow>
   machine \<Rightarrow> machine \<times> (panic + ('id, 'url, 'c) test_server_state)" where
  "start_test_server px available tempdir test_name os =
     (case tempdir os of
        (os1, Inl _) \<Rightarrow> (os1, Err UnwrapNone)
      | (os1, Inr temp_dir) \<Rightarrow>
          (let fresh_id = px_now_v7 px; config = test_config available temp_dir; st = storage_cfg config in
           case telemetry_init (px_telemetry px) (''test_harness:'' @ test_name) (px_id_text px fresh_id) (telemetry config) of
             Inl p \<Rightarrow> (os1, Err p)
           | Inr _ \<Rightarrow>
               (case try_new (px_foyer px) (px_cpus px) (data_dir st) (memory_capacity st) (disk_capacity st)
                       (disk_throttle_of st) False (os_dirs os1) of
                  (t, Inl p) \<Rightarrow> (os1\<lparr>os_dirs := t\<rparr>, Err p)
                | (t, Inr (Inl _)) \<Rightarrow> (os1\<lparr>os_dirs := t\<rparr>, Err UnwrapNone)
                | (t, Inr (Inr eng)) \<Rightarrow>
                    (let os2 = os1\<lparr>os_dirs := t\<rparr>; cx = percas_context_new eng in
                     case make_acceptor_and_advertise_url (px_net px) test_listen_addr None of
                       Inl _ \<Rightarrow> (os2, Err UnwrapNone)
                     | Inr (data_acceptor, advertised_data) \<Rightarrow>
                         (case make_acceptor_and_advertise_url (px_net px) test_listen_addr None of
                            Inl _ \<Rightarrow> (os2, Err UnwrapNone)
                          | Inr (ctrl_acceptor, advertised_ctrl) \<Rightarrow>
                              (case start_gossip (px_gossip px) (px_peers px) (px_clock0 px) (px_clock px)
                                      (server config) fresh_id ctrl_acceptor advertised_data advertised_ctrl (os_files os2) of
                                 (fs, Inl p) \<Rightarrow> (os2\<lparr>os_files := fs\<rparr>, Err p)
                               | (fs, Inr (Inl _)) \<Rightarrow> (os2\<lparr>os_files := fs\<rparr>, Err UnwrapNone)
                               | (fs, Inr (Inr (gossip_state, gossip_futs))) \<Rightarrow>
                                   (os2\<lparr>os_files := fs\<rparr>,
                                    case start_server data_acceptor advertised_data advertised_ctrl gossip_futs of
                                      Inl _ \<Rightarrow> Err UnwrapNone
                                    | Inr srv \<Rightarrow> Ok \<lparr>ts_server_state = srv, ts_context = cx, ts_gossip = gossip_state\<rparr>)))))))"

text \<open>\<open>TestServerState::shutdown\<close> gives the signal and waits for the parts.\<close>

definition test_server_shutdown :: "('id, 'url, 'c) test_server_state \<Rightarrow> lifecycle_event list" where
  "test_server_shutdown state = await_shutdown (ts_server_state state)"

section \<open>The harness\<close>

definition harness ::
  "('id::linorder, 'url, 'c, 't) program_env \<Rightarrow> ('id, 'url, 'w) client_env \<Rightarrow> ('url \<Rightarrow> string) \<Rightarrow> u64 \<Rightarrow> int \<Rightarrow>
   (machine \<Rightarrow> machine \<times> (io_error + string)) \<Rightarrow> string \<Rightarrow>
   (('id, 'url, 'c) test_server_state \<Rightarrow> ('id, 'url) client \<Rightarrow> panic + 'x) \<Rightarrow>
   machine \<Rightarrow> machine \<times> (panic + ('x \<times> lifecycle_event list))" where
  "harness px cx url_text available now tempdir type_name test os =
     (case make_runtime (px_tokio px) ''test_runtime'' ''test_thread'' 4 of
        Inl p \<Rightarrow> (os, Err p)
      | Inr _ \<Rightarrow>
          (case make_test_name type_name of
             Inl p \<Rightarrow> (os, Err p)
           | Inr test_name \<Rightarrow>
               (case start_test_server px available tempdir test_name os of
                  (os', Inl p) \<Rightarrow> (os', Err p)
                | (os', Inr state) \<Rightarrow>
                    (os', case client_build cx now
                        (client_builder_new (url_text (ss_advertise_data_url (ts_server_state state)))
                          (url_text (ss_advertise_ctrl_url (ts_server_state state)))) of
                       Inl _ \<Rightarrow> Err UnwrapNone
                     | Inr client \<Rightarrow>
                         panic_bind (test state client) (\<lambda>exit_code. Ok (exit_code, test_server_shutdown state))))))"

section \<open>Lemmas\<close>

text \<open>A node that starts without initial peers is alone, in its table and on its ring.\<close>

lemma gossip_start_alone:
  fixes n :: "('b::linorder, 'c) node_info"
  assumes "gossip_start ext net now0 now (gossip_new n [] d) fs = (g, fs', Inr r)"
  shows "current_node g = n \<and> fs' = fs \<and> membership_wf (membership_cell g) \<and>
    (\<forall>k. member_of (membership_cell g) k = (if k = node_id n then Some (alive_now now0 n) else None)) \<and>
    snd ` ring_points (ring_cell g) = {node_id n}"
proof -
  let ?s = "(gossip_new n [] d)\<lparr>membership_cell := membership_from_iter [alive_now now0 n]\<rparr>"
  have g: "g = rebuild_ring ext (now 0) ?s \<and> fs' = fs"
    using assms by (simp add: gossip_start_def fast_bootstrap_def gossip_new_def Let_def)
  have one: "member_of (membership_from_iter [alive_now now0 n]) k =
      (if k = node_id n then Some (alive_now now0 n) else None)" for k
    by (simp add: member_of_from_single)
  have wf: "membership_wf (membership_from_iter ms)" for ms :: "('b, 'c) member_state list"
    by (simp add: membership_from_iter_def membership_wf_fold_merge)
  have "{k. member_of (membership_cell ?s) k \<noteq> None} = {node_id n}"
    using one by auto
  then have "snd ` ring_points (ring_cell g) = {node_id n}"
    using g by (simp add: rebuild_ring_points gossip_new_def nodes_of_node_points DEFAULT_VNODE_COUNT_def)
  with g one show ?thesis
    by (simp add: rebuild_ring_frame wf) (simp add: gossip_new_def)
qed

lemma alone_serves_all:
  assumes "membership_wf (membership_cell g)" "snd ` ring_points (ring_cell g) = {node_id (current_node g)}"
  shows "proxy_route ext (proxy_new g) key = Local"
  using proxy_route_serving [OF assms(1), of ext key] serving_node_alive(2) [of ext g key] assms(2)
  by (auto split: option.splits)

lemma start_gossip_alone_node:
  assumes "start_gossip ext net now0 now config fresh acceptor du cu fs = (fs', Inr (Inr (g, futs)))"
    and "cfg_initial_peers config = []"
  shows "proxy_route ext (proxy_new g) key = Local \<and> advertise_data_url (current_node g) = du \<and>
    advertise_ctrl_url (current_node g) = cu"
proof -
  obtain n fs1 r where i: "init_node (ext_codec ext) fs config fresh du cu = Inr (n, fs1)"
      and s: "gossip_start ext net now0 now (gossip_new n [] (cfg_server_dir config)) fs1 = (g, fs', Inr r)"
    using assms by (auto simp: start_gossip_def Let_def split: sum.splits prod.splits)
  have "advertise_data_url n = du \<and> advertise_ctrl_url n = cu"
    using i by (auto simp: init_node_def node_load_def node_new_def Let_def split: sum.splits option.splits)
  with gossip_start_alone [OF s] show ?thesis by (simp add: alone_serves_all)
qed

lemma test_config_peers: "cfg_initial_peers (server (test_config available temp)) = []"
  by (simp add: test_config_def)

lemma start_test_server_Ok:
  assumes "start_test_server px available tempdir test_name os = (os', Inr st)"
  shows "proxy_route (px_gossip px) (proxy_new (ts_gossip st)) key = Local \<and>
    advertise_data_url (current_node (ts_gossip st)) = ss_advertise_data_url (ts_server_state st) \<and>
    advertise_ctrl_url (current_node (ts_gossip st)) = ss_advertise_ctrl_url (ts_server_state st)"
proof -
  obtain temp acceptor du cu fs fs' futs where
      g: "start_gossip (px_gossip px) (px_peers px) (px_clock0 px) (px_clock px) (server (test_config available temp))
        (px_now_v7 px) acceptor du cu fs = (fs', Inr (Inr (ts_gossip st, futs)))"
      and u: "ss_advertise_data_url (ts_server_state st) = du" "ss_advertise_ctrl_url (ts_server_state st) = cu"
    using assms by (auto simp: start_test_server_def start_server_def Let_def split: sum.splits prod.splits)
  from start_gossip_alone_node [OF g test_config_peers] u show ?thesis by simp
qed

section \<open>Properties\<close>


text \<open>The concrete environment, with a test that asks nothing.\<close>

definition demo_tempdir :: "machine \<Rightarrow> machine \<times> (io_error + string)" where
  "demo_tempdir os = (os, Ok ''/t'')"

lemma demo_test_server: "\<exists>os' st. start_test_server demo_px 2 demo_tempdir name demo_machine = (os', Inr st)"
proof -
  let ?c = "test_config 2 ''/t'' :: string config" and ?u = "''http://d''"
  have tel: "\<exists>x. telemetry_init (px_telemetry demo_px) n i (telemetry ?c) = Inr x" for n i
    by (simp add: telemetry_init_def init_metrics_def init_traces_def init_logs_def log_defs add_dispatch_def
        demo_px_def test_config_def logs_config_default_def Let_def)
  then obtain x where x: "telemetry_init (px_telemetry demo_px) n i (telemetry ?c) = Inr (x n i)" for n i
    by metis
  have "creatable (os_dirs demo_machine) (data_dir (storage_cfg ?c))" by (simp add: demo_machine_def)
  from demo_try_new [OF this] obtain t e where e: "try_new demo_foyer nz_one (data_dir (storage_cfg ?c)) (memory_capacity (storage_cfg ?c))
      (disk_capacity (storage_cfg ?c)) None False (os_dirs demo_machine) = (t, Inr (Inr e))"
    by blast
  obtain a where a: "make_acceptor_and_advertise_url (px_net demo_px) test_listen_addr None = Inr (a, ?u)"
    using demo_acceptor by blast
  obtain n fs1 where "init_node (ext_codec demo_ext) demo_config_fs (server ?c) 7 ?u ?u = Inr (n, fs1)"
    using demo_init [of demo_config_fs "server ?c" 7 ?u ?u] by (auto simp: demo_config_fs_def)
  from Start.start_gossip_alone [OF test_config_peers this] obtain fs' g futs
    where g: "start_gossip demo_ext (px_peers demo_px) (px_clock0 demo_px) (px_clock demo_px)
      (server ?c) 7 a ?u ?u demo_config_fs = (fs', Inr (Inr (g, futs)))" by blast
  have "disk_throttle_of (storage_cfg ?c) = None" by (simp add: test_config_def)
  then show ?thesis
    by (simp add: start_test_server_def demo_tempdir_def Let_def demo_px_simps x e a g start_server_def)
qed


end
