(* ===== verification/Xtask.thy ===== *)
theory Xtask
  imports Utf8 Node
begin

text \<open>
  \<open>xtask/src/main.rs\<close>: the developer tasks. A task is a function from the state (the files and the
  commands shown so far) to a state and either a panic or a result; processes, \<open>serde_json\<close>, \<open>indent\<close> and
  \<open>unindent\<close> are arguments, gathered in \<open>task_env\<close>. A process may change the files. Text is the list of its
  UTF-8 bytes, so the byte offsets of a scan are list positions. The lemmas show that the rewriting of
  the inline snapshots from the last to the first is the simultaneous substitution of all of them.
\<close>

section \<open>Commands and tasks\<close>

record std_command =
  cmd_program :: string
  cmd_args :: "string list"
  cmd_dir :: "string option"

definition std_command_new :: "string \<Rightarrow> std_command" where
  "std_command_new p = \<lparr>cmd_program = p, cmd_args = [], cmd_dir = None\<rparr>"

definition add_args :: "string list \<Rightarrow> std_command \<Rightarrow> std_command" where
  "add_args xs c = c\<lparr>cmd_args := cmd_args c @ xs\<rparr>"

record proc_output =
  out_success :: bool
  out_stdout :: string
  out_stderr :: string

text \<open>What the search for inline snapshots reports.\<close>

record byte_offset =
  bo_start :: nat
  bo_end :: nat

record text_position =
  tp_line :: nat
  tp_column :: nat

record snap_range =
  byte_range :: byte_offset
  start_pos :: text_position

record scan_result =
  sr_file :: string
  sr_range :: snap_range
  sr_lines :: string
  sr_text :: string

datatype task_panic =
    BrokenWhich
  | NotFound string string string
  | ExecFailed
  | CommandFailed
  | StdoutNotUtf8
  | ScanNotParsed
  | ReadFailed
  | RangePanic
  | WriteFailed
  | DiffIn string nat nat

record task_env =
  te_workspace :: string
  te_output :: "std_command \<Rightarrow> file_system \<Rightarrow> file_system \<times> (io_error + proc_output)"
  te_status :: "std_command \<Rightarrow> file_system \<Rightarrow> file_system \<times> (io_error + bool)"
  te_from_str :: "string \<Rightarrow> scan_result list option"
  te_unindent :: "string \<Rightarrow> string"
  te_indent_by :: "nat \<Rightarrow> string \<Rightarrow> string"

record task_state =
  ts_fs :: file_system
  ts_shown :: "std_command list"

type_synonym 'a task = "task_state \<Rightarrow> task_state \<times> (task_panic + 'a)"

definition task_return :: "'a \<Rightarrow> 'a task" where
  "task_return x s = (s, Ok x)"

definition task_fail :: "task_panic \<Rightarrow> 'a task" where
  "task_fail p s = (s, Err p)"

definition task_bind :: "'a task \<Rightarrow> ('a \<Rightarrow> 'b task) \<Rightarrow> 'b task" where
  "task_bind m f s = (case m s of (s', Inl p) \<Rightarrow> (s', Err p) | (s', Inr x) \<Rightarrow> f x s')"

abbreviation task_then :: "'a task \<Rightarrow> 'b task \<Rightarrow> 'b task" where
  "task_then m m' \<equiv> task_bind m (\<lambda>_. m')"

text \<open>\<open>output().expect(...)\<close>\<close>

definition task_output :: "task_env \<Rightarrow> task_panic \<Rightarrow> std_command \<Rightarrow> proc_output task" where
  "task_output env p c s =
     (case te_output env c (ts_fs s) of
        (fs, Inl _) \<Rightarrow> (s\<lparr>ts_fs := fs\<rparr>, Err p)
      | (fs, Inr out) \<Rightarrow> (s\<lparr>ts_fs := fs\<rparr>, Ok out))"

definition show_command :: "std_command \<Rightarrow> unit task" where
  "show_command c s = (s\<lparr>ts_shown := ts_shown s @ [c]\<rparr>, Ok ())"

section \<open>Finding and running commands\<close>

definition find_command :: "task_env \<Rightarrow> string \<Rightarrow> std_command task" where
  "find_command env cmd =
     task_bind (task_output env BrokenWhich (add_args [cmd] (std_command_new ''which''))) (\<lambda>output.
       if out_success output then
         task_return ((std_command_new (trim (from_utf8_lossy (out_stdout output))))
           \<lparr>cmd_dir := Some (te_workspace env)\<rparr>)
       else task_fail (NotFound cmd (from_utf8_lossy (out_stdout output)) (from_utf8_lossy (out_stderr output))))"

definition run_command :: "task_env \<Rightarrow> std_command \<Rightarrow> unit task" where
  "run_command env cmd = task_then (show_command cmd) (\<lambda>s.
     case te_status env cmd (ts_fs s) of
       (fs, Inl _) \<Rightarrow> (s\<lparr>ts_fs := fs\<rparr>, Err ExecFailed)
     | (fs, Inr success) \<Rightarrow> (s\<lparr>ts_fs := fs\<rparr>, if success then Ok () else Err CommandFailed))"

definition run_command_with_stdout :: "task_env \<Rightarrow> std_command \<Rightarrow> string task" where
  "run_command_with_stdout env cmd = task_then (show_command cmd)
     (task_bind (task_output env ExecFailed cmd) (\<lambda>output.
        case from_utf8 (out_stdout output) of
          None \<Rightarrow> task_fail StdoutNotUtf8
        | Some text \<Rightarrow> task_return text))"

definition ensure_installed :: "task_env \<Rightarrow> string \<Rightarrow> string \<Rightarrow> unit task" where
  "ensure_installed env bin crate_name =
     task_bind (task_output env BrokenWhich (add_args [bin] (std_command_new ''which''))) (\<lambda>output.
       if \<not> out_success output then
         task_bind (find_command env ''cargo'') (\<lambda>cmd. run_command env (add_args [''install'', crate_name] cmd))
       else task_return ())"

section \<open>The commands\<close>

definition make_build_cmd :: "task_env \<Rightarrow> bool \<Rightarrow> bool \<Rightarrow> std_command task" where
  "make_build_cmd env locked all =
     task_bind (find_command env ''cargo'') (\<lambda>cmd.
       let cmd = add_args [''build'', ''--workspace'', ''--all-features''] cmd;
           cmd = (if all then add_args [''--bins'', ''--examples'', ''--tests'', ''--benches''] cmd else cmd);
           cmd = (if locked then add_args [''--locked''] cmd else cmd)
       in task_return cmd)"

definition make_test_cmd :: "task_env \<Rightarrow> bool \<Rightarrow> std_command task" where
  "make_test_cmd env no_capture =
     task_then (ensure_installed env ''cargo-nextest'' ''cargo-nextest'')
       (task_bind (find_command env ''cargo'') (\<lambda>cmd.
         let cmd = add_args [''nextest'', ''run'', ''--workspace''] cmd;
             cmd = (if no_capture then add_args [''--no-capture''] cmd else cmd)
         in task_return cmd))"

definition make_format_cmd :: "task_env \<Rightarrow> bool \<Rightarrow> std_command task" where
  "make_format_cmd env fx =
     task_bind (find_command env ''cargo'') (\<lambda>cmd.
       let cmd = add_args [''fmt'', ''--all''] cmd
       in task_return (if \<not> fx then add_args [''--check''] cmd else cmd))"

definition make_clippy_cmd :: "task_env \<Rightarrow> bool \<Rightarrow> std_command task" where
  "make_clippy_cmd env fx =
     task_bind (find_command env ''cargo'') (\<lambda>cmd.
       let cmd = add_args [''clippy'', ''--tests'', ''--all-features'', ''--all-targets'', ''--workspace''] cmd
       in task_return (if fx then add_args [''--fix'', ''--allow-staged'', ''--allow-dirty''] cmd
            else add_args [''--'', ''-D'', ''warnings''] cmd))"

definition make_sg_lint_cmd :: "task_env \<Rightarrow> std_command task" where
  "make_sg_lint_cmd env =
     task_then (ensure_installed env ''ast-grep'' ''ast-grep'')
       (task_bind (find_command env ''ast-grep'') (\<lambda>cmd. task_return (add_args [''scan''] cmd)))"

definition make_sg_search_cmd :: "task_env \<Rightarrow> string \<Rightarrow> std_command task" where
  "make_sg_search_cmd env rule_file =
     task_then (ensure_installed env ''ast-grep'' ''ast-grep'')
       (task_bind (find_command env ''ast-grep'') (\<lambda>cmd.
          task_return (add_args [''scan'', ''--rule'', rule_file, ''--json=pretty''] cmd)))"

definition make_sg_fix_cmd :: "task_env \<Rightarrow> string \<Rightarrow> std_command task" where
  "make_sg_fix_cmd env rule_file =
     task_then (ensure_installed env ''ast-grep'' ''ast-grep'')
       (task_bind (find_command env ''ast-grep'') (\<lambda>cmd.
          task_return (add_args [''scan'', ''--rule'', rule_file, ''--update-all''] cmd)))"

definition make_typos_cmd :: "task_env \<Rightarrow> std_command task" where
  "make_typos_cmd env =
     task_then (ensure_installed env ''typos'' ''typos-cli'') (find_command env ''typos'')"

definition make_hawkeye_cmd :: "task_env \<Rightarrow> bool \<Rightarrow> std_command task" where
  "make_hawkeye_cmd env fx =
     task_then (ensure_installed env ''hawkeye'' ''hawkeye'')
       (task_bind (find_command env ''hawkeye'') (\<lambda>cmd.
          task_return (if fx then add_args [''format'', ''--fail-if-updated=false''] cmd
            else add_args [''check''] cmd)))"

definition make_taplo_cmd :: "task_env \<Rightarrow> bool \<Rightarrow> std_command task" where
  "make_taplo_cmd env fx =
     task_then (ensure_installed env ''taplo'' ''taplo-cli'')
       (task_bind (find_command env ''taplo'') (\<lambda>cmd.
          task_return (if fx then add_args [''format''] cmd else add_args [''format'', ''--check''] cmd)))"

section \<open>Formatting\<close>

definition with_macro_normalized :: "task_env \<Rightarrow> unit task \<Rightarrow> unit task" where
  "with_macro_normalized env f =
     task_then (task_bind (make_sg_fix_cmd env (te_workspace env @ ''/.lints/utils/pre-format.yml'')) (run_command env))
       (task_then f
         (task_bind (make_sg_fix_cmd env (te_workspace env @ ''/.lints/utils/post-format.yml'')) (run_command env)))"

definition snap_path :: "task_env \<Rightarrow> scan_result \<Rightarrow> string" where
  "snap_path env snap = te_workspace env @ ''/'' @ sr_file snap"

abbreviation snap_start :: "scan_result \<Rightarrow> nat" where
  "snap_start snap \<equiv> bo_start (byte_range (sr_range snap))"

abbreviation snap_end :: "scan_result \<Rightarrow> nat" where
  "snap_end snap \<equiv> bo_end (byte_range (sr_range snap))"

definition format_text :: "task_env \<Rightarrow> scan_result \<Rightarrow> string" where
  "format_text env snap =
     (let indent = (case find_char (CHR 0x40) (sr_lines snap) of Some i \<Rightarrow> i | None \<Rightarrow> 0)
      in te_indent_by env indent (te_unindent env (sr_text snap)))"

text \<open>The body of the loop. The \<open>exit(1)\<close> after the failed assertion is never reached.\<close>

definition format_snap :: "task_env \<Rightarrow> bool \<Rightarrow> scan_result \<Rightarrow> unit task" where
  "format_snap env fx snap s =
     (let file = snap_path env snap; new = format_text env snap in
      if sr_text snap \<noteq> new then
        if fx then
          (case read_to_string (ts_fs s) file of
             Inl _ \<Rightarrow> (s, Err ReadFailed)
           | Inr content \<Rightarrow>
               (case replace_range content (snap_start snap) (snap_end snap) new of
                  None \<Rightarrow> (s, Err RangePanic)
                | Some content' \<Rightarrow>
                    (case fs_write (ts_fs s) file content' of
                       Inl _ \<Rightarrow> (s, Err WriteFailed)
                     | Inr fs \<Rightarrow> (s\<lparr>ts_fs := fs\<rparr>, Ok ()))))
        else (s, Err (DiffIn file (tp_line (start_pos (sr_range snap)) + 1) (tp_column (start_pos (sr_range snap)) + 1)))
      else (s, Ok ()))"

fun format_snaps :: "task_env \<Rightarrow> bool \<Rightarrow> scan_result list \<Rightarrow> unit task" where
  "format_snaps env fx [] = task_return ()"
| "format_snaps env fx (snap # snaps) = task_then (format_snap env fx snap) (format_snaps env fx snaps)"

definition scan_inline_snaps :: "task_env \<Rightarrow> scan_result list task" where
  "scan_inline_snaps env =
     task_bind (make_sg_search_cmd env (te_workspace env @ ''/.lints/utils/inline-snap.yml'')) (\<lambda>command.
       task_bind (run_command_with_stdout env command) (\<lambda>command_output.
         case te_from_str env command_output of
           None \<Rightarrow> task_fail ScanNotParsed
         | Some inline_snaps \<Rightarrow> task_return inline_snaps))"

definition run_custom_format :: "task_env \<Rightarrow> bool \<Rightarrow> unit task" where
  "run_custom_format env fx =
     task_bind (scan_inline_snaps env) (\<lambda>inline_snaps. format_snaps env fx (rev inline_snaps))"

section \<open>The tasks\<close>

record command_build =
  cb_locked :: bool
  cb_all :: bool

record command_test =
  ct_no_capture :: bool

record command_lint =
  cl_fix :: bool

datatype xtask_command = Build command_build | Lint command_lint | Test command_test

definition command_build_run :: "task_env \<Rightarrow> command_build \<Rightarrow> unit task" where
  "command_build_run env c = task_bind (make_build_cmd env (cb_locked c) (cb_all c)) (run_command env)"

definition command_test_run :: "task_env \<Rightarrow> command_test \<Rightarrow> unit task" where
  "command_test_run env c = task_bind (make_test_cmd env (ct_no_capture c)) (run_command env)"

definition command_lint_run :: "task_env \<Rightarrow> command_lint \<Rightarrow> unit task" where
  "command_lint_run env c =
     (if cl_fix c then
        task_then (with_macro_normalized env (task_bind (make_format_cmd env True) (run_command env)))
        (task_then (run_custom_format env True)
        (task_then (task_bind (make_sg_lint_cmd env) (run_command env))
        (task_then (task_bind (make_taplo_cmd env True) (run_command env))
        (task_then (task_bind (make_hawkeye_cmd env True) (run_command env))
        (task_then (task_bind (make_typos_cmd env) (run_command env))
        (task_then (task_bind (make_clippy_cmd env True) (run_command env))
        (task_bind (make_format_cmd env True) (run_command env))))))))
      else
        task_then (run_custom_format env False)
        (task_then (task_bind (make_sg_lint_cmd env) (run_command env))
        (task_then (task_bind (make_taplo_cmd env False) (run_command env))
        (task_then (task_bind (make_typos_cmd env) (run_command env))
        (task_then (task_bind (make_hawkeye_cmd env False) (run_command env))
        (task_then (task_bind (make_format_cmd env False) (run_command env))
        (task_bind (make_clippy_cmd env False) (run_command env))))))))"

fun xtask_run :: "task_env \<Rightarrow> xtask_command \<Rightarrow> unit task" where
  "xtask_run env (Build c) = command_build_run env c"
| "xtask_run env (Lint c) = command_lint_run env c"
| "xtask_run env (Test c) = command_test_run env c"

section \<open>Lemmas\<close>

lemmas task_defs = task_return_def task_fail_def task_bind_def

lemma task_bind_assoc: "task_bind (task_bind m f) g = task_bind m (\<lambda>x. task_bind (f x) g)"
  by (rule ext) (simp add: task_bind_def split: prod.split sum.split)

lemma format_snaps_append:
  "format_snaps env fx (xs @ ys) = task_then (format_snaps env fx xs) (format_snaps env fx ys)"
  by (induction xs) (simp_all add: task_bind_assoc, simp add: task_bind_def task_return_def fun_eq_iff)

text \<open>
  The reference: all ranges of a text replaced at once, reading the original text from position
  \<open>pos\<close> on.
\<close>

fun substituted :: "task_env \<Rightarrow> nat \<Rightarrow> string \<Rightarrow> scan_result list \<Rightarrow> string" where
  "substituted env pos src [] = drop pos src"
| "substituted env pos src (x # xs) =
     drop pos (take (snap_start x) src) @ format_text env x @ substituted env (snap_end x) src xs"

text \<open>A snapshot that lies in a text, and snapshots in order with something between them.\<close>

definition snap_in :: "string \<Rightarrow> scan_result \<Rightarrow> bool" where
  "snap_in src x \<longleftrightarrow> snap_start x \<le> snap_end x \<and> is_char_boundary src (snap_start x) \<and>
     is_char_boundary src (snap_end x) \<and> sr_text x = drop (snap_start x) (take (snap_end x) src)"

abbreviation apart_snaps :: "scan_result list \<Rightarrow> bool" where
  "apart_snaps xs \<equiv> sorted_wrt (\<lambda>x y. sr_file x = sr_file y \<longrightarrow> snap_end x < snap_start y) xs"

lemma drop_take_append: "a \<le> b \<Longrightarrow> b \<le> length s \<Longrightarrow> drop a (take b s) @ drop b s = drop a s"
  by (metis append_take_drop_id drop_append diff_is_0_eq' drop0 length_take min.absorb2)

text \<open>Replacing behind a position leaves the text before it alone.\<close>

lemma substituted_split:
  assumes "\<forall>x\<in>set xs. i \<le> snap_start x \<and> snap_in src x" "pos \<le> i" "i \<le> length src"
  shows "substituted env pos src xs = drop pos (take i src) @ substituted env i src xs"
proof (cases xs)
  case Nil
  then show ?thesis using assms by (simp add: drop_take_append)
next
  case (Cons x ys)
  then have i: "i \<le> snap_start x" "snap_start x \<le> length src"
    using assms(1) by (auto simp: snap_in_def dest: boundary_le)
  have "drop pos (take (snap_start x) src) = drop pos (take i src) @ drop i (take (snap_start x) src)"
    using drop_take_append [of pos i "take (snap_start x) src"] assms(2) i by (simp add: min_absorb1)
  then show ?thesis by (simp add: Cons)
qed

lemma substituted_from:
  assumes "\<forall>y\<in>set ys. b < snap_start y \<and> snap_in src y" "b \<le> length src"
  shows "substituted env 0 src ys = take b src @ substituted env b src ys"
proof -
  have "\<forall>y\<in>set ys. b \<le> snap_start y \<and> snap_in src y" using assms(1) by auto
  from substituted_split [OF this _ assms(2), of 0 env] show ?thesis by simp
qed

lemma substituted_boundary:
  assumes "\<forall>x\<in>set xs. i < snap_start x \<and> snap_in src x" "is_char_boundary src i"
  shows "is_char_boundary (substituted env 0 src xs) i"
proof (cases xs)
  case Nil
  then show ?thesis using assms by simp
next
  case (Cons x ys)
  then have i: "i < snap_start x" "snap_start x \<le> length src"
    using assms(1) by (auto simp: snap_in_def dest: boundary_le)
  have "i < length (substituted env 0 src xs)" "substituted env 0 src xs ! i = src ! i"
    using i by (simp_all add: Cons nth_append)
  with assms(2) i show ?thesis by (auto simp: is_char_boundary_def)
qed

text \<open>One more replacement in front of those already made.\<close>

lemma replace_in_front:
  assumes "snap_in src x" "\<forall>y\<in>set ys. snap_end x < snap_start y \<and> snap_in src y"
  shows "replace_range (substituted env 0 src ys) (snap_start x) (snap_end x) (format_text env x) =
    Some (substituted env 0 src (x # ys))"
proof -
  let ?a = "snap_start x" and ?b = "snap_end x"
  have x: "?a \<le> ?b" "is_char_boundary src ?a" "is_char_boundary src ?b" "?b \<le> length src"
    using assms(1) by (auto simp: snap_in_def dest: boundary_le)
  have "\<forall>y\<in>set ys. ?a < snap_start y \<and> snap_in src y" using assms(2) x(1) by auto
  then have b: "is_char_boundary (substituted env 0 src ys) ?a" "is_char_boundary (substituted env 0 src ys) ?b"
    using substituted_boundary x assms(2) by auto
  have "substituted env 0 src ys = take ?b src @ substituted env ?b src ys"
    using substituted_from [OF assms(2) x(4)] .
  then have "take ?a (substituted env 0 src ys) = take ?a src"
      "drop ?b (substituted env 0 src ys) = substituted env ?b src ys"
    using x by (simp_all add: min_absorb1)
  with b x show ?thesis by (simp add: replace_range_def)
qed

lemma substituted_unchanged:
  assumes "snap_in src x" "\<forall>y\<in>set ys. snap_end x < snap_start y \<and> snap_in src y" "sr_text x = format_text env x"
  shows "substituted env 0 src (x # ys) = substituted env 0 src ys"
proof -
  have x: "snap_start x \<le> snap_end x" "snap_end x \<le> length src"
      "format_text env x = drop (snap_start x) (take (snap_end x) src)"
    using assms(1,3) by (auto simp: snap_in_def dest: boundary_le)
  have "take (snap_end x) src = take (snap_start x) src @ drop (snap_start x) (take (snap_end x) src)"
    using drop_take_append [of 0 "snap_start x" "take (snap_end x) src"] x by (simp add: min_absorb1)
  then show ?thesis
    using substituted_from [OF assms(2) x(2), of env] x by (metis append.assoc drop0 substituted.simps(2))
qed

text \<open>The loop of the rewriting mode, from the last snapshot to the first.\<close>

lemma format_snap_fix:
  assumes "files (ts_fs s) (snap_path env x) = Some (substituted env 0 src ys)"
    and "readable (ts_fs s) (snap_path env x)" "writable (ts_fs s) (snap_path env x)"
    and "snap_in src x" "\<forall>y\<in>set ys. snap_end x < snap_start y \<and> snap_in src y"
  shows "\<exists>s'. format_snap env True x s = (s', Ok ()) \<and> readable (ts_fs s') = readable (ts_fs s) \<and>
    writable (ts_fs s') = writable (ts_fs s) \<and>
    files (ts_fs s') = (files (ts_fs s))(snap_path env x \<mapsto> substituted env 0 src (x # ys))"
proof (cases "sr_text x = format_text env x")
  case True
  then show ?thesis
    using assms(1) substituted_unchanged [OF assms(4,5) True]
    by (auto simp: format_snap_def fun_upd_idem)
next
  case False
  then show ?thesis
    using assms replace_in_front [OF assms(4,5), of env]
    by (simp add: format_snap_def read_to_string_def fs_write_def del: substituted.simps)
qed

definition rewritten :: "task_env \<Rightarrow> scan_result list \<Rightarrow> (string \<rightharpoonup> string) \<Rightarrow> (string \<rightharpoonup> string)" where
  "rewritten env xs fls path =
     map_option (\<lambda>src. substituted env 0 src (filter (\<lambda>x. snap_path env x = path) xs)) (fls path)"

definition snap_ready :: "task_env \<Rightarrow> file_system \<Rightarrow> scan_result \<Rightarrow> bool" where
  "snap_ready env fs x \<longleftrightarrow> readable fs (snap_path env x) \<and> writable fs (snap_path env x) \<and>
     (\<exists>src. files fs (snap_path env x) = Some src \<and> snap_in src x)"

lemma format_snaps_fix:
  assumes "apart_snaps xs" "\<forall>x\<in>set xs. snap_ready env (ts_fs s) x"
  shows "\<exists>s'. format_snaps env True (rev xs) s = (s', Ok ()) \<and> readable (ts_fs s') = readable (ts_fs s) \<and>
    writable (ts_fs s') = writable (ts_fs s) \<and> files (ts_fs s') = rewritten env xs (files (ts_fs s))"
  using assms
proof (induction xs)
  case Nil
  then show ?case by (auto simp: task_return_def rewritten_def fun_eq_iff option.map_ident)
next
  case (Cons x xs)
  obtain s1 where s1: "format_snaps env True (rev xs) s = (s1, Ok ())" "readable (ts_fs s1) = readable (ts_fs s)"
      "writable (ts_fs s1) = writable (ts_fs s)" "files (ts_fs s1) = rewritten env xs (files (ts_fs s))"
    using Cons by auto
  let ?p = "snap_path env x" and ?ys = "filter (\<lambda>y. snap_path env y = snap_path env x) xs"
  obtain src where src: "files (ts_fs s) ?p = Some src" "snap_in src x" "readable (ts_fs s) ?p" "writable (ts_fs s) ?p"
    using Cons.prems(2) by (auto simp: snap_ready_def)
  have ys: "\<forall>y\<in>set ?ys. snap_end x < snap_start y \<and> snap_in src y"
    using Cons.prems src(1) by (auto simp: snap_ready_def snap_path_def)
  have "files (ts_fs s1) ?p = Some (substituted env 0 src ?ys)"
    using s1(4) src(1) by (simp add: rewritten_def)
  then obtain s2 where s2: "format_snap env True x s1 = (s2, Ok ())" "readable (ts_fs s2) = readable (ts_fs s1)"
      "writable (ts_fs s2) = writable (ts_fs s1)"
      "files (ts_fs s2) = (files (ts_fs s1))(?p \<mapsto> substituted env 0 src (x # ?ys))"
    using format_snap_fix [of s1 env x src ?ys] src ys s1 by auto
  have "files (ts_fs s2) = rewritten env (x # xs) (files (ts_fs s))"
    unfolding s2(4) s1(4) using src(1) by (auto simp: rewritten_def fun_eq_iff)
  with s1(1-3) s2(1-3) show ?case
    by (intro exI [of _ s2]) (simp add: format_snaps_append task_bind_def task_return_def)
qed

lemma format_snap_check:
  "format_snap env False x s = (s, if sr_text x = format_text env x then Ok () else
     Err (DiffIn (snap_path env x) (tp_line (start_pos (sr_range x)) + 1) (tp_column (start_pos (sr_range x)) + 1)))"
  by (simp add: format_snap_def Let_def)

text \<open>
  The commands of \<open>lint\<close> without \<open>--fix\<close>, when \<open>which\<close> finds every tool at \<open>place\<close>.
\<close>

definition installed :: "task_env \<Rightarrow> (string \<Rightarrow> string) \<Rightarrow> bool" where
  "installed env place \<longleftrightarrow> (\<forall>t fs. \<exists>err. te_output env (add_args [t] (std_command_new ''which'')) fs =
     (fs, Ok \<lparr>out_success = True, out_stdout = place t, out_stderr = err\<rparr>))"

definition tool :: "task_env \<Rightarrow> (string \<Rightarrow> string) \<Rightarrow> string \<Rightarrow> string list \<Rightarrow> std_command" where
  "tool env place t xs =
     \<lparr>cmd_program = trim (from_utf8_lossy (place t)), cmd_args = xs, cmd_dir = Some (te_workspace env)\<rparr>"

definition lint_checks :: "task_env \<Rightarrow> (string \<Rightarrow> string) \<Rightarrow> std_command list" where
  "lint_checks env place =
     [tool env place ''ast-grep'' [''scan''], tool env place ''taplo'' [''format'', ''--check''],
      tool env place ''typos'' [], tool env place ''hawkeye'' [''check''],
      tool env place ''cargo'' [''fmt'', ''--all'', ''--check''],
      tool env place ''cargo'' [''clippy'', ''--tests'', ''--all-features'', ''--all-targets'', ''--workspace'',
        ''--'', ''-D'', ''warnings'']]"

fun run_all :: "task_env \<Rightarrow> std_command list \<Rightarrow> unit task" where
  "run_all env [] = task_return ()"
| "run_all env (c # cs) = task_then (run_command env c) (run_all env cs)"

lemma find_command_installed:
  assumes "installed env place"
  shows "find_command env t = task_return (tool env place t [])"
proof
  fix s :: task_state
  obtain err where "te_output env (add_args [t] (std_command_new ''which'')) (ts_fs s) =
      (ts_fs s, Ok \<lparr>out_success = True, out_stdout = place t, out_stderr = err\<rparr>)"
    using assms unfolding installed_def by blast
  then show "find_command env t s = task_return (tool env place t []) s"
    by (simp add: find_command_def task_output_def task_defs tool_def std_command_new_def)
qed

lemma ensure_installed_installed:
  assumes "installed env place"
  shows "ensure_installed env t crate = task_return ()"
proof
  fix s :: task_state
  obtain err where "te_output env (add_args [t] (std_command_new ''which'')) (ts_fs s) =
      (ts_fs s, Ok \<lparr>out_success = True, out_stdout = place t, out_stderr = err\<rparr>)"
    using assms unfolding installed_def by blast
  then show "ensure_installed env t crate s = task_return () s"
    by (simp add: ensure_installed_def task_output_def task_defs)
qed

lemma task_bind_return [simp]: "task_bind (task_return x) f = f x" "task_bind m task_return = m"
  by (auto simp: task_bind_def task_return_def fun_eq_iff split: prod.split sum.split)

lemma add_args_tool: "add_args ys (tool env place t xs) = tool env place t (xs @ ys)"
  by (simp add: add_args_def tool_def)

lemma lint_is_pipeline:
  assumes "installed env place"
  shows "command_lint_run env \<lparr>cl_fix = False\<rparr> =
    task_then (run_custom_format env False) (run_all env (lint_checks env place))"
  by (simp add: command_lint_run_def lint_checks_def make_sg_lint_cmd_def make_taplo_cmd_def make_typos_cmd_def
      make_hawkeye_cmd_def make_format_cmd_def make_clippy_cmd_def find_command_installed [OF assms]
      ensure_installed_installed [OF assms] add_args_tool task_bind_assoc Let_def)

lemma run_command_eq:
  "run_command env cmd s =
     (case te_status env cmd (ts_fs s) of
        (fs, Inl _) \<Rightarrow> (s\<lparr>ts_shown := ts_shown s @ [cmd], ts_fs := fs\<rparr>, Err ExecFailed)
      | (fs, Inr success) \<Rightarrow>
          (s\<lparr>ts_shown := ts_shown s @ [cmd], ts_fs := fs\<rparr>, if success then Ok () else Err CommandFailed))"
  by (simp add: run_command_def show_command_def task_bind_def split: prod.split sum.split)

lemma run_all_prefix:
  "run_all env cs s = (s', r) \<Longrightarrow> \<exists>n\<le>length cs. ts_shown s' = ts_shown s @ take n cs \<and>
     (case r of Inr _ \<Rightarrow> n = length cs | Inl p \<Rightarrow> 0 < n \<and> p \<in> {ExecFailed, CommandFailed})"
proof (induction cs arbitrary: s)
  case Nil
  then show ?case by (auto simp: task_return_def)
next
  case (Cons c cs)
  obtain s1 q where c: "run_command env c s = (s1, q)" by (metis prod.exhaust)
  then have s1: "ts_shown s1 = ts_shown s @ [c]" "\<And>p. q = Inl p \<Longrightarrow> p \<in> {ExecFailed, CommandFailed}"
    by (auto simp: run_command_eq split: prod.splits sum.splits if_splits)
  show ?case
  proof (cases q)
    case (Inl p)
    with Cons.prems c s1 show ?thesis by (intro exI [of _ 1]) (auto simp: task_bind_def)
  next
    case (Inr u)
    then have "run_all env cs s1 = (s', r)" using Cons.prems c by (simp add: task_bind_def)
    from Cons.IH [OF this] obtain n where "n \<le> length cs" "ts_shown s' = ts_shown s1 @ take n cs"
        "case r of Inr _ \<Rightarrow> n = length cs | Inl p \<Rightarrow> 0 < n \<and> p \<in> {ExecFailed, CommandFailed}" by blast
    with s1 show ?thesis by (intro exI [of _ "Suc n"]) (auto split: sum.splits)
  qed
qed

section \<open>Properties\<close>

text \<open>
  \<open>run_custom_format\<close> with \<open>--fix\<close> replaces every inline snapshot by its formatted text as if all were
  replaced at once: although the rewriting changes the length of the files, every recorded byte offset
  is still right when it is used, nothing panics and no other file changes.
\<close>
lemma custom_format_substitutes_all:
  assumes "scan_inline_snaps env s = (s1, Inr snaps)" and "apart_snaps snaps"
    and "\<forall>x\<in>set snaps. snap_ready env (ts_fs s1) x"
  shows "\<exists>s2. run_custom_format env True s = (s2, Ok ()) \<and>
    files (ts_fs s2) = rewritten env snaps (files (ts_fs s1))"
  using format_snaps_fix [OF assms(2,3)] assms(1) by (auto simp: run_custom_format_def task_bind_def)

definition demo_snap :: "nat \<Rightarrow> nat \<Rightarrow> string \<Rightarrow> scan_result" where
  "demo_snap a b t = \<lparr>sr_file = ''a.rs'', sr_range = \<lparr>byte_range = \<lparr>bo_start = a, bo_end = b\<rparr>,
     start_pos = \<lparr>tp_line = 0, tp_column = a\<rparr>\<rparr>, sr_lines = t, sr_text = t\<rparr>"

definition demo_task_env :: task_env where
  "demo_task_env = \<lparr>te_workspace = ''/w'',
     te_output = (\<lambda>c fs. (fs, Ok \<lparr>out_success = True, out_stdout = [], out_stderr = []\<rparr>)),
     te_status = (\<lambda>c fs. (fs, Ok (cmd_args c \<noteq> [''check'']))),
     te_from_str = (\<lambda>_. Some [demo_snap 0 2 ''ab'', demo_snap 3 5 ''cd'']),
     te_unindent = id, te_indent_by = (\<lambda>n s. ''  '' @ s)\<rparr>"

definition demo_task_state :: task_state where
  "demo_task_state = \<lparr>ts_fs = \<lparr>files = [''/w/a.rs'' \<mapsto> ''ab.cd''], readable = (\<lambda>_. True), writable = (\<lambda>_. True)\<rparr>,
     ts_shown = []\<rparr>"

lemma demo_installed: "installed demo_task_env (\<lambda>_. [])"
  by (simp add: installed_def demo_task_env_def)

lemma demo_scan:
  "\<exists>s1. scan_inline_snaps demo_task_env demo_task_state = (s1, Inr [demo_snap 0 2 ''ab'', demo_snap 3 5 ''cd'']) \<and>
    ts_fs s1 = ts_fs demo_task_state"
  by (simp add: scan_inline_snaps_def make_sg_search_cmd_def find_command_installed [OF demo_installed]
      ensure_installed_installed [OF demo_installed])
    (simp add: run_command_with_stdout_def show_command_def task_output_def demo_task_env_def from_utf8_def task_defs)

lemma custom_format_substitutes_all_witness:
  "\<exists>s2. run_custom_format demo_task_env True demo_task_state = (s2, Ok ()) \<and>
     files (ts_fs s2) ''/w/a.rs'' = Some ''  ab.  cd''"
proof -
  obtain s1 where s1: "scan_inline_snaps demo_task_env demo_task_state =
      (s1, Inr [demo_snap 0 2 ''ab'', demo_snap 3 5 ''cd''])" "ts_fs s1 = ts_fs demo_task_state"
    using demo_scan by blast
  have "\<exists>s2. run_custom_format demo_task_env True demo_task_state = (s2, Ok ()) \<and>
      files (ts_fs s2) = rewritten demo_task_env [demo_snap 0 2 ''ab'', demo_snap 3 5 ''cd''] (files (ts_fs s1))"
    by (rule custom_format_substitutes_all [OF s1(1)])
      (simp_all add: snap_ready_def snap_in_def s1(2) demo_task_state_def demo_task_env_def demo_snap_def
        snap_path_def is_char_boundary_def is_cont_def)
  then show ?thesis
    by (auto simp: rewritten_def s1(2) demo_task_state_def demo_task_env_def demo_snap_def snap_path_def
        format_text_def Let_def)
qed

text \<open>
  \<open>run_custom_format\<close> without \<open>--fix\<close> changes no file, succeeds exactly when every inline snapshot is
  formatted, and otherwise reports the last one that is not, with the position of its first character
  counted from one.
\<close>
lemma custom_format_check_reports:
  assumes "scan_inline_snaps env s = (s1, Inr snaps)"
  shows "run_custom_format env False s = (s1,
    case List.find (\<lambda>x. sr_text x \<noteq> format_text env x) (rev snaps) of
      None \<Rightarrow> Ok ()
    | Some x \<Rightarrow> Err (DiffIn (snap_path env x) (tp_line (start_pos (sr_range x)) + 1)
        (tp_column (start_pos (sr_range x)) + 1)))"
proof -
  have "format_snaps env False xs s1 = (s1,
    case List.find (\<lambda>x. sr_text x \<noteq> format_text env x) xs of
      None \<Rightarrow> Ok ()
    | Some x \<Rightarrow> Err (DiffIn (snap_path env x) (tp_line (start_pos (sr_range x)) + 1)
        (tp_column (start_pos (sr_range x)) + 1)))" for xs
    by (induction xs) (simp_all add: task_return_def task_bind_def format_snap_check)
  then show ?thesis using assms by (simp add: run_custom_format_def task_bind_def)
qed

lemma custom_format_check_reports_witness:
  "\<exists>s1. run_custom_format demo_task_env False demo_task_state = (s1, Err (DiffIn ''/w/a.rs'' 1 4)) \<and>
     ts_fs s1 = ts_fs demo_task_state"
proof -
  obtain s1 where s1: "scan_inline_snaps demo_task_env demo_task_state =
      (s1, Inr [demo_snap 0 2 ''ab'', demo_snap 3 5 ''cd''])" "ts_fs s1 = ts_fs demo_task_state"
    using demo_scan by blast
  from custom_format_check_reports [OF s1(1)] s1(2) show ?thesis
    by (simp add: demo_snap_def format_text_def demo_task_env_def snap_path_def)
qed

text \<open>
  \<open>lint\<close> without \<open>--fix\<close> runs its six checks in the workspace directory in a fixed order and stops at the
  first that fails: what it has started is a prefix of the list, the whole of it exactly when the task
  succeeds.
\<close>
lemma lint_stops_at_first_failure:
  assumes "installed env place" and "run_custom_format env False s = (s1, Ok ())"
    and "command_lint_run env \<lparr>cl_fix = False\<rparr> s = (s2, r)"
  shows "\<exists>n\<le>length (lint_checks env place). ts_shown s2 = ts_shown s1 @ take n (lint_checks env place) \<and>
    (case r of Inr _ \<Rightarrow> n = length (lint_checks env place) | Inl p \<Rightarrow> 0 < n \<and> p \<in> {ExecFailed, CommandFailed})"
  using assms(2,3) unfolding lint_is_pipeline [OF assms(1)]
  by (intro run_all_prefix) (simp add: task_bind_def)

lemma lint_stops_at_first_failure_witness:
  "\<exists>env s1 s2. run_custom_format env False demo_task_state = (s1, Ok ()) \<and>
     command_lint_run env \<lparr>cl_fix = False\<rparr> demo_task_state = (s2, Err CommandFailed) \<and>
     ts_shown s2 = ts_shown s1 @ take 4 (lint_checks env (\<lambda>_. []))"
proof -
  let ?env = "demo_task_env\<lparr>te_from_str := \<lambda>_. Some []\<rparr>"
  have inst: "installed ?env (\<lambda>_. [])" using demo_installed by (simp add: installed_def)
  obtain s1 where s1: "run_custom_format ?env False demo_task_state = (s1, Ok ())"
    by (simp add: run_custom_format_def scan_inline_snaps_def make_sg_search_cmd_def
        find_command_installed [OF inst] ensure_installed_installed [OF inst])
      (simp add: run_command_with_stdout_def show_command_def task_output_def demo_task_env_def from_utf8_def task_defs)
  obtain s2 where r: "run_all ?env (lint_checks ?env (\<lambda>_. [])) s1 = (s2, Err CommandFailed)"
      "ts_shown s2 = ts_shown s1 @ take 4 (lint_checks ?env (\<lambda>_. []))"
    by (simp add: lint_checks_def run_command_eq task_bind_def tool_def demo_task_env_def)
  then have s2: "command_lint_run ?env \<lparr>cl_fix = False\<rparr> demo_task_state = (s2, Err CommandFailed)"
    unfolding lint_is_pipeline [OF inst] by (simp add: s1 task_bind_def)
  from lint_stops_at_first_failure [OF inst s1 s2] s1 s2 r show ?thesis by blast
qed

end
