(* ===== verification/BuildScript.thy ===== *)
theory BuildScript
  imports Prelude "HOL-Library.Sublist"
begin

text \<open>
  \<open>crates/version/build.rs\<close>: the build script of the version crate. Directories are lists of components;
  \<open>gix_discover::upwards\<close>, the time stamps of \<open>build_data\<close>, the environment variables and \<open>shadow_rs\<close> are
  arguments. The search for the repository is a loop with no bound in the source, so its model is a
  partial function whose value \<open>None\<close> is not returning; the lemmas show that it returns. The output is
  the list of the lines printed for cargo.
\<close>

section \<open>The search for the repository\<close>

type_synonym dir_path = "string list"

datatype repository_path = Repository dir_path | WorkTree dir_path | LinkedWorkTree dir_path

datatype build_panic = BareRepository | NoParent

definition parent_dir :: "dir_path \<Rightarrow> dir_path option" where
  "parent_dir p = (if p = [] then None else Some (butlast p))"

definition display_path :: "dir_path \<Rightarrow> string" where
  "display_path p = concat (map (\<lambda>c. ''/'' @ c) p)"

definition rerun_line :: "dir_path \<Rightarrow> string" where
  "rerun_line work_dir = ''cargo::rerun-if-changed='' @ display_path (work_dir @ [''.git'', ''refs'', ''heads''])"

partial_function (option) configure_rerun ::
  "(dir_path \<Rightarrow> repository_path option) \<Rightarrow> dir_path \<Rightarrow> (build_panic + string list) option" where
  "configure_rerun upwards current =
     (case upwards current of
        None \<Rightarrow> Some (Ok [])
      | Some (Repository git_dir) \<Rightarrow> Some (Err BareRepository)
      | Some (WorkTree work_dir) \<Rightarrow> Some (Ok [rerun_line work_dir])
      | Some (LinkedWorkTree work_dir) \<Rightarrow>
          (case parent_dir work_dir of
             None \<Rightarrow> Some (Err NoParent)
           | Some current' \<Rightarrow> configure_rerun upwards current'))"

section \<open>The script\<close>

record 't build_env =
  be_manifest_dir :: dir_path
  be_upwards :: "dir_path \<Rightarrow> repository_path option"
  be_source_time :: "'t option"
  be_format_timestamp :: "'t \<Rightarrow> string option"
  be_build_timestamp :: string
  be_var :: "string \<Rightarrow> string option"
  be_shadow :: "string \<Rightarrow> string \<Rightarrow> string list \<Rightarrow> bool"

datatype build_error = FormatFailed | VarMissing string | ShadowFailed

definition source_timestamp :: "'t build_env \<Rightarrow> build_error + string" where
  "source_timestamp env =
     (case be_source_time env of
        None \<Rightarrow> Ok ''''
      | Some t \<Rightarrow> (case be_format_timestamp env t of None \<Rightarrow> Err FormatFailed | Some x \<Rightarrow> Ok x))"

definition env_var :: "'t build_env \<Rightarrow> string \<Rightarrow> build_error + string" where
  "env_var env v = (case be_var env v of None \<Rightarrow> Err (VarMissing v) | Some x \<Rightarrow> Ok x)"

definition build_main :: "'t build_env \<Rightarrow> (string list \<times> (build_panic + (build_error + unit))) option" where
  "build_main env =
     map_option (\<lambda>found. case found of
        Inl p \<Rightarrow> ([], Err p)
      | Inr rerun \<Rightarrow>
          (case source_timestamp env of
             Inl e \<Rightarrow> (rerun, Ok (Err e))
           | Inr stamp \<Rightarrow>
               (let out = rerun @ [''cargo::rustc-env=SOURCE_TIMESTAMP='' @ stamp, be_build_timestamp env] in
                case (case env_var env ''CARGO_WORKSPACE_DIR'' of
                        Inr x \<Rightarrow> Ok x | Inl _ \<Rightarrow> env_var env ''CARGO_MANIFEST_DIR'') of
                  Inl e \<Rightarrow> (out, Ok (Err e))
                | Inr src_path \<Rightarrow>
                    (case env_var env ''OUT_DIR'' of
                       Inl e \<Rightarrow> (out, Ok (Err e))
                     | Inr out_path \<Rightarrow>
                         (out, Ok (if be_shadow env src_path out_path [''CARGO_METADATA'', ''CARGO_TREE'']
                            then Ok () else Err ShadowFailed))))))
       (configure_rerun (be_upwards env) (be_manifest_dir env))"

section \<open>Lemmas\<close>

text \<open>What \<open>gix_discover\<close> documents: it looks at the given directory and then at its parents.\<close>

definition upwards_ok :: "(dir_path \<Rightarrow> repository_path option) \<Rightarrow> bool" where
  "upwards_ok upwards \<longleftrightarrow>
     (\<forall>p w. upwards p = Some (WorkTree w) \<or> upwards p = Some (LinkedWorkTree w) \<longrightarrow> prefix w p)"

definition found_above :: "(dir_path \<Rightarrow> repository_path option) \<Rightarrow> dir_path \<Rightarrow> build_panic + string list \<Rightarrow> bool" where
  "found_above upwards current r \<longleftrightarrow>
     (case r of
        Inr ls \<Rightarrow> ls = [] \<and> (\<exists>p. prefix p current \<and> upwards p = None) \<or>
          (\<exists>p w. prefix p current \<and> upwards p = Some (WorkTree w) \<and> prefix w p \<and> ls = [rerun_line w])
      | Inl NoParent \<Rightarrow> (\<exists>p. prefix p current \<and> upwards p = Some (LinkedWorkTree []))
      | Inl BareRepository \<Rightarrow> (\<exists>p g. prefix p current \<and> upwards p = Some (Repository g)))"

lemma found_above_prefix:
  "found_above upwards p r \<Longrightarrow> prefix p q \<Longrightarrow> found_above upwards q r"
  by (auto simp: found_above_def split: sum.splits build_panic.splits intro: prefix_order.trans)

lemma configure_rerun_returns:
  assumes "upwards_ok upwards"
  shows "\<exists>r. configure_rerun upwards current = Some r \<and> found_above upwards current r"
proof (induction "length current" arbitrary: current rule: less_induct)
  case less
  show ?case
  proof (cases "\<exists>w. upwards current = Some (LinkedWorkTree w) \<and> w \<noteq> []")
    case True
    then obtain w where w: "upwards current = Some (LinkedWorkTree w)" "w \<noteq> []" by blast
    then have "prefix w current" using assms by (auto simp: upwards_ok_def)
    then have "prefix (butlast w) current" "length w \<le> length current"
      using prefix_order.trans [OF prefixeq_butlast] by (auto dest: prefix_length_le)
    moreover have "length (butlast w) < length w" using w(2) by simp
    ultimately have "length (butlast w) < length current" "prefix (butlast w) current" by simp_all
    with less [of "butlast w"] w show ?thesis
      by (subst configure_rerun.simps) (auto simp: parent_dir_def intro: found_above_prefix)
  next
    case False
    then show ?thesis using assms
      by (subst configure_rerun.simps)
        (auto simp: found_above_def parent_dir_def upwards_ok_def split: option.split repository_path.split)
  qed
qed

section \<open>Properties\<close>

text \<open>
  C37: the search for the repository always ends: it climbs out of linked work trees at most to the root,
  and reports the heads of the first ordinary work tree at or above the crate, or nothing; it panics
  only on a bare repository or on a linked work tree at the root.
\<close>
theorem configure_rerun_terminates:
  assumes "upwards_ok upwards"
  shows "\<exists>r. configure_rerun upwards current = Some r \<and>
    (case r of
       Inr ls \<Rightarrow> ls = [] \<and> (\<exists>p. prefix p current \<and> upwards p = None) \<or>
          (\<exists>p w. prefix p current \<and> upwards p = Some (WorkTree w) \<and> prefix w p \<and> ls = [rerun_line w])
     | Inl NoParent \<Rightarrow> (\<exists>p. prefix p current \<and> upwards p = Some (LinkedWorkTree []))
     | Inl BareRepository \<Rightarrow> (\<exists>p g. prefix p current \<and> upwards p = Some (Repository g)))"
  using configure_rerun_returns [OF assms, of current] by (auto simp: found_above_def)

definition demo_upwards :: "dir_path \<Rightarrow> repository_path option" where
  "demo_upwards p =
     (if p = [] then None
      else if length p \<le> 2 then Some (WorkTree (take 1 p)) else Some (LinkedWorkTree (take 3 p)))"

lemma demo_upwards_ok: "upwards_ok demo_upwards"
  by (auto simp: upwards_ok_def demo_upwards_def take_is_prefix split: if_splits)

theorem configure_rerun_terminates_witness:
  "configure_rerun demo_upwards [''r'', ''libs'', ''sub'', ''crates''] =
     Some (Ok [''cargo::rerun-if-changed=/r/.git/refs/heads''])"
proof -
  have "\<exists>r. configure_rerun demo_upwards [''r'', ''libs'', ''sub'', ''crates''] = Some r"
    using configure_rerun_terminates [OF demo_upwards_ok] by blast
  moreover have "configure_rerun demo_upwards [''r'', ''libs''] = Some (Ok [''cargo::rerun-if-changed=/r/.git/refs/heads''])"
    by (subst configure_rerun.simps) (simp add: demo_upwards_def rerun_line_def display_path_def)
  ultimately show ?thesis
    by (subst configure_rerun.simps) (simp add: demo_upwards_def parent_dir_def)
qed

text \<open>
  The build script returns, and it returns an error exactly when the source time cannot be formatted,
  when neither workspace nor manifest directory is in the environment, when there is no output
  directory, or when \<open>shadow_rs\<close> fails on the workspace directory (the manifest directory when the former
  is not set).
\<close>
lemma build_main_outcome:
  assumes "upwards_ok (be_upwards env)" and "\<And>p. be_upwards env p \<notin> range (Some \<circ> Repository)"
    and "\<And>p. be_upwards env p \<noteq> Some (LinkedWorkTree [])"
  defines "src \<equiv> or_else (be_var env ''CARGO_WORKSPACE_DIR'') (be_var env ''CARGO_MANIFEST_DIR'')"
  shows "\<exists>out r. build_main env = Some (out, Ok r) \<and>
    (r = Ok () \<longleftrightarrow> (\<forall>t. be_source_time env = Some t \<longrightarrow> be_format_timestamp env t \<noteq> None) \<and>
       (\<exists>s d. src = Some s \<and> be_var env ''OUT_DIR'' = Some d \<and> be_shadow env s d [''CARGO_METADATA'', ''CARGO_TREE'']))"
proof -
  obtain q where q: "configure_rerun (be_upwards env) (be_manifest_dir env) = Some q"
      "found_above (be_upwards env) (be_manifest_dir env) q"
    using configure_rerun_returns [OF assms(1)] by blast
  then obtain ls where "q = Ok ls"
    using assms(2,3) by (auto simp: found_above_def split: sum.splits build_panic.splits)
  with q(1) show ?thesis
    by (auto simp: build_main_def source_timestamp_def env_var_def src_def Let_def split: option.split)
qed

definition demo_build_env :: "nat build_env" where
  "demo_build_env = \<lparr>be_manifest_dir = [''r'', ''crates'', ''version''], be_upwards = demo_upwards,
     be_source_time = None, be_format_timestamp = (\<lambda>_. None), be_build_timestamp = ''cargo::rustc-env=BUILD_TIMESTAMP=0'',
     be_var = [''CARGO_MANIFEST_DIR'' \<mapsto> ''/r/crates/version'', ''OUT_DIR'' \<mapsto> ''/out''],
     be_shadow = (\<lambda>s d deny. s = ''/r/crates/version'')\<rparr>"

lemma build_main_outcome_witness: "\<exists>out. build_main demo_build_env = Some (out, Ok (Ok ()))"
proof -
  have ok: "upwards_ok (be_upwards demo_build_env)" "be_upwards demo_build_env p \<notin> range (Some \<circ> Repository)"
      "be_upwards demo_build_env p \<noteq> Some (LinkedWorkTree [])" for p
    using demo_upwards_ok by (auto simp: demo_build_env_def demo_upwards_def)
  from build_main_outcome [OF ok] show ?thesis by (auto simp: demo_build_env_def)
qed

end
