(* ===== verification/Spec2Isabelle.thy ===== *)
theory Spec2Isabelle
  imports WireLink RingTests CrashSafety RateLimit Shutdown Workers ClusterSync ClusterData ConfigSchema
    ConfigDocument MemberTests TestHarness Xtask BuildScript
begin

text \<open>
  A verification development for Percas, a distributed cache: nodes hold values in a hybrid memory and
  disk cache, find each other by gossip, agree on owners of keys by consistent hashing, and redirect
  requests for keys they do not own; a client library keeps a copy of the ring.

  \<^bold>\<open>Parts of the program and their theories.\<close> Paths are relative to \<open>src/\<close>.

  \<^item> \<open>Prelude\<close>: machine integers, results as sums, panics, iterator adaptors; the abstract
    specification of consistent hashing (\<open>successor\<close>: the node of the least point at or after a
    digest, with wrap-around).
  \<^item> \<open>BTree\<close>: \<open>BTreeMap\<close> and \<open>BTreeSet\<close> of the standard library as finite maps with ordered iteration; the
    locale \<open>ordered_map\<close> holds the laws the components use.
  \<^item> \<open>RingIndex\<close>: the locale \<open>ring_index\<close>, the contract of a hash index, from which the refinement to
    \<open>successor\<close> follows once for both indexes of the program.
  \<^item> \<open>Ring\<close> (\<open>crates/gossip/src/ring.rs\<close>): \<open>HashRing\<close>, an interpretation of \<open>ring_index\<close>. \<open>Decimal\<close>: decimal
    numbers as text. \<open>RingTests\<close>: the \<open>Debug\<close> output of the ring and its unit test, with MurmurHash3.
  \<^item> \<open>Node\<close> (\<open>node.rs\<close>): the identity of a node and \<open>node.json\<close>, with the file system as a record of
    contents and access rights, so that each \<open>io::Error\<close> and panic is a branch. \<open>CrashSafety\<close>: the file
    under crashes in the middle of a write, over the starts, messages and kills of one node.
  \<^item> \<open>Member\<close> (\<open>member.rs\<close>): the membership table and its merge rule; the locale \<open>versioned_table\<close> derives
    convergence and monotonicity of versions from two laws.
  \<^item> \<open>Gossip\<close> (\<open>gossip.rs\<close>, \<open>lib.rs\<close>): state, message handler, exchanges with retries, bodies of the four
    periodic tasks, bootstrap and start. \<open>GossipSteps\<close>: all of it as a step relation, one rule per
    segment between two suspension points, with the locale \<open>invariant_system\<close> for reachable states.
    \<open>Workers\<close>: the same operations one access to a cell or to the file at a time, interleaved by any
    number of threads, another interpretation of \<open>invariant_system\<close>. \<open>MemberTests\<close>: the unit tests of the table.
  \<^item> \<open>Json\<close>, \<open>Wire\<close>: what identities, messages, members and the version look like as JSON on both sides; the
    locale \<open>wire_type\<close> is the contract of a type with an encoder and a decoder, with an interpretation for
    each. \<open>WireLink\<close>: gossip nodes, and server and client, connected by these forms.
  \<^item> \<open>Proxy\<close> (\<open>proxy.rs\<close>): which node serves a key.
  \<^item> \<open>Engine\<close> (\<open>crates/core/src/engine.rs\<close>, \<open>newtype.rs\<close>, \<open>lib.rs\<close>): the storage engine around \<open>foyer\<close>.
  \<^item> \<open>Config\<close> (\<open>crates/core/src/config.rs\<close>) and \<open>LoadConfig\<close> (\<open>cmd/percas/src/config.rs\<close>): defaults, table of
    environment variables, loading. \<open>ConfigSchema\<close>: the schema test of \<open>crates/core/src/config.rs\<close>, which
    compares that table with the JSON schema of the configuration. \<open>ConfigSerde\<close>: the derived encoders and
    decoders of every section of the configuration, each an interpretation of the locale \<open>section_type\<close>;
    \<open>ConfigDocument\<close>: the paths a file may set (locale \<open>path_type\<close>), the instance of the document parameter
    of \<open>load_config\<close>, \<open>dev/standalone/config.toml\<close> and the unit tests of the loader.
  \<^item> \<open>Runtime\<close> (\<open>crates/core/src/runtime.rs\<close>), \<open>Telemetry\<close> (\<open>crates/server/src/telemetry.rs\<close>), \<open>Metrics\<close>
    (\<open>crates/metrics/src/lib.rs\<close>, \<open>crates/server/src/scheduled.rs\<close>).
  \<^item> \<open>Http\<close>, \<open>Server\<close> (\<open>crates/server/src/server.rs\<close>, \<open>middleware.rs\<close>, \<open>crates/version/src/lib.rs\<close>): data and
    control handlers, proxy middleware, initialisation of the node. \<open>RateLimit\<close>: the rate limiter as
    a state machine, a second interpretation of \<open>invariant_system\<close>.
  \<^item> \<open>Client\<close> (\<open>client/src/route.rs\<close>, \<open>client.rs\<close>, \<open>lib.rs\<close>, \<open>protos.rs\<close>): route table, a second interpretation of
    \<open>ring_index\<close>, and client.
  \<^item> \<open>Start\<close> (\<open>cmd/percas/src/start.rs\<close>, \<open>main.rs\<close>, \<open>styled.rs\<close>): the start command, composed of the above.
    \<open>Shutdown\<close>: the four gossip tasks with their \<open>select!\<close> as a step relation, and the joins of
    \<open>await_shutdown\<close> (\<open>crates/server/src/server.rs\<close>). \<open>TestHarness\<close> (\<open>tests/src/lib.rs\<close>): the harness of the
    integration tests, which starts and stops a node of its own.
  \<^item> \<open>Cluster\<close>: several nodes with their disks and a wire that loses, repeats and reorders messages, as a
    step relation over the segments of \<open>gossip.rs\<close> and over starts and restarts of processes; a third
    interpretation of \<open>invariant_system\<close>. \<open>ClusterSync\<close>: the exchange of \<open>sync\<close> seen from both sides, and
    rounds of exchanges with a seed. \<open>ClusterData\<close>: requests that arrive at any node and follow redirects,
    against the caches of all nodes.
  \<^item> \<open>Utf8\<close>: the text functions of the standard library that the developer tasks use. \<open>Xtask\<close>
    (\<open>xtask/src/main.rs\<close>): the developer tasks, as functions that pass files and shown commands along.
  \<^item> \<open>BuildScript\<close> (\<open>crates/version/build.rs\<close>): the build script of the version crate.
  \<^item> this theory: what holds between client, server, ring and engine.

  \<^bold>\<open>How state and effects are modelled.\<close> Each \<open>ArcSwap\<close> or \<open>RwLock\<close> cell is a field of a record; an
  operation returns the record it leaves behind, also when it panics or fails, because the cells
  outlive the task. Errors are left values of sums, panics the left values of an outer sum. Integers
  keep their width: hashes are 32-bit and incarnations and sizes 64-bit words with the wrap-around of
  the release profile; times are integers of nanoseconds. The one conversion through floating point,
  the memory budget, is written out with IEEE rounding. The loops of the program are over finite
  lists and become structural recursion or folds; text is decoded and trimmed by functions with a
  length measure; the one loop without a bound, the search of the build script, is a partial function
  into \<open>option\<close> that is proved to return. Fuel is used in two places: for the walk over a JSON schema,
  where enough of it is proved to exist when the references of the schema do not lead back, and for the
  number of redirects a client follows, where one is proved to be enough in a settled cluster. Other claims
  that an operation returns are equations with its result.

  \<^bold>\<open>What is outside.\<close> Code that is not in the repository is an argument of the definitions that use
  it, collected in the records \<open>gossip_ext\<close>, \<open>foyer\<close>, \<open>client_env\<close>, \<open>server_env\<close>, \<open>net_env\<close>, \<open>toml_ops\<close>,
  \<open>telemetry_env\<close>, \<open>sem_ops\<close>, \<open>program_env\<close>, \<open>task_env\<close>, \<open>build_env\<close>, \<open>tokio_exec\<close>, \<open>wire_env\<close> and \<open>config_env\<close>: the hash function, the text
  of JSON and TOML, of urls, uuids, sizes and durations, the HTTP client and web framework, the retry combinator, the hybrid cache, TOML documents, \<open>tokio\<close>, the semaphore, clocks and
  the random source. Where a theorem needs something of them it says so by name: \<open>codec_ok\<close> (what is
  written is read back), \<open>retry_ok\<close> (the first success or the last failure), \<open>foyer_ok\<close> (a cache forgets
  but does not invent), \<open>toml_ok\<close>, \<open>sem_ok\<close> (counting), \<open>rng_ok\<close>
  (an index in range, a panic on the empty range), \<open>join_all_ok\<close> (all results or a failure), \<open>delivers\<close> (a request reaches the node),
  \<open>upwards_ok\<close> (a repository is found at or above a directory), \<open>installed\<close> (\<open>which\<close> finds a tool),
  \<open>wire_ok\<close> and \<open>config_env_ok\<close> (texts are read back), \<open>exact_size\<close> (a byte size is written without rounding),
  \<open>prefix_free\<close> (the first bytes of a JSON object are not a JSON object). Witnesses
  instantiate each of them with concrete functions.

  \<^bold>\<open>What the theorems show.\<close> Ring and route table compute the same abstract successor, adding or
  removing a node moves only the keys it must, and the death of a member reroutes only its keys.
  Versions of members converge whatever the order of gossip, statuses do not. In every reachable
  state the file holds the announced identity; a node refutes its own death, recovers, and after a
  restart announces a higher incarnation than ever before. Across a whole cluster, with any delivery
  and any crashes, no table shows an incarnation its node has not announced, equal incarnations mean
  equal identities, a new identity wins at every node that hears of it, nodes with the same view agree
  on one owner of every key, one sync makes two tables
  equally recent, and two rounds with a seed let everyone know everyone. A node serves no stale value, a redirect
  keeps the path and ends at an alive member, a settled client needs none, and puts, gets and deletes
  round trip from the client to the store. A settled cluster answers, at whatever node a client asks, like
  one cache. A message posted to a node's gossip endpoint acts as a call of the handler, every JSON form
  is read back by the other side, and a client that refreshes over the network has the table of its server.
  The operations on the gossip cells are atomic on one worker thread, which is what the program
  gives them; identity, well-formedness and a table that is not empty survive any number of threads. The
  shutdown ends, and a panic of a task comes back in it. The schema test passes exactly when the table of
  variables is the list of options. A configuration
  written as a document is read back, and a document that is accepted sets known options only. The unit
  tests of the table, the ring and the loader pass. However a node is killed, also in the middle of a write
  of its file, no incarnation is announced by two of its runs. The start command leaves a consistent node or, when it
  fails early, untouched files. The snapshot formatter of the developer tasks rewrites all snapshots as
  if at once, \<open>lint\<close> stops at its first failure, the build script ends. The node of the test harness serves
  every key itself. Bounds: rate limiter, throttle, memory budget, counters of the reports.
  Some theorems record behaviour the sources did not intend: stale statuses win at equal
  incarnations; a node that cannot reach itself empties its table, which makes its tasks and later its
  shutdown panic; a message handled while \<open>start\<close> resets the table can undo the reset; on more than one
  worker an incarnation can be announced twice; a node that gets a key back serves the value from before;
  a node file torn by a kill makes every later start fail; one documented environment variable can never be used.

  \<^bold>\<open>Not modelled.\<close> Real time (tickers, sleeps, timeouts), log output, the help text but for its styles, the
  grammars of JSON and TOML (their values are modelled), the generated schemas, the executor of \<open>tokio\<close>,
  the benchmark, which only measures, and \<open>render_hex\<close>, which prints the values of the integration tests.
  Of the unit tests, those of \<open>runtime.rs\<close> and \<open>engine.rs\<close>: they check that \<open>tokio\<close> runs a task and that
  \<open>foyer\<close> keeps an entry, which the law of a cache does not promise. Decoders read a struct from an object
  only, not from an array. Within \<open>gossip_start\<close> the bootstrap is sequential; the control server that already
  receives messages is interleaved with it in \<open>GossipSteps\<close>, \<open>Cluster\<close> and, access by access, in \<open>Workers\<close>.
  In the cluster a segment between two suspension points is atomic, also with respect to a crash (crashes
  inside the write of the node file are those of \<open>CrashSafety\<close>), a disk belongs to one node, and the
  results hold until a 64-bit incarnation wraps around.
\<close>

section \<open>The members endpoint as the client reads it\<close>

lemma client_members_eq:
  "client_members ext g =
   map (client_view \<circ> server_member_of ext (ring_cell g)) (bt_values (members (membership_cell g)))"
  by (simp add: client_members_def list_members_def)

lemma client_members_ids:
  assumes "membership_wf (membership_cell g)"
  shows "map cm_node_id (client_members ext g) = bt_keys (members (membership_cell g))"
  using assms
  by (auto simp: client_members_eq client_view_def server_member_of_def bt_values_def bt_keys_def
      membership_wf_def list_all_iff case_prod_unfold)

lemma client_member_found:
  assumes "membership_wf (membership_cell g)" "member_of (membership_cell g) i = Some m"
  shows "List.find (\<lambda>x. cm_node_id x = i) (client_members ext g) =
    Some (client_view (server_member_of ext (ring_cell g) m))"
proof -
  let ?x = "client_view (server_member_of ext (ring_cell g) m)"
  have id: "cm_node_id ?x = i"
    using assms by (simp add: client_view_def server_member_of_def membership_wf_iff)
  have "?x \<in> set (client_members ext g)"
    using assms(2) mem_bt_values by (force simp: client_members_eq)
  moreover have "distinct (map cm_node_id (client_members ext g))"
    using bt_keys_increasing [of "members (membership_cell g)"]
    by (simp add: client_members_ids [OF assms(1)] strict_sorted_iff)
  ultimately show ?thesis using find_member_by_id [of "client_members ext g" ?x] id by simp
qed

lemma client_points:
  assumes "membership_wf (membership_cell g)" "vnodes (ring_cell g) = DEFAULT_VNODE_COUNT"
  shows "(\<Union>m\<in>set (client_members ext g). member_points m) =
    ring_points (ring_from (ext_mur3 ext) (ext_as_ref ext) (bt_keys (members (membership_cell g))))"
proof -
  have "member_points (client_view (server_member_of ext (ring_cell g) m)) =
      node_points (ext_mur3 ext) (ext_as_ref ext) DEFAULT_VNODE_COUNT (node_id (info m))" for m
    using assms(2)
    by (auto simp: member_points_def client_view_def server_member_of_def list_vnodes_def node_points_def
        set_u32_range image_image)
  then have "(\<Union>m\<in>set (client_members ext g). member_points m) =
      (\<Union>i\<in>set (map cm_node_id (client_members ext g)).
         node_points (ext_mur3 ext) (ext_as_ref ext) DEFAULT_VNODE_COUNT i)"
    by (simp add: client_members_eq client_view_def server_member_of_def)
  then show ?thesis
    by (simp only: client_members_ids [OF assms(1)] ring_from_points)
qed

lemma client_lookup_ring:
  assumes "membership_wf (membership_cell g)" "vnodes (ring_cell g) = DEFAULT_VNODE_COUNT"
  shows "rt_lookup (ext_mur3 ext) (build_route_table (client_members ext g)) key =
    map_option (\<lambda>i. (i, advertise_data_url (info (the (member_of (membership_cell g) i)))))
      (lookup (ext_mur3 ext)
        (ring_from (ext_mur3 ext) (ext_as_ref ext) (bt_keys (members (membership_cell g)))) key)"
proof -
  let ?r = "ring_from (ext_mur3 ext) (ext_as_ref ext) (bt_keys (members (membership_cell g)))"
  have d: "distinct (map cm_node_id (client_members ext g))"
    using bt_keys_increasing [of "members (membership_cell g)"]
    by (simp add: client_members_ids [OF assms(1)] strict_sorted_iff)
  have l: "lookup (ext_mur3 ext) ?r key = successor (ext_mur3 ext key 0) (ring_points ?r)"
    by (simp add: lookup_points hash_key_def)
  show ?thesis
  proof (cases "successor (ext_mur3 ext key 0) (ring_points ?r)")
    case None
    then show ?thesis using rt_lookup_build [OF d] by (simp add: client_points [OF assms] l)
  next
    case (Some i)
    then obtain h where "(h, i) \<in> ring_points ?r" using successor_mem [OF finite_ring_points] by blast
    then obtain m where "member_of (membership_cell g) i = Some m"
      by (auto simp: ring_from_points node_points_def set_bt_keys)
    then show ?thesis
      using rt_lookup_build [OF d] Some client_member_found [OF assms(1), of i m ext]
      by (simp add: client_points [OF assms] l client_view_def server_member_of_def)
  qed
qed

section \<open>Client and cluster agree\<close>


lemma demo_booting: "gossip_booting demo_ext 1 (gossip_new (demo_node 1 0) [] ''/d'', demo_disk)"
  unfolding gossip_booting_def using demo_ext_codec_ok demo_disk_holds by fastforce


text \<open>
  With a settled view the client needs no redirect. When all members of a node's table are alive and
  its ring is the one rebuilt from the table, the client that read its member list sends a key to the
  data url of a member whose proxy, with the same view, serves the key locally; it falls back to its
  configured url only when the table is empty.
\<close>
lemma client_needs_no_redirect:
  assumes wf: "membership_wf (membership_cell g)"
    and settled: "ring_cell g = ring_from (ext_mur3 ext) (ext_as_ref ext) (bt_keys (members (membership_cell g)))"
    and alive: "\<And>k m. member_of (membership_cell g) k = Some m \<Longrightarrow> status m = Alive"
    and tab: "table c = Some (build_route_table (client_members ext g))" and "cx_mur3 cx = ext_mur3 ext"
    and nonempty: "\<not> bt_is_empty (members (membership_cell g))"
  shows "\<exists>m. member_of (membership_cell g) (node_id (info m)) = Some m \<and>
    client_route cx c key = advertise_data_url (info m) \<and>
    proxy_route ext (proxy_new (t\<lparr>ring_cell := ring_cell g, membership_cell := membership_cell g,
      current_node := info m\<rparr>)) key = Local"
proof -
  let ?r = "ring_from (ext_mur3 ext) (ext_as_ref ext) (bt_keys (members (membership_cell g)))"
  have in_table: "snd p \<in> set (bt_keys (members (membership_cell g)))" if "p \<in> ring_points ?r" for p
    using that by (auto simp: ring_from_points dest: snd_node_points)
  have "alive_points g = ring_points ?r"
    using in_table alive
    by (auto simp: alive_points_def settled is_alive_def set_bt_keys split: option.split)
  then have serving: "serving_node ext g key = lookup (ext_mur3 ext) ?r key"
    by (simp add: serving_node_def lookup_points)
  obtain k m0 where "member_of (membership_cell g) k = Some m0"
    using nonempty by (auto simp: bt_is_empty_iff)
  then have "ring_points ?r \<noteq> {}"
    using default_points_nonempty [of "ext_mur3 ext" "ext_as_ref ext" k] by (force simp: ring_from_points set_bt_keys)
  then obtain i where i: "lookup (ext_mur3 ext) ?r key = Some i"
    by (metis lookup_points not_None_eq ring_from_wf successor_None_iff)
  obtain m where m: "member_of (membership_cell g) i = Some m"
    using serving_node_alive(1) [of ext g key i] serving i by auto
  then have id: "node_id (info m) = i" using wf by (simp add: membership_wf_iff)
  have "vnodes (ring_cell g) = DEFAULT_VNODE_COUNT" by (simp add: settled)
  from client_lookup_ring [OF wf this, of ext key] i m tab assms(5)
  have route: "client_route cx c key = advertise_data_url (info m)"
    by (simp add: client_route_def)
  have "serving_node ext (t\<lparr>ring_cell := ring_cell g, membership_cell := membership_cell g,
      current_node := info m\<rparr>) key = Some i"
    using serving i by (simp add: serving_node_def alive_points_def)
  with wf id m route show ?thesis
    by (intro exI [of _ m]) (simp add: proxy_route_serving)
qed

lemma demo_view_settled:
  defines "g \<equiv> demo_view\<lparr>ring_cell := ring_from (ext_mur3 demo_ext) (ext_as_ref demo_ext)
    (bt_keys (members (membership_cell demo_view)))\<rparr>"
  shows "membership_cell g = membership_cell demo_view" "ring_cell g =
    ring_from (ext_mur3 demo_ext) (ext_as_ref demo_ext) (bt_keys (members (membership_cell g)))"
  by (simp_all add: g_def)

lemma client_needs_no_redirect_witness:
  "\<exists>m. member_of (membership_cell demo_view) (node_id (info m)) = Some m \<and>
    client_route (demo_cx\<lparr>cx_mur3 := ext_mur3 demo_ext\<rparr>) (demo_client\<lparr>table := Some (build_route_table
      (client_members demo_ext (demo_view\<lparr>ring_cell := ring_from (ext_mur3 demo_ext) (ext_as_ref demo_ext)
        (bt_keys (members (membership_cell demo_view)))\<rparr>)))\<rparr>) [9] = advertise_data_url (info m)"
proof -
  let ?g = "demo_view\<lparr>ring_cell := ring_from (ext_mur3 demo_ext) (ext_as_ref demo_ext)
    (bt_keys (members (membership_cell demo_view)))\<rparr>"
  let ?c = "demo_client\<lparr>table := Some (build_route_table (client_members demo_ext ?g))\<rparr>"
  have wf: "membership_wf (membership_cell ?g)" using demo_view_wf by simp
  have alive: "status m = Alive" if "member_of (membership_cell ?g) k = Some m" for k m
    using that by (auto simp: member_of_demo_view split: if_splits)
  have ne: "\<not> bt_is_empty (members (membership_cell ?g))"
    by (auto simp: bt_is_empty_iff member_of_demo_view intro!: exI [of _ 2])
  have tab: "table ?c = Some (build_route_table (client_members demo_ext ?g))" by simp
  have mur: "cx_mur3 (demo_cx\<lparr>cx_mur3 := ext_mur3 demo_ext\<rparr>) = ext_mur3 demo_ext" by simp
  have "\<exists>m. member_of (membership_cell ?g) (node_id (info m)) = Some m \<and>
      client_route (demo_cx\<lparr>cx_mur3 := ext_mur3 demo_ext\<rparr>) ?c [9] = advertise_data_url (info m) \<and>
      proxy_route demo_ext (proxy_new (?g\<lparr>ring_cell := ring_cell ?g, membership_cell := membership_cell ?g,
        current_node := info m\<rparr>)) [9] = Local"
    by (rule client_needs_no_redirect [OF wf demo_view_settled(2) _ tab mur ne]) (rule alive)
  then show ?thesis by auto
qed


definition demo_link :: "(nat, string, unit) client_env" where
  "demo_link = demo_cx\<lparr>cx_mur3 := ext_mur3 demo_ext, cx_join := \<lambda>u p. Ok (u @ p),
     cx_send := \<lambda>_ _ w. (w, Ok (list_members_handler (wired_server demo_wire demo_sx) demo_ext
       (gossip_new (demo_node 1 0) [] ''/d'')))\<rparr>"


section \<open>From the client to the store and back\<close>

text \<open>
  A node that answers the client: requests for a key reach its data server as they are, with the key
  decoded from the path.
\<close>

definition delivers ::
  "('id::linorder, 'url, 'c server_world) client_env \<Rightarrow> ('id, 'url) server_env \<Rightarrow> ('id, 'url) gossip_ext \<Rightarrow>
   'c foyer \<Rightarrow> ('id, 'url) gossip_state \<Rightarrow> 'c endpoint \<Rightarrow> string \<Rightarrow> bool" where
  "delivers cx sx ext fy g other key \<longleftrightarrow>
     (\<forall>base. \<exists>url. cx_join cx base key = Ok url \<and>
       (\<forall>rc m body w resp w'.
          data_server sx ext fy g 0 other
            \<lparr>dr_method = m, dr_path = ''/'' @ key, dr_key = Some key, dr_body = Some body\<rparr> w = (w', Ok resp) \<longrightarrow>
          cx_send cx rc \<lparr>req_method = m, req_url = url, req_body = Some body\<rparr> w = (w', Ok resp))) \<and>
     (\<forall>base. \<exists>url. cx_join cx base ''members'' = Ok url)"

lemma send_to_owner_delivered:
  assumes "delivers cx sx ext fy g other key" "now - last_updated c \<le> UPDATE_ROUTE_TABLE_INTERVAL"
    and "data_server sx ext fy g 0 other
      \<lparr>dr_method = m, dr_path = ''/'' @ key, dr_key = Some key, dr_body = Some body\<rparr> w = (w', Ok resp)"
  shows "send_to_owner cx now now' m key body c w = (c, w', Ok resp)"
proof -
  obtain mu where mu: "cx_join cx (ctrl_url c) ''members'' = Ok mu"
    using assms(1) unfolding delivers_def by blast
  have upd: "update_route_table_if_needed cx now now' c w = (c, w, Ok ())"
  proof -
    have "\<not> UPDATE_ROUTE_TABLE_INTERVAL < max 0 (now - last_updated c)"
      using assms(2) by (simp add: UPDATE_ROUTE_TABLE_INTERVAL_def)
    then show ?thesis by (simp add: update_route_table_if_needed_def mu)
  qed
  obtain url where "cx_join cx (client_route cx c (str_bytes key)) key = Ok url"
      "cx_send cx (reqwest c) \<lparr>req_method = m, req_url = url, req_body = Some body\<rparr> w = (w', Ok resp)"
    using assms(1,3) unfolding delivers_def by blast
  then show ?thesis by (simp add: send_to_owner_def upd)
qed

text \<open>
  C5: the round trip through all layers. Within the refresh window, against a node that serves the key
  and whose cache behaves as a cache, a put succeeds and the get after it returns that value or
  nothing, never another value; a delete succeeds and the get after it returns nothing. Values are
  arbitrary byte strings, the empty one included.
\<close>
theorem client_round_trip:
  assumes cache: "foyer_ok fy contents" and del: "delivers cx sx ext fy g other key"
    and here: "proxy_route ext (proxy_new g) (str_bytes key) = Local"
    and window: "now - last_updated c \<le> UPDATE_ROUTE_TABLE_INTERVAL"
  shows "(\<exists>w1. client_put cx now t1 key val c w = (c, w1, Ok ()) \<and>
      (\<exists>w2 r. client_get cx now t2 key c w1 = (c, w2, Ok r) \<and> r \<in> {None, Some val})) \<and>
    (\<exists>w1. client_delete cx now t1 key c w = (c, w1, Ok ()) \<and>
      (\<exists>w2. client_get cx now t2 key c w1 = (c, w2, Ok None)))"
proof -
  let ?req = "\<lambda>m b. \<lparr>dr_method = m, dr_path = ''/'' @ key, dr_key = Some key, dr_body = Some b\<rparr>"
  let ?k = "str_bytes key"
  have served: "served_here ext g (?req m b)" for m b using here by (simp add: served_here_def)
  note send = send_to_owner_delivered [OF del window] and loc = data_server_local [OF served]
  have get: "\<exists>w2. client_get cx now t2 key c w = (c, w2, Ok (snd (engine_get fy ?k (engine (ctx w)))))" for w
  proof (cases "engine_get fy ?k (engine (ctx w))")
    case (Pair e r)
    obtain w2 where d: "data_server sx ext fy g 0 other (?req GET []) w =
        (w2, Ok (case r of Some v \<Rightarrow> get_success v | None \<Rightarrow> get_not_found sx))"
      unfolding loc by (cases r) (simp_all add: data_endpoint_def handle_get_def Pair)
    from send [OF d, of t2] Pair show ?thesis
      by (cases r) (simp_all add: client_get_def http_simps response_bytes_def)
  qed
  have never: "snd (engine_get fy ?k e) \<in> {None, contents (inner e) ?k}" for e
    using engine_get_contents [OF cache, of ?k e] by (cases "snd (engine_get fy ?k e)") auto
  let ?w1 = "record_operation OPERATION_PUT STATUS_SUCCESS (Some (length val)) 0
    (w\<lparr>ctx := (ctx w)\<lparr>engine := engine_put fy ?k val (engine (ctx w))\<rparr>\<rparr>)"
  have "data_server sx ext fy g 0 other (?req PUT val) w = (?w1, Ok (put_success sx))"
    unfolding loc by (simp add: data_endpoint_def handle_put_def)
  then have put: "client_put cx now t1 key val c w = (c, ?w1, Ok ())"
    using send [of PUT val w ?w1 "put_success sx" t1] by (simp add: client_put_def http_simps)
  have "contents (inner (engine_put fy ?k val (engine (ctx w)))) ?k \<in> {None, Some val}"
    by (rule contents_put [OF cache])
  then have after_put: "snd (engine_get fy ?k (engine (ctx ?w1))) \<in> {None, Some val}"
    using never [of "engine (ctx ?w1)"] by auto
  let ?w2 = "record_operation OPERATION_DELETE STATUS_SUCCESS None 0
    (w\<lparr>ctx := (ctx w)\<lparr>engine := engine_delete fy ?k (engine (ctx w))\<rparr>\<rparr>)"
  have "data_server sx ext fy g 0 other (?req DELETE []) w = (?w2, Ok delete_success)"
    unfolding loc by (simp add: data_endpoint_def handle_delete_def)
  then have delete: "client_delete cx now t1 key c w = (c, ?w2, Ok ())"
    using send [of DELETE "[]" w ?w2 delete_success t1] by (simp add: client_delete_def http_simps)
  have "contents (inner (engine_delete fy ?k (engine (ctx w)))) ?k = None"
    by (rule contents_delete [OF cache])
  then have "snd (engine_get fy ?k (engine (ctx ?w2))) = None"
    using never [of "engine (ctx ?w2)"] by auto
  with put delete after_put get [of ?w1] get [of ?w2] show ?thesis by metis
qed

definition demo_wire :: "(nat, string, (bytes \<rightharpoonup> bytes) server_world) client_env" where
  "demo_wire = \<lparr>cx_parse = Ok, cx_join = (\<lambda>_ k. Ok k), cx_build = Ok,
     cx_send = (\<lambda>_ req w.
       case data_server demo_sx demo_ext demo_foyer (demo_state []) 0 (\<lambda>req w. (w, Err (PoemError 405)))
         \<lparr>dr_method = req_method req, dr_path = ''/'' @ req_url req, dr_key = Some (req_url req), dr_body = req_body req\<rparr> w of
         (w', Inr resp) \<Rightarrow> (w', Ok resp) | (w', Inl e) \<Rightarrow> (w', Err ''error'')),
     cx_members = (\<lambda>_. Ok []), cx_version = (\<lambda>_. Err ''no version''), cx_status_text = (\<lambda>_. ''status''),
     cx_mur3 = ext_mur3 demo_ext\<rparr>"

theorem client_round_trip_witness:
  "\<exists>w1 w2 r. client_put demo_wire 6 7 ''k'' [1, 2] (demo_client\<lparr>last_updated := 5\<rparr>) demo_world =
       (demo_client\<lparr>last_updated := 5\<rparr>, w1, Ok ()) \<and>
     client_get demo_wire 6 8 ''k'' (demo_client\<lparr>last_updated := 5\<rparr>) w1 =
       (demo_client\<lparr>last_updated := 5\<rparr>, w2, Ok r) \<and> r \<in> {None, Some [1, 2]}"
proof -
  have d: "delivers demo_wire demo_sx demo_ext demo_foyer (demo_state []) (\<lambda>req w. (w, Err (PoemError 405))) ''k''"
    unfolding delivers_def demo_wire_def by simp
  have here: "proxy_route demo_ext (proxy_new (demo_state [])) (str_bytes ''k'') = Local"
    using demo_served [of GET "[]"] by (simp add: served_here_def demo_request_def)
  have win: "6 - last_updated (demo_client\<lparr>last_updated := 5\<rparr>) \<le> UPDATE_ROUTE_TABLE_INTERVAL"
    by (simp add: UPDATE_ROUTE_TABLE_INTERVAL_def)
  from client_round_trip [OF demo_foyer_ok d here win, of 7 "[1, 2]" demo_world 8] show ?thesis by blast
qed

end
